theory Spec2Isabelle
  imports Main "HOL-Library.Monad_Syntax" "HOL-Library.Word"
begin

unbundle bit_operations_syntax

section \<open>The process table and the kernel state of kernel/proc.c\<close>

text \<open>
  The file kernel/proc.c holds the message passing and the scheduling of the kernel. Its
  headers (proc.h, priv.h, const.h, com.h, ipc.h, type.h) are not part of the sources at
  hand, so every constant, table size and macro they define is a field of the record
  \<open>kconfig\<close> (a parameter of the model) unless the specification fixes it.

  A pointer to a process slot (\<open>struct proc *\<close>) is the index \<open>n\<close> of the slot
  \<open>proc_addr(n)\<close>, or \<open>None\<close> for \<open>NIL_PROC\<close>. Plain C integers (flags,
  priorities, counters, process numbers) are \<open>int\<close>: the arithmetic on them
  (\<open>p_priority + 1\<close> and the decrement of \<open>p_full_quantums\<close> in \<open>sched\<close>) is on
  small values that stay inside the range of their C type. The two unsigned machine types whose width matters are words: \<open>'v word\<close> for
  \<open>vir_bytes\<close> and \<open>vir_clicks\<close> (the buffer check of \<open>sys_call\<close> relies on the
  wrap-around) and \<open>'b word\<close> for \<open>bitchunk_t\<close> (\<open>BITCHUNK_BITS\<close> is its width).

  Every operation returns an \<open>option\<close>: \<open>None\<close> stands for a call that has no
  defined return (a loop that never ends on a cyclic list, a table indexed out of range,
  \<open>NIL_PROC\<close> dereferenced, or the panic of \<open>unready\<close>).
\<close>

type_synonym proc_ptr_t = "int option"

text \<open>
  The message fields this file names. The specification (section 6) lists the layout of
  a notification message as \<open>m_source\<close>, \<open>m_type\<close>, \<open>NOTIFY_TIMESTAMP\<close>,
  \<open>NOTIFY_ARG\<close> and \<open>NOTIFY_FLAGS\<close>; \<open>NOTIFY_SOURCE\<close> and \<open>NOTIFY_TYPE\<close> are the
  first two. \<open>m_payload\<close> stands for the remaining bytes of an ordinary message.
\<close>

record message =
  m_source :: int
  m_type :: int
  NOTIFY_TIMESTAMP :: int
  NOTIFY_ARG :: int
  NOTIFY_FLAGS :: int
  m_payload :: "nat list"

record notification =
  n_source :: int
  n_type :: int
  n_flags :: int
  n_arg :: int
  n_next :: "nat option"

text \<open>
  Modelled from the spec: the privilege structure (priv.h is missing). Section 3 of the
  specification makes the privilege block a part of the slot, with \<open>call_mask\<close>,
  \<open>send_mask\<close>, \<open>flags\<close>, \<open>id\<close>, \<open>notify_pending\<close>, \<open>int_pending\<close>,
  \<open>sig_pending\<close> and the stack guard word. A bit map (\<open>sys_map_t\<close>) is its array of
  chunks. \<open>s_stack_guard\<close> is the word the guard pointer points to.
\<close>

record (overloaded) 'b priv =
  s_id :: nat
  s_flags :: int
  s_call_mask :: int
  s_send_mask :: "'b word list"
  s_notify_pending :: "'b word list"
  s_int_pending :: int
  s_sig_pending :: int
  s_stack_guard :: int

text \<open>
  Modelled from the spec: the process slot (proc.h is missing). Section 3 of the
  specification lists its fields: the flags, \<open>getfrom\<close>, \<open>sendto\<close>, the message
  buffer, the links of the three queues a slot can be on, the scheduling class
  (\<open>priority\<close>, \<open>max_priority\<close>), the counters \<open>full_quantums\<close>, \<open>sched_ticks\<close> and
  \<open>quantum_size\<close>, and the privilege block. Of the memory map the buffer check of
  \<open>sys_call\<close> reads \<open>p_memmap[D].mem_vir\<close>, \<open>p_memmap[S].mem_vir\<close> and
  \<open>p_memmap[S].mem_len\<close>.
\<close>

record (overloaded) ('v, 'b) proc =
  p_nr :: int
  p_rts_flags :: int
  p_getfrom :: int
  p_sendto :: int
  p_messbuf :: "'v word"
  p_caller_q :: proc_ptr_t
  p_q_link :: proc_ptr_t
  p_ntf_q :: "nat option"
  p_priority :: int
  p_max_priority :: int
  p_full_quantums :: int
  p_sched_ticks :: int
  p_quantum_size :: int
  p_nextready :: proc_ptr_t
  p_memmap_D_mem_vir :: "'v word"
  p_memmap_S_mem_vir :: "'v word"
  p_memmap_S_mem_len :: "'v word"
  p_priv :: "'b priv"

text \<open>
  The globals of the kernel that proc.c reads and writes. \<open>procs\<close> is the process table
  (\<open>procs s n\<close> is the slot \<open>*proc_addr(n)\<close>), \<open>memory\<close> the message buffers of the
  address space of each slot, \<open>uptime\<close> the value \<open>get_uptime()\<close> returns and
  \<open>stack_mess\<close> the content of the kernel stack where \<open>mini_receive\<close> and
  \<open>mini_alert\<close> keep their local \<open>message m\<close>, which C leaves indeterminate.
\<close>

record (overloaded) ('v, 'b) kstate =
  procs :: "int \<Rightarrow> ('v, 'b) proc"
  rdy_head :: "nat \<Rightarrow> proc_ptr_t"
  rdy_tail :: "nat \<Rightarrow> proc_ptr_t"
  proc_ptr :: proc_ptr_t
  next_ptr :: proc_ptr_t
  bill_ptr :: proc_ptr_t
  k_reenter :: int
  notify_buffer :: "nat \<Rightarrow> notification"
  notify_bitmap :: "nat \<Rightarrow> bool"
  memory :: "int \<Rightarrow> 'v word \<Rightarrow> message"
  uptime :: int
  stack_mess :: message

text \<open>The constants and macros of the missing headers, as parameters.\<close>

record kconfig =
  NR_TASKS :: int
  NR_PROCS :: int
  ANY :: int
  HARDWARE :: int
  SYSTEM :: int
  SLOT_FREE :: int
  SENDING :: int
  RECEIVING :: int
  NON_BLOCKING :: int
  FRESH_ANSWER :: int
  SYSCALL_FUNC :: int
  SYSCALL_FLAGS :: int
  NOTIFY :: int
  ALERT :: int
  ECHO :: int
  BILLABLE :: int
  PREEMPTIBLE :: int
  RDY_Q_HEAD :: int
  STACK_GUARD :: int
  NR_SCHED_QUEUES :: nat
  IDLE_Q :: int
  QUANTUMS :: "int \<Rightarrow> int"
  NR_SYS_PROCS :: nat
  NR_SYS_CHUNKS :: nat
  NR_NOTIFY_BUFS :: nat
  CLICK_SHIFT :: nat
  MESS_SIZE :: nat
  NOTIFY_FROM :: "int \<Rightarrow> int"
  id_to_nr :: "nat \<Rightarrow> int"
  iskerneln :: "int \<Rightarrow> bool"

text \<open>The function codes the specification fixes (section 6).\<close>

definition SEND :: int where
  "SEND = 1"

definition RECEIVE :: int where
  "RECEIVE = 2"

definition SENDREC :: int where
  "SENDREC = 3"

text \<open>The return codes (section 6 of the specification); \<open>OK\<close> is 0, the others are
  distinct error numbers.\<close>

datatype status =
  OK | ECALLDENIED | EBADSRCDST | EFAULT | EDEADDST | ELOCKED | ENOTREADY | EBADCALL | ENOSPC

subsection \<open>Macros on process numbers and bit maps\<close>

text \<open>
  Modelled from the spec: \<open>isokprocn\<close>, \<open>proc_addr\<close>, \<open>isemptyn\<close>, \<open>nr_to_id\<close>,
  \<open>get_sys_bit\<close> and \<open>set_sys_bit\<close> (proc.h and priv.h are missing). The process table
  is a fixed array of slots indexed by the process number, \<open>NR_TASKS\<close> kernel tasks
  below the \<open>NR_PROCS\<close> other slots; a process number outside the table has no slot,
  and using its address is undefined. A slot is empty when its flags equal
  \<open>SLOT_FREE\<close>. Bit \<open>n\<close> of a bit map is bit \<open>n mod BITCHUNK_BITS\<close> of chunk
  \<open>n div BITCHUNK_BITS\<close>.
\<close>

definition isokprocn :: "kconfig \<Rightarrow> int \<Rightarrow> bool" where
  "isokprocn cfg n = (0 \<le> n + NR_TASKS cfg \<and> n + NR_TASKS cfg < NR_PROCS cfg + NR_TASKS cfg)"

definition proc_addr :: "kconfig \<Rightarrow> int \<Rightarrow> int option" where
  "proc_addr cfg n = (if isokprocn cfg n then Some n else None)"

definition isemptyn :: "kconfig \<Rightarrow> ('v::len, 'b::len) kstate \<Rightarrow> int \<Rightarrow> bool option" where
  "isemptyn cfg s n = do {
     p \<leftarrow> proc_addr cfg n;
     Some (p_rts_flags (procs s p) = SLOT_FREE cfg)
   }"

definition nr_to_id :: "kconfig \<Rightarrow> ('v::len, 'b::len) kstate \<Rightarrow> int \<Rightarrow> nat option" where
  "nr_to_id cfg s n = do {
     p \<leftarrow> proc_addr cfg n;
     Some (s_id (p_priv (procs s p)))
   }"

definition get_sys_bit :: "('b::len) word list \<Rightarrow> nat \<Rightarrow> bool option" where
  "get_sys_bit chunks n =
     (if n div LENGTH('b) < length chunks
      then Some (chunks ! (n div LENGTH('b)) AND push_bit (n mod LENGTH('b)) 1 \<noteq> 0)
      else None)"

definition set_sys_bit :: "('b::len) word list \<Rightarrow> nat \<Rightarrow> 'b word list option" where
  "set_sys_bit chunks n =
     (if n div LENGTH('b) < length chunks
      then Some (chunks[n div LENGTH('b) :=
                   chunks ! (n div LENGTH('b)) OR push_bit (n mod LENGTH('b)) 1])
      else None)"

definition upd_proc ::
  "int \<Rightarrow> (('v, 'b) proc \<Rightarrow> ('v, 'b) proc) \<Rightarrow> ('v::len, 'b::len) kstate \<Rightarrow> ('v, 'b) kstate" where
  "upd_proc n f s = s\<lparr>procs := (procs s)(n := f (procs s n))\<rparr>"

definition upd_priv :: "('b priv \<Rightarrow> 'b priv) \<Rightarrow> ('v, 'b) proc \<Rightarrow> ('v::len, 'b::len) proc" where
  "upd_priv f p = p\<lparr>p_priv := f (p_priv p)\<rparr>"

text \<open>
  Modelled from the spec: \<open>CopyMess\<close>, that is \<open>cp_mess\<close> (assembly, missing). The
  specification treats it as an opaque move of the bytes of one message between two
  address spaces. The address space of a slot is named by the slot; \<open>s\<close> is the sender
  number the macro is given. A message that lives in the kernel (the local \<open>m\<close> copied
  from the space of \<open>HARDWARE\<close>) is stored with \<open>put_mess\<close>.
\<close>

definition put_mess ::
  "int \<Rightarrow> 'v word \<Rightarrow> message \<Rightarrow> ('v::len, 'b::len) kstate \<Rightarrow> ('v, 'b) kstate" where
  "put_mess dp dm m s = s\<lparr>memory := (memory s)(dp := (memory s dp)(dm := m))\<rparr>"

definition CopyMess ::
  "int \<Rightarrow> int \<Rightarrow> 'v word \<Rightarrow> int \<Rightarrow> 'v word \<Rightarrow> ('v::len, 'b::len) kstate \<Rightarrow> ('v, 'b) kstate" where
  "CopyMess s sp sm dp dm st = put_mess dp dm (memory st sp sm) st"

section \<open>The scheduler\<close>

subsection \<open>pick_proc\<close>

text \<open>
  The loop \<open>for (q = 0; q < NR_SCHED_QUEUES; q++)\<close> of \<open>pick_proc\<close>, over the queue
  numbers still to be looked at.
\<close>

fun pick_scan :: "kconfig \<Rightarrow> ('v::len, 'b::len) kstate \<Rightarrow> nat list \<Rightarrow> ('v, 'b) kstate" where
  "pick_scan cfg s [] = s"
| "pick_scan cfg s (q # qs) =
     (case rdy_head s q of
        None \<Rightarrow> pick_scan cfg s qs
      | Some rp \<Rightarrow>
          (let s1 = s\<lparr>next_ptr := Some rp\<rparr>
           in if s_flags (p_priv (procs s1 rp)) AND BILLABLE cfg \<noteq> 0
              then s1\<lparr>bill_ptr := Some rp\<rparr>
              else s1))"

definition pick_proc :: "kconfig \<Rightarrow> ('v::len, 'b::len) kstate \<Rightarrow> ('v, 'b) kstate" where
  "pick_proc cfg s = pick_scan cfg s [0 ..< NR_SCHED_QUEUES cfg]"

subsection \<open>ready\<close>

definition queue_index :: "kconfig \<Rightarrow> int \<Rightarrow> nat option" where
  "queue_index cfg q = (if 0 \<le> q \<and> q < int (NR_SCHED_QUEUES cfg) then Some (nat q) else None)"

definition ready :: "kconfig \<Rightarrow> int \<Rightarrow> ('v::len, 'b::len) kstate \<Rightarrow> ('v, 'b) kstate option" where
  "ready cfg rp s = do {
     q \<leftarrow> queue_index cfg (p_priority (procs s rp));
     if rdy_head s q = None then
       Some (pick_proc cfg
         (upd_proc rp (\<lambda>p. p\<lparr>p_nextready := None\<rparr>)
           (s\<lparr>rdy_tail := (rdy_tail s)(q := Some rp),
              rdy_head := (rdy_head s)(q := Some rp)\<rparr>)))
     else if s_flags (p_priv (procs s rp)) AND RDY_Q_HEAD cfg \<noteq> 0 then
       Some (pick_proc cfg
         ((upd_proc rp (\<lambda>p. p\<lparr>p_nextready := rdy_head s q\<rparr>) s)
            \<lparr>rdy_head := (rdy_head s)(q := Some rp)\<rparr>))
     else do {
       t \<leftarrow> rdy_tail s q;
       Some (pick_proc cfg
         (upd_proc rp (\<lambda>p. p\<lparr>p_nextready := None\<rparr>)
           ((upd_proc t (\<lambda>p. p\<lparr>p_nextready := Some rp\<rparr>) s)
              \<lparr>rdy_tail := (rdy_tail s)(q := Some rp)\<rparr>)))
     }
   }"

subsection \<open>unready\<close>

text \<open>
  A pointer to a pointer (\<open>struct proc **xpp\<close>) is the place it points at: the head of a
  ready queue or one of the link fields of a slot.
\<close>

datatype link = Rdy_head_of nat | P_nextready_of int | P_caller_q_of int | P_q_link_of int

fun get_link :: "('v::len, 'b::len) kstate \<Rightarrow> link \<Rightarrow> proc_ptr_t" where
  "get_link s (Rdy_head_of q) = rdy_head s q"
| "get_link s (P_nextready_of x) = p_nextready (procs s x)"
| "get_link s (P_caller_q_of x) = p_caller_q (procs s x)"
| "get_link s (P_q_link_of x) = p_q_link (procs s x)"

fun set_link :: "link \<Rightarrow> proc_ptr_t \<Rightarrow> ('v::len, 'b::len) kstate \<Rightarrow> ('v, 'b) kstate" where
  "set_link (Rdy_head_of q) v s = s\<lparr>rdy_head := (rdy_head s)(q := v)\<rparr>"
| "set_link (P_nextready_of x) v s = upd_proc x (\<lambda>p. p\<lparr>p_nextready := v\<rparr>) s"
| "set_link (P_caller_q_of x) v s = upd_proc x (\<lambda>p. p\<lparr>p_caller_q := v\<rparr>) s"
| "set_link (P_q_link_of x) v s = upd_proc x (\<lambda>p. p\<lparr>p_q_link := v\<rparr>) s"

text \<open>The body of the \<open>if (*xpp == rp)\<close> of \<open>unready\<close>, up to its \<open>break\<close>.\<close>

definition unready_found ::
  "kconfig \<Rightarrow> int \<Rightarrow> nat \<Rightarrow> link \<Rightarrow> proc_ptr_t \<Rightarrow> ('v::len, 'b::len) kstate \<Rightarrow> ('v, 'b) kstate" where
  "unready_found cfg rp q xpp prev_xp s =
     (let s1 = set_link xpp (p_nextready (procs s rp)) s;
          s2 = (if Some rp = rdy_tail s1 q then s1\<lparr>rdy_tail := (rdy_tail s1)(q := prev_xp)\<rparr> else s1)
      in if Some rp = proc_ptr s2 \<or> Some rp = next_ptr s2 then pick_proc cfg s2 else s2)"

text \<open>
  The loop \<open>for (xpp = &rdy_head[q]; *xpp != NIL_PROC; xpp = &(*xpp)->p_nextready)\<close>;
  on a cyclic queue that does not hold \<open>rp\<close> it never ends.
\<close>

partial_function (option) unready_loop ::
  "kconfig \<Rightarrow> int \<Rightarrow> nat \<Rightarrow> link \<Rightarrow> proc_ptr_t \<Rightarrow> ('v::len, 'b::len) kstate \<Rightarrow> ('v, 'b) kstate option" where
  "unready_loop cfg rp q xpp prev_xp s =
     (case get_link s xpp of
        None \<Rightarrow> Some s
      | Some x \<Rightarrow>
          if x = rp then Some (unready_found cfg rp q xpp prev_xp s)
          else unready_loop cfg rp q (P_nextready_of x) (Some x) s)"

definition iskernelp :: "kconfig \<Rightarrow> ('v::len, 'b::len) proc \<Rightarrow> bool" where
  "iskernelp cfg p = iskerneln cfg (p_nr p)"

definition unready :: "kconfig \<Rightarrow> int \<Rightarrow> ('v::len, 'b::len) kstate \<Rightarrow> ('v, 'b) kstate option" where
  "unready cfg rp s =
     (if iskernelp cfg (procs s rp) \<and> s_stack_guard (p_priv (procs s rp)) \<noteq> STACK_GUARD cfg
      then None
      else do {
        q \<leftarrow> queue_index cfg (p_priority (procs s rp));
        s1 \<leftarrow> unready_loop cfg rp q (Rdy_head_of q) None s;
        let s2 = upd_proc rp (\<lambda>p. p\<lparr>p_priority := p_max_priority p\<rparr>) s1;
        Some (upd_proc rp (\<lambda>p. p\<lparr>p_full_quantums := QUANTUMS cfg (p_priority p)\<rparr>) s2)
      })"

subsection \<open>sched\<close>

text \<open>The four assignments that move the head of queue \<open>q\<close> to its tail.\<close>

definition rotate_queue :: "nat \<Rightarrow> ('v::len, 'b::len) kstate \<Rightarrow> ('v, 'b) kstate option" where
  "rotate_queue q s = do {
     t \<leftarrow> rdy_tail s q;
     let s1 = upd_proc t (\<lambda>p. p\<lparr>p_nextready := rdy_head s q\<rparr>) s;
     let s2 = s1\<lparr>rdy_tail := (rdy_tail s1)(q := rdy_head s1 q)\<rparr>;
     h \<leftarrow> rdy_head s2 q;
     let s3 = s2\<lparr>rdy_head := (rdy_head s2)(q := p_nextready (procs s2 h))\<rparr>;
     t' \<leftarrow> rdy_tail s3 q;
     Some (upd_proc t' (\<lambda>p. p\<lparr>p_nextready := None\<rparr>) s3)
   }"

text \<open>The block \<open>if (-- sched_ptr->p_full_quantums <= 0) { ... }\<close>, after the decrement.\<close>

definition sched_demote :: "kconfig \<Rightarrow> int \<Rightarrow> ('v::len, 'b::len) kstate \<Rightarrow> ('v, 'b) kstate option" where
  "sched_demote cfg sched_ptr s =
     (if p_full_quantums (procs s sched_ptr) \<le> 0 then do {
        s1 \<leftarrow> (if p_priority (procs s sched_ptr) + 1 < IDLE_Q cfg then do {
                 let q = p_priority (procs s sched_ptr) + 1;
                 s2 \<leftarrow> unready cfg sched_ptr s;
                 ready cfg sched_ptr (upd_proc sched_ptr (\<lambda>p. p\<lparr>p_priority := q\<rparr>) s2)
               } else Some s);
        Some (upd_proc sched_ptr (\<lambda>p. p\<lparr>p_full_quantums := QUANTUMS cfg (p_priority p)\<rparr>) s1)
      } else Some s)"

definition sched :: "kconfig \<Rightarrow> int \<Rightarrow> ('v::len, 'b::len) kstate \<Rightarrow> ('v, 'b) kstate option" where
  "sched cfg sched_ptr s =
     (if s_flags (p_priv (procs s sched_ptr)) AND PREEMPTIBLE cfg = 0 then Some s
      else do {
        s1 \<leftarrow> sched_demote cfg sched_ptr
                (upd_proc sched_ptr (\<lambda>p. p\<lparr>p_full_quantums := p_full_quantums p - 1\<rparr>) s);
        q \<leftarrow> queue_index cfg (p_priority (procs s1 sched_ptr));
        s2 \<leftarrow> (if rdy_head s1 q = Some sched_ptr then rotate_queue q s1 else Some s1);
        Some (pick_proc cfg (upd_proc sched_ptr (\<lambda>p. p\<lparr>p_sched_ticks := p_quantum_size p\<rparr>) s2))
      })"

section \<open>The message passing functions\<close>

subsection \<open>BuildMess\<close>

text \<open>
  The macro assigns three fields of the message and, for the sources \<open>HARDWARE\<close> and
  \<open>SYSTEM\<close>, moves the pending interrupts or signals of the destination into
  \<open>NOTIFY_ARG\<close>. It returns the message and the state.
\<close>

definition BuildMess ::
  "kconfig \<Rightarrow> message \<Rightarrow> int \<Rightarrow> int \<Rightarrow> ('v::len, 'b::len) kstate \<Rightarrow> message \<times> ('v, 'b) kstate" where
  "BuildMess cfg m src dst_ptr s =
     (let m1 = m\<lparr>m_source := src, m_type := NOTIFY_FROM cfg src, NOTIFY_TIMESTAMP := uptime s\<rparr>
      in if src = HARDWARE cfg then
           (m1\<lparr>NOTIFY_ARG := s_int_pending (p_priv (procs s dst_ptr))\<rparr>,
            upd_proc dst_ptr (upd_priv (\<lambda>pr. pr\<lparr>s_int_pending := 0\<rparr>)) s)
         else if src = SYSTEM cfg then
           (m1\<lparr>NOTIFY_ARG := s_sig_pending (p_priv (procs s dst_ptr))\<rparr>,
            upd_proc dst_ptr (upd_priv (\<lambda>pr. pr\<lparr>s_sig_pending := 0\<rparr>)) s)
         else (m1, s))"

subsection \<open>mini_send\<close>

text \<open>
  The deadlock check \<open>while (xp->p_rts_flags & SENDING)\<close>: \<open>Some True\<close> when the walk
  reaches the caller (the function returns \<open>ELOCKED\<close>), \<open>Some False\<close> when it leaves
  the loop. On a cycle of senders that misses the caller it never ends.
\<close>

partial_function (option) deadlock_loop ::
  "kconfig \<Rightarrow> int \<Rightarrow> int \<Rightarrow> ('v::len, 'b::len) kstate \<Rightarrow> bool option" where
  "deadlock_loop cfg caller_ptr xp s =
     (if p_rts_flags (procs s xp) AND SENDING cfg \<noteq> 0 then
        (case proc_addr cfg (p_sendto (procs s xp)) of
           None \<Rightarrow> None
         | Some xp' \<Rightarrow> if xp' = caller_ptr then Some True else deadlock_loop cfg caller_ptr xp' s)
      else Some False)"

text \<open>The loop \<open>while (*xpp != NIL_PROC) xpp = &(*xpp)->p_q_link\<close>.\<close>

partial_function (option) caller_q_end :: "link \<Rightarrow> ('v::len, 'b::len) kstate \<Rightarrow> link option" where
  "caller_q_end xpp s =
     (case get_link s xpp of
        None \<Rightarrow> Some xpp
      | Some x \<Rightarrow> caller_q_end (P_q_link_of x) s)"

text \<open>The test both \<open>mini_send\<close>, \<open>mini_alert\<close> and \<open>mini_notify\<close> make on the
  destination: it waits for a message, and for one of this caller.\<close>

definition dst_waits :: "kconfig \<Rightarrow> int \<Rightarrow> int \<Rightarrow> ('v::len, 'b::len) kstate \<Rightarrow> bool" where
  "dst_waits cfg caller_ptr dst_ptr s =
     (p_rts_flags (procs s dst_ptr) AND (RECEIVING cfg OR SENDING cfg) = RECEIVING cfg \<and>
      (p_getfrom (procs s dst_ptr) = ANY cfg \<or>
       p_getfrom (procs s dst_ptr) = p_nr (procs s caller_ptr)))"

text \<open>The statement \<open>if ((dst_ptr->p_rts_flags &= ~RECEIVING) == 0) ready(dst_ptr)\<close>.\<close>

definition clear_flag_ready ::
  "kconfig \<Rightarrow> int \<Rightarrow> int \<Rightarrow> ('v::len, 'b::len) kstate \<Rightarrow> ('v, 'b) kstate option" where
  "clear_flag_ready cfg flag rp s =
     (let s1 = upd_proc rp (\<lambda>p. p\<lparr>p_rts_flags := p_rts_flags p AND NOT flag\<rparr>) s
      in if p_rts_flags (procs s1 rp) = 0 then ready cfg rp s1 else Some s1)"

definition mini_send ::
  "kconfig \<Rightarrow> int \<Rightarrow> int \<Rightarrow> 'v word \<Rightarrow> int \<Rightarrow> ('v::len, 'b::len) kstate
     \<Rightarrow> (status \<times> ('v, 'b) kstate) option" where
  "mini_send cfg caller_ptr dst m_ptr flags s = do {
     dst_ptr \<leftarrow> proc_addr cfg dst;
     locked \<leftarrow> deadlock_loop cfg caller_ptr dst_ptr s;
     if locked then Some (ELOCKED, s)
     else if dst_waits cfg caller_ptr dst_ptr s then do {
       let s1 = CopyMess (p_nr (procs s caller_ptr)) caller_ptr m_ptr
                  dst_ptr (p_messbuf (procs s dst_ptr)) s;
       s2 \<leftarrow> clear_flag_ready cfg (RECEIVING cfg) dst_ptr s1;
       Some (OK, s2)
     }
     else if flags AND NON_BLOCKING cfg = 0 then do {
       let s1 = upd_proc caller_ptr (\<lambda>p. p\<lparr>p_messbuf := m_ptr\<rparr>) s;
       s2 \<leftarrow> (if p_rts_flags (procs s1 caller_ptr) = 0 then unready cfg caller_ptr s1 else Some s1);
       let s3 = upd_proc caller_ptr (\<lambda>p. p\<lparr>p_rts_flags := p_rts_flags p OR SENDING cfg\<rparr>) s2;
       let s4 = upd_proc caller_ptr (\<lambda>p. p\<lparr>p_sendto := dst\<rparr>) s3;
       xpp \<leftarrow> caller_q_end (P_caller_q_of dst_ptr) s4;
       let s5 = set_link xpp (Some caller_ptr) s4;
       Some (OK, upd_proc caller_ptr (\<lambda>p. p\<lparr>p_q_link := None\<rparr>) s5)
     }
     else Some (ENOTREADY, s)
   }"

subsection \<open>mini_receive\<close>

text \<open>The loop \<open>for (i = 0; ! (*chunk & (1 << i)); ++i) {}\<close>: the lowest bit set in
  the chunk. It is entered for a chunk that is not 0 only.\<close>

partial_function (option) find_bit :: "('b::len) word \<Rightarrow> nat \<Rightarrow> nat option" where
  "find_bit chunk i = (if chunk AND push_bit i 1 \<noteq> 0 then Some i else find_bit chunk (i + 1))"

text \<open>
  The statements after \<open>*chunk &= ~(1 << i)\<close>: the notification of \<open>src_proc_nr\<close> is
  built in the local message and copied to the caller from the space of \<open>HARDWARE\<close>.
\<close>

definition deliver_pending ::
  "kconfig \<Rightarrow> int \<Rightarrow> 'v word \<Rightarrow> int \<Rightarrow> ('v::len, 'b::len) kstate \<Rightarrow> ('v, 'b) kstate option" where
  "deliver_pending cfg caller_ptr m_ptr src_proc_nr s = do {
     let (m, s1) = BuildMess cfg (stack_mess s) src_proc_nr caller_ptr s;
     hw \<leftarrow> proc_addr cfg (HARDWARE cfg);
     Some (put_mess caller_ptr m_ptr m s1)
   }"

text \<open>
  The loop over the chunks of \<open>s_notify_pending\<close>, for the chunk numbers still to be
  looked at. The result \<open>Some None\<close> says that the loop ended (or was left by
  \<open>break\<close>) with nothing delivered; \<open>Some (Some s')\<close> that the function returns
  \<open>OK\<close> in state \<open>s'\<close>.
\<close>

fun pending_scan ::
  "kconfig \<Rightarrow> int \<Rightarrow> int \<Rightarrow> 'v word \<Rightarrow> nat list \<Rightarrow> ('v::len, 'b::len) kstate
     \<Rightarrow> ('v, 'b) kstate option option" where
  "pending_scan cfg caller_ptr src m_ptr [] s = Some None"
| "pending_scan cfg caller_ptr src m_ptr (k # ks) s =
     (let chunks = s_notify_pending (p_priv (procs s caller_ptr))
      in if length chunks \<le> k then None
         else if chunks ! k = 0 then pending_scan cfg caller_ptr src m_ptr ks s
         else (case find_bit (chunks ! k) 0 of
                 None \<Rightarrow> None
               | Some i \<Rightarrow>
                   (let src_id = k * LENGTH('b) + i
                    in if NR_SYS_PROCS cfg \<le> src_id then Some None
                       else if src \<noteq> ANY cfg \<and> src \<noteq> id_to_nr cfg src_id
                       then pending_scan cfg caller_ptr src m_ptr ks s
                       else map_option Some
                              (deliver_pending cfg caller_ptr m_ptr (id_to_nr cfg src_id)
                                 (upd_proc caller_ptr
                                    (upd_priv (\<lambda>pr. pr\<lparr>s_notify_pending :=
                                       chunks[k := chunks ! k AND NOT (push_bit i 1)]\<rparr>)) s)))))"

text \<open>
  The queue of notification records (the part under \<open>TEMP_CODE\<close>, which the braces of
  \<open>mini_receive\<close> need to be compiled in). A record is named by its index in
  \<open>notify_buffer\<close>.

  Modelled from the spec: \<open>alloc_bit\<close> and \<open>free_bit\<close> (missing). \<open>notify_bitmap\<close>
  tracks which of the \<open>NR_NOTIFY_BUFS\<close> records are in use; \<open>alloc_bit\<close> takes a free
  one and fails when the pool is exhausted, \<open>free_bit\<close> gives one back.
\<close>

datatype ntf_link = P_ntf_q_of int | N_next_of nat

fun get_ntf :: "('v::len, 'b::len) kstate \<Rightarrow> ntf_link \<Rightarrow> nat option" where
  "get_ntf s (P_ntf_q_of x) = p_ntf_q (procs s x)"
| "get_ntf s (N_next_of i) = n_next (notify_buffer s i)"

fun set_ntf :: "ntf_link \<Rightarrow> nat option \<Rightarrow> ('v::len, 'b::len) kstate \<Rightarrow> ('v, 'b) kstate" where
  "set_ntf (P_ntf_q_of x) v s = upd_proc x (\<lambda>p. p\<lparr>p_ntf_q := v\<rparr>) s"
| "set_ntf (N_next_of i) v s =
     s\<lparr>notify_buffer := (notify_buffer s)(i := (notify_buffer s i)\<lparr>n_next := v\<rparr>)\<rparr>"

definition alloc_bit :: "(nat \<Rightarrow> bool) \<Rightarrow> nat \<Rightarrow> (nat \<times> (nat \<Rightarrow> bool)) option" where
  "alloc_bit bitmap nr_bits =
     (case find (\<lambda>i. \<not> bitmap i) [0 ..< nr_bits] of
        None \<Rightarrow> None
      | Some i \<Rightarrow> Some (i, bitmap(i := True)))"

definition free_bit :: "nat \<Rightarrow> (nat \<Rightarrow> bool) \<Rightarrow> (nat \<Rightarrow> bool)" where
  "free_bit bit_nr bitmap = bitmap(bit_nr := False)"

text \<open>The body of \<open>if (src == ANY || src == (*ntf_q_pp)->n_source)\<close>.\<close>

definition deliver_queued ::
  "kconfig \<Rightarrow> int \<Rightarrow> 'v word \<Rightarrow> ntf_link \<Rightarrow> nat \<Rightarrow> ('v::len, 'b::len) kstate
     \<Rightarrow> ('v, 'b) kstate option" where
  "deliver_queued cfg caller_ptr m_ptr ntf_q_pp n s = do {
     let m = (stack_mess s)\<lparr>m_source := n_source (notify_buffer s n),
                             m_type := n_type (notify_buffer s n),
                             NOTIFY_FLAGS := n_flags (notify_buffer s n),
                             NOTIFY_ARG := n_arg (notify_buffer s n)\<rparr>;
     let (m1, s1) =
       (if m_source m = HARDWARE cfg
        then (m\<lparr>NOTIFY_ARG := s_int_pending (p_priv (procs s caller_ptr))\<rparr>,
              upd_proc caller_ptr (upd_priv (\<lambda>pr. pr\<lparr>s_int_pending := 0\<rparr>)) s)
        else (m, s));
     hw \<leftarrow> proc_addr cfg (HARDWARE cfg);
     let s2 = put_mess caller_ptr m_ptr m1 s1;
     let s3 = set_ntf ntf_q_pp (n_next (notify_buffer s2 n)) s2;
     Some (s3\<lparr>notify_bitmap := free_bit n (notify_bitmap s3)\<rparr>)
   }"

partial_function (option) ntf_q_scan ::
  "kconfig \<Rightarrow> int \<Rightarrow> int \<Rightarrow> 'v word \<Rightarrow> ntf_link \<Rightarrow> ('v::len, 'b::len) kstate
     \<Rightarrow> ('v, 'b) kstate option option" where
  "ntf_q_scan cfg caller_ptr src m_ptr ntf_q_pp s =
     (case get_ntf s ntf_q_pp of
        None \<Rightarrow> Some None
      | Some n \<Rightarrow>
          if src = ANY cfg \<or> src = n_source (notify_buffer s n)
          then map_option Some (deliver_queued cfg caller_ptr m_ptr ntf_q_pp n s)
          else ntf_q_scan cfg caller_ptr src m_ptr (N_next_of n) s)"

text \<open>The body of \<open>if (src == ANY || src == proc_nr(*xpp))\<close> in the scan of the
  caller queue.\<close>

definition take_sender ::
  "kconfig \<Rightarrow> int \<Rightarrow> 'v word \<Rightarrow> link \<Rightarrow> int \<Rightarrow> ('v::len, 'b::len) kstate \<Rightarrow> ('v, 'b) kstate option" where
  "take_sender cfg caller_ptr m_ptr xpp x s = do {
     let s1 = CopyMess (p_nr (procs s x)) x (p_messbuf (procs s x)) caller_ptr m_ptr s;
     s2 \<leftarrow> clear_flag_ready cfg (SENDING cfg) x s1;
     x' \<leftarrow> get_link s2 xpp;
     Some (set_link xpp (p_q_link (procs s2 x')) s2)
   }"

partial_function (option) caller_q_scan ::
  "kconfig \<Rightarrow> int \<Rightarrow> int \<Rightarrow> 'v word \<Rightarrow> link \<Rightarrow> ('v::len, 'b::len) kstate
     \<Rightarrow> ('v, 'b) kstate option option" where
  "caller_q_scan cfg caller_ptr src m_ptr xpp s =
     (case get_link s xpp of
        None \<Rightarrow> Some None
      | Some x \<Rightarrow>
          if src = ANY cfg \<or> src = p_nr (procs s x)
          then map_option Some (take_sender cfg caller_ptr m_ptr xpp x s)
          else caller_q_scan cfg caller_ptr src m_ptr (P_q_link_of x) s)"

text \<open>The last block of \<open>mini_receive\<close>: block the caller unless the flags forbid it.\<close>

definition receive_block ::
  "kconfig \<Rightarrow> int \<Rightarrow> int \<Rightarrow> 'v word \<Rightarrow> int \<Rightarrow> ('v::len, 'b::len) kstate
     \<Rightarrow> (status \<times> ('v, 'b) kstate) option" where
  "receive_block cfg caller_ptr src m_ptr flags s =
     (if flags AND NON_BLOCKING cfg = 0 then do {
        let s1 = upd_proc caller_ptr (\<lambda>p. p\<lparr>p_getfrom := src\<rparr>) s;
        let s2 = upd_proc caller_ptr (\<lambda>p. p\<lparr>p_messbuf := m_ptr\<rparr>) s1;
        s3 \<leftarrow> (if p_rts_flags (procs s2 caller_ptr) = 0 then unready cfg caller_ptr s2 else Some s2);
        Some (OK, upd_proc caller_ptr (\<lambda>p. p\<lparr>p_rts_flags := p_rts_flags p OR RECEIVING cfg\<rparr>) s3)
      }
      else Some (ENOTREADY, s))"

text \<open>The block \<open>if (!(caller_ptr->p_rts_flags & SENDING)) { ... }\<close>: \<open>Some (Some s')\<close>
  when a message was found and the function returns \<open>OK\<close>.\<close>

definition receive_acquire ::
  "kconfig \<Rightarrow> int \<Rightarrow> int \<Rightarrow> 'v word \<Rightarrow> int \<Rightarrow> ('v::len, 'b::len) kstate
     \<Rightarrow> ('v, 'b) kstate option option" where
  "receive_acquire cfg caller_ptr src m_ptr flags s =
     (if flags AND FRESH_ANSWER cfg = 0 then do {
        r1 \<leftarrow> pending_scan cfg caller_ptr src m_ptr [0 ..< NR_SYS_CHUNKS cfg] s;
        case r1 of
          Some s' \<Rightarrow> Some (Some s')
        | None \<Rightarrow> do {
            r2 \<leftarrow> ntf_q_scan cfg caller_ptr src m_ptr (P_ntf_q_of caller_ptr) s;
            case r2 of
              Some s' \<Rightarrow> Some (Some s')
            | None \<Rightarrow> caller_q_scan cfg caller_ptr src m_ptr (P_caller_q_of caller_ptr) s
          }
      }
      else caller_q_scan cfg caller_ptr src m_ptr (P_caller_q_of caller_ptr) s)"

definition mini_receive ::
  "kconfig \<Rightarrow> int \<Rightarrow> int \<Rightarrow> 'v word \<Rightarrow> int \<Rightarrow> ('v::len, 'b::len) kstate
     \<Rightarrow> (status \<times> ('v, 'b) kstate) option" where
  "mini_receive cfg caller_ptr src m_ptr flags s =
     (if p_rts_flags (procs s caller_ptr) AND SENDING cfg = 0 then do {
        r \<leftarrow> receive_acquire cfg caller_ptr src m_ptr flags s;
        case r of
          Some s' \<Rightarrow> Some (OK, s')
        | None \<Rightarrow> receive_block cfg caller_ptr src m_ptr flags s
      }
      else receive_block cfg caller_ptr src m_ptr flags s)"

subsection \<open>mini_alert\<close>

definition mini_alert ::
  "kconfig \<Rightarrow> int \<Rightarrow> int \<Rightarrow> ('v::len, 'b::len) kstate \<Rightarrow> (status \<times> ('v, 'b) kstate) option" where
  "mini_alert cfg caller_ptr dst s = do {
     dst_ptr \<leftarrow> proc_addr cfg dst;
     if dst_waits cfg caller_ptr dst_ptr s then do {
       let (m, s1) = BuildMess cfg (stack_mess s) (p_nr (procs s caller_ptr)) dst_ptr s;
       hw \<leftarrow> proc_addr cfg (HARDWARE cfg);
       let s2 = put_mess dst_ptr (p_messbuf (procs s1 dst_ptr)) m s1;
       let s3 = upd_proc dst_ptr (\<lambda>p. p\<lparr>p_rts_flags := p_rts_flags p AND NOT (RECEIVING cfg)\<rparr>) s2;
       s4 \<leftarrow> (if p_rts_flags (procs s3 dst_ptr) = 0 then ready cfg dst_ptr s3 else Some s3);
       Some (OK, s4)
     }
     else do {
       let src_id = s_id (p_priv (procs s caller_ptr));
       chunks \<leftarrow> set_sys_bit (s_notify_pending (p_priv (procs s dst_ptr))) src_id;
       Some (OK, upd_proc dst_ptr (upd_priv (\<lambda>pr. pr\<lparr>s_notify_pending := chunks\<rparr>)) s)
     }
   }"

subsection \<open>mini_notify\<close>

text \<open>
  The loop over the notification queue of the destination. \<open>Inl s'\<close>: a record of the
  same source and type was overwritten and the function returns \<open>OK\<close> in \<open>s'\<close>;
  \<open>Inr ntf_q_pp\<close>: the loop ended at the link that closes the queue.
\<close>

partial_function (option) notify_replace ::
  "int \<Rightarrow> message \<Rightarrow> ntf_link \<Rightarrow> ('v::len, 'b::len) kstate \<Rightarrow> (('v, 'b) kstate + ntf_link) option" where
  "notify_replace source m ntf_q_pp s =
     (case get_ntf s ntf_q_pp of
        None \<Rightarrow> Some (Inr ntf_q_pp)
      | Some n \<Rightarrow>
          if n_type (notify_buffer s n) = m_type m \<and> n_source (notify_buffer s n) = source
          then Some (Inl (s\<lparr>notify_buffer := (notify_buffer s)
                          (n := (notify_buffer s n)\<lparr>n_flags := NOTIFY_FLAGS m,
                                                     n_arg := NOTIFY_ARG m\<rparr>)\<rparr>))
          else notify_replace source m (N_next_of n) s)"

text \<open>The statements after the loop: a free record is taken, filled and linked in.\<close>

definition notify_append ::
  "kconfig \<Rightarrow> int \<Rightarrow> message \<Rightarrow> ntf_link \<Rightarrow> ('v::len, 'b::len) kstate \<Rightarrow> status \<times> ('v, 'b) kstate" where
  "notify_append cfg source m ntf_q_pp s =
     (case alloc_bit (notify_bitmap s) (NR_NOTIFY_BUFS cfg) of
        None \<Rightarrow> (ENOSPC, s)
      | Some (ntf_index, bitmap) \<Rightarrow>
          (let s1 = s\<lparr>notify_bitmap := bitmap\<rparr>;
               s2 = s1\<lparr>notify_buffer := (notify_buffer s1)
                      (ntf_index := (notify_buffer s1 ntf_index)
                         \<lparr>n_source := source, n_type := m_type m,
                          n_flags := NOTIFY_FLAGS m, n_arg := NOTIFY_ARG m\<rparr>)\<rparr>;
               s3 = set_ntf ntf_q_pp (Some ntf_index) s2
           in (OK, s3\<lparr>notify_buffer := (notify_buffer s3)
                        (ntf_index := (notify_buffer s3 ntf_index)\<lparr>n_next := None\<rparr>)\<rparr>)))"

definition mini_notify ::
  "kconfig \<Rightarrow> int \<Rightarrow> int \<Rightarrow> 'v word \<Rightarrow> ('v::len, 'b::len) kstate
     \<Rightarrow> (status \<times> ('v, 'b) kstate) option" where
  "mini_notify cfg caller_ptr dst m_ptr s = do {
     dst_ptr \<leftarrow> proc_addr cfg dst;
     if dst_waits cfg caller_ptr dst_ptr s then do {
       let s1 = (if p_nr (procs s caller_ptr) = HARDWARE cfg
                 then upd_proc dst_ptr (upd_priv (\<lambda>pr. pr\<lparr>s_int_pending := 0\<rparr>))
                        (put_mess caller_ptr m_ptr
                           ((memory s caller_ptr m_ptr)
                              \<lparr>NOTIFY_ARG := s_int_pending (p_priv (procs s dst_ptr))\<rparr>) s)
                 else s);
       let s2 = CopyMess (p_nr (procs s1 caller_ptr)) caller_ptr m_ptr
                  dst_ptr (p_messbuf (procs s1 dst_ptr)) s1;
       let s3 = upd_proc dst_ptr (\<lambda>p. p\<lparr>p_rts_flags := p_rts_flags p AND NOT (RECEIVING cfg)\<rparr>) s2;
       s4 \<leftarrow> (if p_rts_flags (procs s3 dst_ptr) = 0 then ready cfg dst_ptr s3 else Some s3);
       Some (OK, s4)
     }
     else do {
       m \<leftarrow> (if \<not> iskernelp cfg (procs s caller_ptr)
              then do { hw \<leftarrow> proc_addr cfg (HARDWARE cfg); Some (memory s caller_ptr m_ptr) }
              else Some (memory s caller_ptr m_ptr));
       r \<leftarrow> notify_replace (p_nr (procs s caller_ptr)) m (P_ntf_q_of dst_ptr) s;
       case r of
         Inl s' \<Rightarrow> Some (OK, s')
       | Inr ntf_q_pp \<Rightarrow> Some (notify_append cfg (p_nr (procs s caller_ptr)) m ntf_q_pp s)
     }
   }"

subsection \<open>The gateways lock_alert and lock_send\<close>

text \<open>
  \<open>lock\<close> and \<open>unlock\<close> switch the interrupts off and on around the call; they
  touch nothing of the state above, so both branches of \<open>lock_alert\<close> are the same
  call.
\<close>

definition lock_alert ::
  "kconfig \<Rightarrow> int \<Rightarrow> int \<Rightarrow> ('v::len, 'b::len) kstate \<Rightarrow> (status \<times> ('v, 'b) kstate) option" where
  "lock_alert cfg src dst s = do {
     src_ptr \<leftarrow> proc_addr cfg src;
     if 0 \<le> k_reenter s then mini_alert cfg src_ptr dst s
     else mini_alert cfg src_ptr dst s
   }"

definition lock_send ::
  "kconfig \<Rightarrow> int \<Rightarrow> 'v word \<Rightarrow> ('v::len, 'b::len) kstate \<Rightarrow> (status \<times> ('v, 'b) kstate) option" where
  "lock_send cfg dst m_ptr s = do {
     caller_ptr \<leftarrow> proc_ptr s;
     mini_send cfg caller_ptr dst m_ptr (NON_BLOCKING cfg) s
   }"

subsection \<open>sys_call\<close>

text \<open>The check of the message pointer, in clicks; the sum \<open>vb + MESS_SIZE - 1\<close> and the
  end of the stack segment wrap around as unsigned arithmetic does.\<close>

definition bad_buffer :: "kconfig \<Rightarrow> ('v::len, 'b::len) proc \<Rightarrow> 'v word \<Rightarrow> bool" where
  "bad_buffer cfg caller vb =
     (let vlo = drop_bit (CLICK_SHIFT cfg) vb;
          vhi = drop_bit (CLICK_SHIFT cfg) (vb + of_nat (MESS_SIZE cfg) - 1)
      in vlo < p_memmap_D_mem_vir caller \<or> vlo > vhi \<or>
         vhi \<ge> p_memmap_S_mem_vir caller + p_memmap_S_mem_len caller)"

text \<open>The block \<open>if (function & SEND) { ... }\<close>: \<open>Some (Some e)\<close> when it returns the
  error \<open>e\<close>. The warning it prints is not part of the state.\<close>

definition check_dst ::
  "kconfig \<Rightarrow> int \<Rightarrow> int \<Rightarrow> ('v::len, 'b::len) kstate \<Rightarrow> status option option" where
  "check_dst cfg caller_ptr src_dst s = do {
     dst_id \<leftarrow> nr_to_id cfg s src_dst;
     allowed \<leftarrow> get_sys_bit (s_send_mask (p_priv (procs s caller_ptr))) dst_id;
     if \<not> allowed then Some (Some ECALLDENIED)
     else do {
       dead \<leftarrow> isemptyn cfg s src_dst;
       Some (if dead then Some EDEADDST else None)
     }
   }"

text \<open>The \<open>switch (function)\<close>; its cases are tried in the order they are written.\<close>

definition dispatch ::
  "kconfig \<Rightarrow> int \<Rightarrow> int \<Rightarrow> int \<Rightarrow> int \<Rightarrow> 'v word \<Rightarrow> ('v::len, 'b::len) kstate
     \<Rightarrow> (status \<times> ('v, 'b) kstate) option" where
  "dispatch cfg caller_ptr function flags src_dst m_ptr s =
     (if function = SENDREC \<or> function = SEND then do {
        (result, s1) \<leftarrow> mini_send cfg caller_ptr src_dst m_ptr flags s;
        if function = SEND \<or> result \<noteq> OK then Some (result, s1)
        else mini_receive cfg caller_ptr src_dst m_ptr flags s1
      }
      else if function = RECEIVE then mini_receive cfg caller_ptr src_dst m_ptr flags s
      else if function = ALERT cfg then mini_alert cfg caller_ptr src_dst s
      else if function = NOTIFY cfg then mini_notify cfg caller_ptr src_dst m_ptr s
      else if function = ECHO cfg then
        Some (OK, CopyMess (p_nr (procs s caller_ptr)) caller_ptr m_ptr caller_ptr m_ptr s)
      else Some (EBADCALL, s))"

text \<open>\<open>sys_call\<close>; a negative shift count in \<open>1 << function\<close> is undefined.\<close>

definition sys_call ::
  "kconfig \<Rightarrow> int \<Rightarrow> int \<Rightarrow> 'v word \<Rightarrow> ('v::len, 'b::len) kstate
     \<Rightarrow> (status \<times> ('v, 'b) kstate) option" where
  "sys_call cfg call_nr src_dst m_ptr s = do {
     caller_ptr \<leftarrow> proc_ptr s;
     let function = call_nr AND SYSCALL_FUNC cfg;
     let flags = call_nr AND SYSCALL_FLAGS cfg;
     if function < 0 then None
     else if s_call_mask (p_priv (procs s caller_ptr)) AND push_bit (nat function) 1 = 0 \<or>
             (iskerneln cfg src_dst \<and> function \<noteq> SENDREC)
     then Some (ECALLDENIED, s)
     else if \<not> (isokprocn cfg src_dst \<or> src_dst = ANY cfg \<or> function = ECHO cfg)
     then Some (EBADSRCDST, s)
     else if function AND SENDREC \<noteq> 0 \<and> bad_buffer cfg (procs s caller_ptr) m_ptr
     then Some (EFAULT, s)
     else do {
       denied \<leftarrow> (if function AND SEND \<noteq> 0 then check_dst cfg caller_ptr src_dst s else Some None);
       case denied of
         Some e \<Rightarrow> Some (e, s)
       | None \<Rightarrow> dispatch cfg caller_ptr function flags src_dst m_ptr s
     }
   }"

section \<open>Abstractions used to state the properties\<close>

text \<open>
  A list that is linked through a next field and closed by a null pointer
  (\<open>NIL_PROC\<close>, \<open>NULL\<close>): \<open>nil_path nxt h xs\<close> holds when following \<open>nxt\<close> from the
  pointer \<open>h\<close> visits exactly the nodes \<open>xs\<close> and then reaches the null pointer.
\<close>

primrec nil_path :: "('a \<Rightarrow> 'a option) \<Rightarrow> 'a option \<Rightarrow> 'a list \<Rightarrow> bool" where
  "nil_path nxt h [] = (h = None)"
| "nil_path nxt h (x # xs) = (h = Some x \<and> nil_path nxt (nxt x) xs)"

text \<open>Ready queue \<open>q\<close> holds the slots \<open>xs\<close>, in this order, linked by
  \<open>p_nextready\<close>, and \<open>rdy_tail[q]\<close> is its last slot.\<close>

definition nextready_of :: "('v::len, 'b::len) kstate \<Rightarrow> int \<Rightarrow> proc_ptr_t" where
  "nextready_of s x = p_nextready (procs s x)"

definition ready_queue :: "('v::len, 'b::len) kstate \<Rightarrow> nat \<Rightarrow> int list \<Rightarrow> bool" where
  "ready_queue s q xs =
     (nil_path (nextready_of s) (rdy_head s q) xs \<and>
      (xs \<noteq> [] \<longrightarrow> rdy_tail s q = Some (last xs)))"

text \<open>
  The notification queue of slot \<open>d\<close> holds the records \<open>ns\<close> (indices of
  \<open>notify_buffer\<close>), in this order, linked by \<open>n_next\<close>. \<open>ntf_match s src t i\<close>: record
  \<open>i\<close> is one of source \<open>src\<close> and type \<open>t\<close>.
\<close>

definition ntf_next_of :: "('v::len, 'b::len) kstate \<Rightarrow> nat \<Rightarrow> nat option" where
  "ntf_next_of s i = n_next (notify_buffer s i)"

definition ntf_queue :: "('v::len, 'b::len) kstate \<Rightarrow> int \<Rightarrow> nat list \<Rightarrow> bool" where
  "ntf_queue s d ns = nil_path (ntf_next_of s) (p_ntf_q (procs s d)) ns"

definition ntf_match :: "('v::len, 'b::len) kstate \<Rightarrow> int \<Rightarrow> int \<Rightarrow> nat \<Rightarrow> bool" where
  "ntf_match s src t i = (n_type (notify_buffer s i) = t \<and> n_source (notify_buffer s i) = src)"

text \<open>
  The chain of the deadlock check: \<open>sending_path cfg s xp ys\<close> holds when \<open>ys\<close> are the
  slots the walk reaches from \<open>xp\<close> one after the other, each step leaving a slot that
  has \<open>SENDING\<close> set for the slot of its \<open>p_sendto\<close>.
\<close>

fun sending_path :: "kconfig \<Rightarrow> ('v::len, 'b::len) kstate \<Rightarrow> int \<Rightarrow> int list \<Rightarrow> bool" where
  "sending_path cfg s xp [] = True"
| "sending_path cfg s xp (y # ys) =
     (p_rts_flags (procs s xp) AND SENDING cfg \<noteq> 0 \<and>
      proc_addr cfg (p_sendto (procs s xp)) = Some y \<and>
      sending_path cfg s y ys)"

text \<open>
  The deadlock check with a bound on the number of times the body of its loop runs:
  \<open>deadlock_fuel n\<close> is \<open>deadlock_loop\<close> cut off (with \<open>None\<close>) when the body would
  run for the \<open>n + 1\<close>-th time.
\<close>

fun deadlock_fuel ::
  "nat \<Rightarrow> kconfig \<Rightarrow> int \<Rightarrow> int \<Rightarrow> ('v::len, 'b::len) kstate \<Rightarrow> bool option" where
  "deadlock_fuel n cfg caller_ptr xp s =
     (if p_rts_flags (procs s xp) AND SENDING cfg \<noteq> 0 then
        (case n of
           0 \<Rightarrow> None
         | Suc m \<Rightarrow>
             (case proc_addr cfg (p_sendto (procs s xp)) of
                None \<Rightarrow> None
              | Some xp' \<Rightarrow>
                  if xp' = caller_ptr then Some True else deadlock_fuel m cfg caller_ptr xp' s))
      else Some False)"

text \<open>
  The edges of the chains of senders: a slot of the table that has \<open>SENDING\<close> set points
  to the slot of its \<open>p_sendto\<close>. \<open>sendto_ok\<close> says that each such \<open>p_sendto\<close> is a
  process number of the table.
\<close>

definition sendto_rel :: "kconfig \<Rightarrow> ('v::len, 'b::len) kstate \<Rightarrow> (int \<times> int) set" where
  "sendto_rel cfg s =
     {(p, p'). isokprocn cfg p \<and> p_rts_flags (procs s p) AND SENDING cfg \<noteq> 0 \<and>
               p' = p_sendto (procs s p)}"

definition sendto_ok :: "kconfig \<Rightarrow> ('v::len, 'b::len) kstate \<Rightarrow> bool" where
  "sendto_ok cfg s =
     (\<forall>p. isokprocn cfg p \<and> p_rts_flags (procs s p) AND SENDING cfg \<noteq> 0
          \<longrightarrow> isokprocn cfg (p_sendto (procs s p)))"

text \<open>\<open>n\<close> calls of \<open>mini_alert\<close> by the same caller for the same destination, one
  after the other: the results of the calls and the last state.\<close>

primrec alert_times ::
  "nat \<Rightarrow> kconfig \<Rightarrow> int \<Rightarrow> int \<Rightarrow> ('v::len, 'b::len) kstate
     \<Rightarrow> (status list \<times> ('v, 'b) kstate) option" where
  "alert_times 0 cfg caller_ptr dst s = Some ([], s)"
| "alert_times (Suc n) cfg caller_ptr dst s =
     (case mini_alert cfg caller_ptr dst s of
        None \<Rightarrow> None
      | Some (r, s1) \<Rightarrow>
          map_option (\<lambda>(rs, s2). (r # rs, s2)) (alert_times n cfg caller_ptr dst s1))"

section \<open>An instance of the parameters and some states\<close>

text \<open>
  A configuration in the style of MINIX 3 on a 32-bit machine with 16-bit chunks, and a
  state in which every slot is runnable and no queue holds anything. The examples below
  are variations of it.
\<close>

definition cfg0 :: kconfig where
  "cfg0 = \<lparr>NR_TASKS = 4, NR_PROCS = 8, ANY = 31438, HARDWARE = - 1, SYSTEM = - 2,
           SLOT_FREE = 1, SENDING = 4, RECEIVING = 8, NON_BLOCKING = 16, FRESH_ANSWER = 32,
           SYSCALL_FUNC = 15, SYSCALL_FLAGS = 240, NOTIFY = 5, ALERT = 4, ECHO = 10,
           BILLABLE = 4, PREEMPTIBLE = 1, RDY_Q_HEAD = 2, STACK_GUARD = 3735928559,
           NR_SCHED_QUEUES = 16, IDLE_Q = 15, QUANTUMS = (\<lambda>q. 1 + (16 - q) div 2),
           NR_SYS_PROCS = 32, NR_SYS_CHUNKS = 2, NR_NOTIFY_BUFS = 4,
           CLICK_SHIFT = 12, MESS_SIZE = 36, NOTIFY_FROM = (\<lambda>p. 4096 + p),
           id_to_nr = (\<lambda>i. int i - 4), iskerneln = (\<lambda>n. n < 0)\<rparr>"

definition priv0 :: "int \<Rightarrow> 16 priv" where
  "priv0 n = \<lparr>s_id = nat (n + 4), s_flags = 1, s_call_mask = 2047,
              s_send_mask = [65535, 65535], s_notify_pending = [0, 0],
              s_int_pending = 0, s_sig_pending = 0, s_stack_guard = 3735928559\<rparr>"

definition proc0 :: "int \<Rightarrow> (32, 16) proc" where
  "proc0 n = \<lparr>p_nr = n, p_rts_flags = 0, p_getfrom = 0, p_sendto = 0, p_messbuf = 0,
              p_caller_q = None, p_q_link = None, p_ntf_q = None,
              p_priority = 7, p_max_priority = 7, p_full_quantums = 5,
              p_sched_ticks = 0, p_quantum_size = 8, p_nextready = None,
              p_memmap_D_mem_vir = 0, p_memmap_S_mem_vir = 16, p_memmap_S_mem_len = 16,
              p_priv = priv0 n\<rparr>"

definition mess0 :: message where
  "mess0 = \<lparr>m_source = 0, m_type = 0, NOTIFY_TIMESTAMP = 0, NOTIFY_ARG = 0,
            NOTIFY_FLAGS = 0, m_payload = []\<rparr>"

definition ntf0 :: notification where
  "ntf0 = \<lparr>n_source = 0, n_type = 0, n_flags = 0, n_arg = 0, n_next = None\<rparr>"

definition st0 :: "(32, 16) kstate" where
  "st0 = \<lparr>procs = proc0, rdy_head = (\<lambda>q. None), rdy_tail = (\<lambda>q. None),
          proc_ptr = Some 1, next_ptr = Some 1, bill_ptr = Some 1, k_reenter = - 1,
          notify_buffer = (\<lambda>i. ntf0), notify_bitmap = (\<lambda>i. False),
          memory = (\<lambda>p a. mess0), uptime = 100, stack_mess = mess0\<rparr>"

text \<open>Slot 2 is the only ready process, at the head of queue 7; it is not billable.\<close>

definition st_pick :: "(32, 16) kstate" where
  "st_pick = st0\<lparr>rdy_head := (rdy_head st0)(7 := Some 2), rdy_tail := (rdy_tail st0)(7 := Some 2)\<rparr>"

text \<open>Slot 2 is blocked sending to slot 3, which is blocked sending to slot 1.\<close>

definition st_chain :: "(32, 16) kstate" where
  "st_chain = upd_proc 2 (\<lambda>p. p\<lparr>p_rts_flags := 4, p_sendto := 3\<rparr>)
               (upd_proc 3 (\<lambda>p. p\<lparr>p_rts_flags := 4, p_sendto := 1\<rparr>) st0)"

text \<open>Slot 2 is blocked sending to slot 1, the running process.\<close>

definition st_lock :: "(32, 16) kstate" where
  "st_lock = upd_proc 2 (\<lambda>p. p\<lparr>p_rts_flags := 4, p_sendto := 1\<rparr>) st0"

text \<open>Slot 3 waits for a message of any source, with its buffer at address 64; slot 1
  is the only slot on ready queue 7 and has a message at address 32.\<close>

definition st_rdv :: "(32, 16) kstate" where
  "st_rdv = (upd_proc 3 (\<lambda>p. p\<lparr>p_rts_flags := 8, p_getfrom := 31438, p_messbuf := 64\<rparr>) st0)
              \<lparr>rdy_head := (rdy_head st0)(7 := Some 1),
               rdy_tail := (rdy_tail st0)(7 := Some 1),
               memory := (memory st0)(1 := (memory st0 1)
                           (32 := mess0\<lparr>m_type := 42, m_payload := [1, 2, 3]\<rparr>))\<rparr>"

text \<open>Slot 5 is free.\<close>

definition st_dead :: "(32, 16) kstate" where
  "st_dead = upd_proc 5 (\<lambda>p. p\<lparr>p_rts_flags := 1\<rparr>) st0"

text \<open>Slot 1 has two notifications pending, of the sources with the ids 0 and 1 (the
  slots -4 and -3).\<close>

definition st_pend :: "(32, 16) kstate" where
  "st_pend = upd_proc 1 (upd_priv (\<lambda>pr. pr\<lparr>s_notify_pending := [3, 0]\<rparr>)) st0"

text \<open>Slot 1 has a notification pending of the source with the id 0 (slot -4).\<close>

definition st_pend0 :: "(32, 16) kstate" where
  "st_pend0 = upd_proc 1 (upd_priv (\<lambda>pr. pr\<lparr>s_notify_pending := [1, 0]\<rparr>)) st0"

text \<open>Slot 2 holds two notification messages of type 7, at the addresses 32 and 64;
  the notification queue of every slot is empty and every buffer is free.\<close>

definition st_ntf :: "(32, 16) kstate" where
  "st_ntf = st0\<lparr>memory := (memory st0)(2 := (memory st0 2)
               (32 := mess0\<lparr>m_type := 7, NOTIFY_ARG := 11, NOTIFY_FLAGS := 1\<rparr>,
                64 := mess0\<lparr>m_type := 7, NOTIFY_ARG := 22, NOTIFY_FLAGS := 2\<rparr>))\<rparr>"

text \<open>Slot 2 is blocked sending to itself: a chain of blocked senders that is a
  cycle.\<close>

definition st_self :: "(32, 16) kstate" where
  "st_self = upd_proc 2 (\<lambda>p. p\<lparr>p_rts_flags := 4, p_sendto := 2\<rparr>) st0"

text \<open>Ready queue 7 holds the slots 2 and 3, ready queue 8 holds slot 5; the other
  queues are empty.\<close>

definition st_queue :: "(32, 16) kstate" where
  "st_queue = (upd_proc 2 (\<lambda>p. p\<lparr>p_nextready := Some 3\<rparr>)
                 (upd_proc 5 (\<lambda>p. p\<lparr>p_priority := 8\<rparr>) st0))
               \<lparr>rdy_head := (rdy_head st0)(7 := Some 2, 8 := Some 5),
                rdy_tail := (rdy_tail st0)(7 := Some 3, 8 := Some 5)\<rparr>"

text \<open>The same, slot 2 having one full quantum left.\<close>

definition st_sched :: "(32, 16) kstate" where
  "st_sched = upd_proc 2 (\<lambda>p. p\<lparr>p_full_quantums := 1\<rparr>) st_queue"

text \<open>The same, slot 2 being not preemptible.\<close>

definition st_np :: "(32, 16) kstate" where
  "st_np = upd_proc 2 (upd_priv (\<lambda>pr. pr\<lparr>s_flags := 0\<rparr>)) st_queue"

section \<open>Properties of the scheduler\<close>

subsection \<open>pick_proc\<close>

lemma pick_scan_frame:
  "pick_scan cfg s qs =
     s\<lparr>next_ptr := next_ptr (pick_scan cfg s qs), bill_ptr := bill_ptr (pick_scan cfg s qs)\<rparr>"
  by (induction qs) (auto simp: Let_def split: option.splits)

lemma pick_scan_empty:
  "\<forall>q\<in>set qs. rdy_head s q = None \<Longrightarrow> pick_scan cfg s qs = s"
  by (induction qs) auto

lemma pick_scan_first:
  "\<forall>q\<in>set as. rdy_head s q = None \<Longrightarrow> rdy_head s q = Some rp \<Longrightarrow>
   pick_scan cfg s (as @ q # bs) =
     (if s_flags (p_priv (procs s rp)) AND BILLABLE cfg \<noteq> 0
      then s\<lparr>next_ptr := Some rp, bill_ptr := Some rp\<rparr> else s\<lparr>next_ptr := Some rp\<rparr>)"
  by (induction as) (auto simp: Let_def)

lemma pick_scan_next_ptr:
  "next_ptr s \<noteq> None \<Longrightarrow> next_ptr (pick_scan cfg s qs) \<noteq> None"
  by (induction qs) (auto simp: Let_def split: option.splits)

lemma upt_split: "q < n \<Longrightarrow> [0..<n] = [0..<q] @ q # [Suc q..<n]"
  using upt_add_eq_append[of 0 q "n - q"] by (simp add: upt_conv_Cons)

lemma pick_proc_first:
  assumes "q < NR_SCHED_QUEUES cfg" "\<forall>q'<q. rdy_head s q' = None" "rdy_head s q = Some rp"
  shows "pick_proc cfg s =
     (if s_flags (p_priv (procs s rp)) AND BILLABLE cfg \<noteq> 0
      then s\<lparr>next_ptr := Some rp, bill_ptr := Some rp\<rparr> else s\<lparr>next_ptr := Some rp\<rparr>)"
  unfolding pick_proc_def upt_split[OF assms(1)]
  by (rule pick_scan_first) (use assms in auto)

lemma pick_proc_frame_eq:
  "pick_proc cfg s =
     s\<lparr>next_ptr := next_ptr (pick_proc cfg s), bill_ptr := bill_ptr (pick_proc cfg s)\<rparr>"
  unfolding pick_proc_def by (rule pick_scan_frame)

text \<open>
  Claim C10. \<open>pick_proc\<close> changes nothing but \<open>next_ptr\<close> and \<open>bill_ptr\<close>. When every
  ready queue is empty it leaves the whole state as it is; it never replaces a
  \<open>next_ptr\<close> that is set by \<open>NIL_PROC\<close>; and when the slot it elects (the head of the
  first queue that is not empty) has no \<open>BILLABLE\<close> flag, \<open>bill_ptr\<close> keeps its value.
\<close>

theorem pick_proc_frame:
  "pick_proc cfg s =
     s\<lparr>next_ptr := next_ptr (pick_proc cfg s), bill_ptr := bill_ptr (pick_proc cfg s)\<rparr> \<and>
   ((\<forall>q<NR_SCHED_QUEUES cfg. rdy_head s q = None) \<longrightarrow> pick_proc cfg s = s) \<and>
   (next_ptr s \<noteq> None \<longrightarrow> next_ptr (pick_proc cfg s) \<noteq> None) \<and>
   (\<forall>q rp. q < NR_SCHED_QUEUES cfg \<and> (\<forall>q'<q. rdy_head s q' = None) \<and>
       rdy_head s q = Some rp \<and> s_flags (p_priv (procs s rp)) AND BILLABLE cfg = 0 \<longrightarrow>
       next_ptr (pick_proc cfg s) = Some rp \<and> bill_ptr (pick_proc cfg s) = bill_ptr s)"
proof (intro conjI allI impI)
  show "pick_proc cfg s =
          s\<lparr>next_ptr := next_ptr (pick_proc cfg s), bill_ptr := bill_ptr (pick_proc cfg s)\<rparr>"
    by (rule pick_proc_frame_eq)
next
  assume "\<forall>q<NR_SCHED_QUEUES cfg. rdy_head s q = None"
  then show "pick_proc cfg s = s"
    unfolding pick_proc_def by (intro pick_scan_empty) auto
next
  assume "next_ptr s \<noteq> None"
  then show "next_ptr (pick_proc cfg s) \<noteq> None"
    unfolding pick_proc_def by (rule pick_scan_next_ptr)
next
  fix q rp
  assume h: "q < NR_SCHED_QUEUES cfg \<and> (\<forall>q'<q. rdy_head s q' = None) \<and>
       rdy_head s q = Some rp \<and> s_flags (p_priv (procs s rp)) AND BILLABLE cfg = 0"
  then have "pick_proc cfg s = s\<lparr>next_ptr := Some rp\<rparr>"
    using pick_proc_first[of q cfg s rp] by simp
  then show "next_ptr (pick_proc cfg s) = Some rp" "bill_ptr (pick_proc cfg s) = bill_ptr s"
    by simp_all
qed

theorem pick_proc_frame_witness:
  "rdy_head st_pick 7 = Some 2 \<and> s_flags (p_priv (procs st_pick 2)) AND BILLABLE cfg0 = 0 \<and>
   next_ptr st_pick \<noteq> None \<and> next_ptr (pick_proc cfg0 st_pick) \<noteq> None \<and>
   next_ptr (pick_proc cfg0 st_pick) = Some 2 \<and>
   bill_ptr (pick_proc cfg0 st_pick) = bill_ptr st_pick \<and>
   pick_proc cfg0 st0 = st0"
proof -
  have h: "(7::nat) < NR_SCHED_QUEUES cfg0 \<and> (\<forall>q'<7. rdy_head st_pick q' = None) \<and>
           rdy_head st_pick 7 = Some 2 \<and> s_flags (p_priv (procs st_pick 2)) AND BILLABLE cfg0 = 0"
    by (simp add: cfg0_def st_pick_def st0_def proc0_def priv0_def)
  have n: "next_ptr st_pick \<noteq> None"
    by (simp add: st_pick_def st0_def)
  have e: "\<forall>q<NR_SCHED_QUEUES cfg0. rdy_head st0 q = None"
    by (simp add: st0_def)
  from pick_proc_frame[of cfg0 st_pick] h n
  have c: "next_ptr (pick_proc cfg0 st_pick) = Some 2 \<and>
           bill_ptr (pick_proc cfg0 st_pick) = bill_ptr st_pick \<and>
           next_ptr (pick_proc cfg0 st_pick) \<noteq> None"
    by blast
  from pick_proc_frame[of cfg0 st0] e have c0: "pick_proc cfg0 st0 = st0"
    by blast
  show ?thesis using h n c c0 by blast
qed

section \<open>Properties of mini_send\<close>

subsection \<open>The deadlock check\<close>

lemma deadlock_loop_path:
  "sending_path cfg s xp ys \<Longrightarrow> c \<in> set ys \<Longrightarrow> deadlock_loop cfg c xp s = Some True"
proof (induction ys arbitrary: xp)
  case Nil
  then show ?case by simp
next
  case (Cons y ys)
  show ?case
  proof (cases "y = c")
    case True
    with Cons.prems show ?thesis
      by (subst deadlock_loop.simps) simp
  next
    case False
    with Cons.prems have "deadlock_loop cfg c y s = Some True"
      by (intro Cons.IH) auto
    with Cons.prems False show ?thesis
      by (subst deadlock_loop.simps) simp
  qed
qed

lemma deadlock_fuel_loop:
  "deadlock_fuel n cfg c xp s = Some b \<Longrightarrow> deadlock_loop cfg c xp s = Some b"
proof (induction n arbitrary: xp)
  case 0
  then show ?case
    by (subst deadlock_loop.simps) (auto split: if_splits)
next
  case (Suc n)
  show ?case
  proof (cases "p_rts_flags (procs s xp) AND SENDING cfg \<noteq> 0")
    case False
    with Suc.prems show ?thesis
      by (subst deadlock_loop.simps) auto
  next
    case True
    with Suc.prems obtain y where y: "proc_addr cfg (p_sendto (procs s xp)) = Some y"
      by (auto split: option.splits)
    show ?thesis
    proof (cases "y = c")
      case True
      with Suc.prems y \<open>p_rts_flags (procs s xp) AND SENDING cfg \<noteq> 0\<close> show ?thesis
        by (subst deadlock_loop.simps) auto
    next
      case False
      with Suc.prems y True have "deadlock_fuel n cfg c y s = Some b"
        by simp
      then have "deadlock_loop cfg c y s = Some b"
        by (rule Suc.IH)
      with y True False show ?thesis
        by (subst deadlock_loop.simps) auto
    qed
  qed
qed

lemma deadlock_fuel_True_path:
  "deadlock_fuel n cfg c xp s = Some True \<Longrightarrow> \<exists>ys. sending_path cfg s xp ys \<and> c \<in> set ys"
proof (induction n arbitrary: xp)
  case 0
  then show ?case by (auto split: if_splits)
next
  case (Suc n)
  from Suc.prems have S: "p_rts_flags (procs s xp) AND SENDING cfg \<noteq> 0"
    by (auto split: if_splits)
  with Suc.prems obtain y where y: "proc_addr cfg (p_sendto (procs s xp)) = Some y"
    by (auto split: option.splits)
  show ?case
  proof (cases "y = c")
    case True
    with S y have "sending_path cfg s xp [c]" by simp
    then show ?thesis by (intro exI[of _ "[c]"]) simp
  next
    case False
    with Suc.prems S y have "deadlock_fuel n cfg c y s = Some True" by simp
    then obtain ys where "sending_path cfg s y ys" "c \<in> set ys"
      using Suc.IH by blast
    with S y have "sending_path cfg s xp (y # ys) \<and> c \<in> set (y # ys)" by simp
    then show ?thesis by blast
  qed
qed

lemma sendto_rel_succ_card:
  assumes "acyclic r" "(x, y) \<in> r" "finite (r\<^sup>+ `` {x})"
  shows "card (r\<^sup>+ `` {y}) < card (r\<^sup>+ `` {x})"
proof -
  have "r\<^sup>+ `` {y} \<subseteq> r\<^sup>+ `` {x}"
    using assms(2) by (auto intro: trancl_into_trancl2)
  moreover have "y \<in> r\<^sup>+ `` {x}" using assms(2) by auto
  moreover have "y \<notin> r\<^sup>+ `` {y}" using assms(1) by (auto simp: acyclic_def)
  ultimately have "r\<^sup>+ `` {y} \<subset> r\<^sup>+ `` {x}" by blast
  then show ?thesis using assms(3) by (rule psubset_card_mono[rotated])
qed

lemma isokprocn_set: "{p. isokprocn cfg p} = {- NR_TASKS cfg ..< NR_PROCS cfg}"
  by (auto simp: isokprocn_def)

lemma sendto_rel_range:
  assumes "sendto_ok cfg s"
  shows "sendto_rel cfg s \<subseteq> {p. isokprocn cfg p} \<times> {p. isokprocn cfg p}"
  using assms by (auto simp: sendto_rel_def sendto_ok_def)

lemma sendto_reach_finite:
  assumes "sendto_ok cfg s"
  shows "finite ((sendto_rel cfg s)\<^sup>+ `` {x})"
proof -
  have "(sendto_rel cfg s)\<^sup>+ \<subseteq> {p. isokprocn cfg p} \<times> {p. isokprocn cfg p}"
    using sendto_rel_range[OF assms] by (rule trancl_subset_Sigma)
  then have "(sendto_rel cfg s)\<^sup>+ `` {x} \<subseteq> {p. isokprocn cfg p}" by auto
  then show ?thesis by (rule finite_subset) (simp add: isokprocn_set)
qed

lemma sendto_reach_card:
  assumes "sendto_ok cfg s" "acyclic (sendto_rel cfg s)" "isokprocn cfg x"
  shows "card ((sendto_rel cfg s)\<^sup>+ `` {x}) \<le> nat (NR_TASKS cfg + NR_PROCS cfg) - 1"
proof -
  have "(sendto_rel cfg s)\<^sup>+ \<subseteq> {p. isokprocn cfg p} \<times> {p. isokprocn cfg p}"
    using sendto_rel_range[OF assms(1)] by (rule trancl_subset_Sigma)
  moreover have "x \<notin> (sendto_rel cfg s)\<^sup>+ `` {x}"
    using assms(2) by (auto simp: acyclic_def)
  ultimately have "(sendto_rel cfg s)\<^sup>+ `` {x} \<subseteq> {p. isokprocn cfg p} - {x}" by auto
  then have "card ((sendto_rel cfg s)\<^sup>+ `` {x}) \<le> card ({p. isokprocn cfg p} - {x})"
    by (intro card_mono) (simp_all add: isokprocn_set)
  also have "\<dots> = card {p. isokprocn cfg p} - 1"
    using assms(3) by (intro card_Diff_singleton) simp
  also have "card {p. isokprocn cfg p} = nat (NR_TASKS cfg + NR_PROCS cfg)"
    by (simp add: isokprocn_set add.commute)
  finally show ?thesis .
qed

lemma deadlock_fuel_enough:
  assumes "sendto_ok cfg s" "acyclic (sendto_rel cfg s)"
  shows "isokprocn cfg xp \<Longrightarrow> card ((sendto_rel cfg s)\<^sup>+ `` {xp}) \<le> n \<Longrightarrow>
         \<exists>b. deadlock_fuel n cfg c xp s = Some b"
proof (induction n arbitrary: xp)
  case 0
  have "\<not> p_rts_flags (procs s xp) AND SENDING cfg \<noteq> 0"
  proof
    assume S: "p_rts_flags (procs s xp) AND SENDING cfg \<noteq> 0"
    with 0 have "(xp, p_sendto (procs s xp)) \<in> sendto_rel cfg s"
      by (simp add: sendto_rel_def)
    then have "p_sendto (procs s xp) \<in> (sendto_rel cfg s)\<^sup>+ `` {xp}" by auto
    moreover from 0 have "(sendto_rel cfg s)\<^sup>+ `` {xp} = {}"
      using sendto_reach_finite[OF assms(1), of xp] by simp
    ultimately show False by simp
  qed
  then have "deadlock_fuel 0 cfg c xp s = Some False" by simp
  then show ?case by blast
next
  case (Suc n)
  show ?case
  proof (cases "p_rts_flags (procs s xp) AND SENDING cfg \<noteq> 0")
    case False
    then have "deadlock_fuel (Suc n) cfg c xp s = Some False" by simp
    then show ?thesis by blast
  next
    case True
    let ?y = "p_sendto (procs s xp)"
    from True Suc.prems have e: "(xp, ?y) \<in> sendto_rel cfg s"
      by (simp add: sendto_rel_def)
    from True Suc.prems assms(1) have y: "isokprocn cfg ?y"
      by (auto simp: sendto_ok_def)
    have "card ((sendto_rel cfg s)\<^sup>+ `` {?y}) < card ((sendto_rel cfg s)\<^sup>+ `` {xp})"
      using assms(2) e sendto_reach_finite[OF assms(1)] by (rule sendto_rel_succ_card)
    with Suc.prems have "card ((sendto_rel cfg s)\<^sup>+ `` {?y}) \<le> n" by simp
    with y obtain b where "deadlock_fuel n cfg c ?y s = Some b"
      using Suc.IH by blast
    with True y have "deadlock_fuel (Suc n) cfg c xp s = Some (if ?y = c then True else b)"
      by (simp add: proc_addr_def)
    then show ?thesis by blast
  qed
qed

text \<open>
  Claim C3. When the chain that starts at the destination and follows \<open>p_sendto\<close>
  through slots that have \<open>SENDING\<close> set reaches the caller, \<open>mini_send\<close> returns
  \<open>ELOCKED\<close> and the state it returns is the state it was given: no flag, no
  \<open>p_sendto\<close>, no message buffer and no queue has changed, so the processes on the chain
  are blocked as before.
\<close>

theorem mini_send_ELOCKED:
  assumes "isokprocn cfg dst" "sending_path cfg s dst ys" "caller_ptr \<in> set ys"
  shows "mini_send cfg caller_ptr dst m_ptr flags s = Some (ELOCKED, s)"
  using assms(1) deadlock_loop_path[OF assms(2,3)]
  by (simp add: mini_send_def proc_addr_def)

theorem mini_send_ELOCKED_witness:
  "isokprocn cfg0 2 \<and> sending_path cfg0 st_chain 2 [3, 1] \<and>
   mini_send cfg0 1 2 0 0 st_chain = Some (ELOCKED, st_chain)"
proof -
  have h1: "isokprocn cfg0 2"
    by (simp add: isokprocn_def cfg0_def)
  have h2: "sending_path cfg0 st_chain 2 [3, 1]"
    by (simp add: st_chain_def upd_proc_def st0_def proc0_def cfg0_def proc_addr_def isokprocn_def)
  have h3: "(1::int) \<in> set [3, 1]"
    by simp
  show ?thesis
    using h1 h2 mini_send_ELOCKED[OF h1 h2 h3] by blast
qed

text \<open>
  Claim C8. When the chains of senders are acyclic (and the \<open>p_sendto\<close> of every sender
  is a slot of the table), the deadlock check of \<open>mini_send\<close> returns for every caller and
  every destination of the table, and the body of its loop runs at most
  \<open>NR_TASKS + NR_PROCS - 1\<close> times: the chain is strictly shorter than the number of
  slots.
\<close>

theorem deadlock_check_terminates:
  assumes "acyclic (sendto_rel cfg s)" "sendto_ok cfg s" "isokprocn cfg dst"
  shows "\<exists>b. deadlock_loop cfg caller_ptr dst s = Some b \<and>
             deadlock_fuel (nat (NR_TASKS cfg + NR_PROCS cfg) - 1) cfg caller_ptr dst s = Some b"
proof -
  obtain b where
    b: "deadlock_fuel (nat (NR_TASKS cfg + NR_PROCS cfg) - 1) cfg caller_ptr dst s = Some b"
    using deadlock_fuel_enough[OF assms(2,1,3) sendto_reach_card[OF assms(2,1,3)]] by blast
  then have "deadlock_loop cfg caller_ptr dst s = Some b"
    by (rule deadlock_fuel_loop)
  with b show ?thesis by blast
qed

lemma st_chain_acyclic: "acyclic (sendto_rel cfg0 st_chain)"
  by (rule acyclicI_order[where f = "\<lambda>p. if p = 2 then 2 else if p = 3 then 1 else (0::nat)"])
     (auto simp: sendto_rel_def st_chain_def upd_proc_def st0_def proc0_def cfg0_def
           split: if_splits)

lemma st_chain_sendto_ok: "sendto_ok cfg0 st_chain"
  by (auto simp: sendto_ok_def st_chain_def upd_proc_def st0_def proc0_def cfg0_def isokprocn_def)

theorem deadlock_check_terminates_witness:
  "acyclic (sendto_rel cfg0 st_chain) \<and> sendto_ok cfg0 st_chain \<and> isokprocn cfg0 2 \<and>
   (\<exists>b. deadlock_loop cfg0 5 2 st_chain = Some b \<and>
        deadlock_fuel (nat (NR_TASKS cfg0 + NR_PROCS cfg0) - 1) cfg0 5 2 st_chain = Some b)"
proof -
  have h: "isokprocn cfg0 2"
    by (simp add: isokprocn_def cfg0_def)
  show ?thesis
    using st_chain_acyclic st_chain_sendto_ok h
      deadlock_check_terminates[OF st_chain_acyclic st_chain_sendto_ok h, of 5]
    by blast
qed

lemma deadlock_loop_True_path:
  assumes "deadlock_loop cfg c xp s = Some b"
  shows "b \<longrightarrow> (\<exists>ys. sending_path cfg s xp ys \<and> c \<in> set ys)"
proof (rule deadlock_loop.raw_induct[where
         P = "\<lambda>cfg c xp s b. b \<longrightarrow> (\<exists>ys. sending_path cfg s xp ys \<and> c \<in> set ys)",
         OF _ assms])
  fix loop :: "kconfig \<Rightarrow> int \<Rightarrow> int \<Rightarrow> ('a, 'b) kstate \<Rightarrow> bool option"
    and cfg c xp and s :: "('a, 'b) kstate" and b
  assume IH: "\<And>cfg c xp s y. loop cfg c xp s = Some y \<Longrightarrow>
                y \<longrightarrow> (\<exists>ys. sending_path cfg s xp ys \<and> c \<in> set ys)"
    and eq: "(if p_rts_flags (procs s xp) AND SENDING cfg \<noteq> 0
              then case proc_addr cfg (p_sendto (procs s xp)) of None \<Rightarrow> None
                   | Some xp' \<Rightarrow> if xp' = c then Some True else loop cfg c xp' s
              else Some False) = Some b"
  show "b \<longrightarrow> (\<exists>ys. sending_path cfg s xp ys \<and> c \<in> set ys)"
  proof
    assume b
    with eq have S: "p_rts_flags (procs s xp) AND SENDING cfg \<noteq> 0"
      by (auto split: if_splits)
    with eq obtain y where y: "proc_addr cfg (p_sendto (procs s xp)) = Some y"
      by (auto split: option.splits)
    show "\<exists>ys. sending_path cfg s xp ys \<and> c \<in> set ys"
    proof (cases "y = c")
      case True
      with S y have "sending_path cfg s xp [c]" by simp
      then show ?thesis by (intro exI[of _ "[c]"]) simp
    next
      case False
      with eq S y have "loop cfg c y s = Some b" by simp
      from IH[OF this] \<open>b\<close> obtain ys where "sending_path cfg s y ys" "c \<in> set ys"
        by blast
      with S y have "sending_path cfg s xp (y # ys) \<and> c \<in> set (y # ys)" by simp
      then show ?thesis by blast
    qed
  qed
qed

lemma deadlock_loop_self:
  assumes "deadlock_loop cfg c xp s = Some b"
  shows "\<not> (p_rts_flags (procs s xp) AND SENDING cfg \<noteq> 0 \<and>
            proc_addr cfg (p_sendto (procs s xp)) = Some xp \<and> xp \<noteq> c)"
proof (rule deadlock_loop.raw_induct[where
         P = "\<lambda>cfg c xp s b. \<not> (p_rts_flags (procs s xp) AND SENDING cfg \<noteq> 0 \<and>
                proc_addr cfg (p_sendto (procs s xp)) = Some xp \<and> xp \<noteq> c)",
         OF _ assms])
  fix loop :: "kconfig \<Rightarrow> int \<Rightarrow> int \<Rightarrow> ('a, 'b) kstate \<Rightarrow> bool option"
    and cfg c xp and s :: "('a, 'b) kstate" and b
  assume IH: "\<And>cfg c xp s y. loop cfg c xp s = Some y \<Longrightarrow>
                \<not> (p_rts_flags (procs s xp) AND SENDING cfg \<noteq> 0 \<and>
                   proc_addr cfg (p_sendto (procs s xp)) = Some xp \<and> xp \<noteq> c)"
    and eq: "(if p_rts_flags (procs s xp) AND SENDING cfg \<noteq> 0
              then case proc_addr cfg (p_sendto (procs s xp)) of None \<Rightarrow> None
                   | Some xp' \<Rightarrow> if xp' = c then Some True else loop cfg c xp' s
              else Some False) = Some b"
  show "\<not> (p_rts_flags (procs s xp) AND SENDING cfg \<noteq> 0 \<and>
            proc_addr cfg (p_sendto (procs s xp)) = Some xp \<and> xp \<noteq> c)"
  proof
    assume a: "p_rts_flags (procs s xp) AND SENDING cfg \<noteq> 0 \<and>
      proc_addr cfg (p_sendto (procs s xp)) = Some xp \<and> xp \<noteq> c"
    with eq have "loop cfg c xp s = Some b" by simp
    from IH[OF this] a show False by simp
  qed
qed

text \<open>
  The loop of the deadlock check ends at a slot that is not \<open>SENDING\<close> or at the
  caller. On a cycle of blocked senders that does not pass through the caller it never
  ends: \<open>lock_send\<close> to a slot that is blocked sending to itself does not return.
\<close>

lemma lock_send_cycle_undefined:
  "proc_ptr st_self = Some 1 \<and> \<not> dst_waits cfg0 1 2 st_self \<and>
   lock_send cfg0 2 0 st_self = None"
proof -
  have "deadlock_loop cfg0 1 2 st_self = None"
  proof (cases "deadlock_loop cfg0 1 2 st_self")
    case None
    then show ?thesis .
  next
    case (Some b)
    from deadlock_loop_self[OF this] show ?thesis
      by (simp add: st_self_def upd_proc_def proc_addr_def isokprocn_def st0_def proc0_def cfg0_def)
  qed
  then show ?thesis
    by (simp add: lock_send_def mini_send_def proc_addr_def isokprocn_def dst_waits_def
          st_self_def upd_proc_def st0_def proc0_def cfg0_def)
qed

text \<open>
  Claim C9, as amended. \<open>lock_send\<close> calls \<open>mini_send\<close> with the flag \<open>NON_BLOCKING\<close>
  (a flag that is not 0). For a destination of the table that is not waiting for a
  message of the caller: whenever \<open>lock_send\<close> returns, it returns \<open>ELOCKED\<close> when
  the caller is on the chain of blocked senders of the destination and \<open>ENOTREADY\<close>
  otherwise, and the state is the one it was given, so the caller is not marked
  \<open>SENDING\<close>, not put on the caller queue of the destination and not taken from its
  ready queue. It does return when the chains of blocked senders have no cycle and
  every \<open>p_sendto\<close> of a blocked sender is a process number of the table.
\<close>

theorem lock_send_never_blocks:
  assumes "proc_ptr s = Some caller_ptr" "isokprocn cfg dst"
    and "\<not> dst_waits cfg caller_ptr dst s" "NON_BLOCKING cfg \<noteq> 0"
  shows "(\<forall>r s'. lock_send cfg dst m_ptr s = Some (r, s') \<longrightarrow>
            s' = s \<and>
            r = (if \<exists>ys. sending_path cfg s dst ys \<and> caller_ptr \<in> set ys
                 then ELOCKED else ENOTREADY)) \<and>
         (acyclic (sendto_rel cfg s) \<and> sendto_ok cfg s \<longrightarrow>
            lock_send cfg dst m_ptr s =
              Some (if \<exists>ys. sending_path cfg s dst ys \<and> caller_ptr \<in> set ys
                    then ELOCKED else ENOTREADY, s))"
proof -
  let ?path = "\<exists>ys. sending_path cfg s dst ys \<and> caller_ptr \<in> set ys"
  have ls: "lock_send cfg dst m_ptr s =
      (case deadlock_loop cfg caller_ptr dst s of
         None \<Rightarrow> None
       | Some b \<Rightarrow> Some (if b then ELOCKED else ENOTREADY, s))"
    using assms by (simp add: lock_send_def mini_send_def proc_addr_def split: option.splits)
  have pb: "?path = b" if "deadlock_loop cfg caller_ptr dst s = Some b" for b
    using that deadlock_loop_True_path[OF that] deadlock_loop_path[of cfg s dst _ caller_ptr]
    by auto
  have 1: "\<forall>r s'. lock_send cfg dst m_ptr s = Some (r, s') \<longrightarrow>
            s' = s \<and> r = (if ?path then ELOCKED else ENOTREADY)"
    unfolding ls using pb by (auto split: option.splits)
  have 2: "lock_send cfg dst m_ptr s = Some (if ?path then ELOCKED else ENOTREADY, s)"
    if a: "acyclic (sendto_rel cfg s)" and o: "sendto_ok cfg s"
  proof -
    obtain b where
      "deadlock_fuel (nat (NR_TASKS cfg + NR_PROCS cfg) - 1) cfg caller_ptr dst s = Some b"
      using deadlock_fuel_enough[OF o a assms(2) sendto_reach_card[OF o a assms(2)]] by blast
    then have b: "deadlock_loop cfg caller_ptr dst s = Some b"
      by (rule deadlock_fuel_loop)
    with pb[OF b] show ?thesis
      unfolding ls by simp
  qed
  from 1 2 show ?thesis by blast
qed

theorem lock_send_never_blocks_witness:
  "proc_ptr st0 = Some 1 \<and> isokprocn cfg0 2 \<and> \<not> dst_waits cfg0 1 2 st0 \<and>
   acyclic (sendto_rel cfg0 st0) \<and> sendto_ok cfg0 st0 \<and>
   lock_send cfg0 2 0 st0 = Some (ENOTREADY, st0)"
proof -
  have h1: "proc_ptr st0 = Some 1"
    by (simp add: st0_def)
  have h2: "isokprocn cfg0 2"
    by (simp add: isokprocn_def cfg0_def)
  have h3: "\<not> dst_waits cfg0 1 2 st0"
    by (simp add: dst_waits_def st0_def proc0_def cfg0_def)
  have h4: "NON_BLOCKING cfg0 \<noteq> 0"
    by (simp add: cfg0_def)
  have h5: "acyclic (sendto_rel cfg0 st0)"
    by (rule acyclicI_order[where f = "\<lambda>p. 0::nat"])
       (simp add: sendto_rel_def st0_def proc0_def cfg0_def)
  have h6: "sendto_ok cfg0 st0"
    by (simp add: sendto_ok_def st0_def proc0_def cfg0_def)
  have n: "\<not> (\<exists>ys. sending_path cfg0 st0 2 ys \<and> (1::int) \<in> set ys)"
  proof
    assume "\<exists>ys. sending_path cfg0 st0 2 ys \<and> (1::int) \<in> set ys"
    then obtain ys where "sending_path cfg0 st0 2 ys" "(1::int) \<in> set ys" by blast
    then show False
      by (cases ys) (simp_all add: st0_def proc0_def cfg0_def)
  qed
  from lock_send_never_blocks[OF h1 h2 h3 h4, of 0] h5 h6 n
  have "lock_send cfg0 2 0 st0 = Some (ENOTREADY, st0)"
    by simp
  with h1 h2 h3 h5 h6 show ?thesis by blast
qed

theorem lock_send_ELOCKED_counterexample:
  "\<not> dst_waits cfg0 1 2 st_lock \<and> proc_ptr st_lock = Some 1 \<and>
   lock_send cfg0 2 0 st_lock = Some (ELOCKED, st_lock) \<and>
   lock_send cfg0 2 0 st_lock \<noteq> Some (ENOTREADY, st_lock)"
  by (simp add: lock_send_def mini_send_def deadlock_loop.simps dst_waits_def st_lock_def
        upd_proc_def st0_def proc0_def cfg0_def proc_addr_def isokprocn_def)

subsection \<open>Linked lists closed by NIL_PROC\<close>

lemma nil_path_upd:
  "x \<notin> set xs \<Longrightarrow> nil_path (nxt(x := v)) h xs = nil_path nxt h xs"
proof (induction xs arbitrary: h)
  case Nil
  show ?case by simp
next
  case (Cons a xs)
  from Cons.prems have ax: "a \<noteq> x" and xs: "x \<notin> set xs" by auto
  from ax have "(nxt(x := v)) a = nxt a" by simp
  with Cons.IH[OF xs] show ?case by simp
qed

lemma nil_path_unique:
  "nil_path nxt h xs \<Longrightarrow> nil_path nxt h ys \<Longrightarrow> xs = ys"
proof (induction xs arbitrary: h ys)
  case Nil
  then show ?case by (cases ys) simp_all
next
  case (Cons x xs)
  show ?case
  proof (cases ys)
    case Nil
    with Cons.prems show ?thesis by simp
  next
    case (Cons y ys')
    with Cons.prems have "x = y" "nil_path nxt (nxt x) xs" "nil_path nxt (nxt x) ys'" by simp_all
    with Cons.IH[of "nxt x" ys'] Cons show ?thesis by simp
  qed
qed

lemma nil_path_suffix:
  "nil_path nxt h (as @ x # bs) \<Longrightarrow> nil_path nxt (Some x) (x # bs)"
  by (induction as arbitrary: h) simp_all

lemma nil_path_hd_notin:
  assumes "nil_path nxt (Some x) (x # xs)"
  shows "x \<notin> set xs"
proof
  assume "x \<in> set xs"
  then obtain as bs where xs: "xs = as @ x # bs"
    by (auto dest: split_list)
  with assms have "nil_path nxt (nxt x) (as @ x # bs)" by simp
  then have "nil_path nxt (Some x) (x # bs)" by (rule nil_path_suffix)
  with assms have "x # xs = x # bs" by (rule nil_path_unique)
  with xs show False by simp
qed

lemma nil_path_distinct:
  "nil_path nxt h xs \<Longrightarrow> distinct xs"
proof (induction xs arbitrary: h)
  case Nil
  then show ?case by simp
next
  case (Cons x xs)
  then have "nil_path nxt (Some x) (x # xs)" by simp
  then have "x \<notin> set xs" by (rule nil_path_hd_notin)
  with Cons show ?case by auto
qed

lemma nil_path_snoc:
  "nil_path nxt h xs \<Longrightarrow> xs \<noteq> [] \<Longrightarrow> rp \<notin> set xs \<Longrightarrow>
   nil_path (nxt(last xs := Some rp, rp := None)) h (xs @ [rp])"
proof (induction xs arbitrary: h)
  case Nil
  then show ?case by simp
next
  case (Cons x xs)
  from Cons.prems have hx: "h = Some x" and px: "nil_path nxt (nxt x) xs" and xr: "x \<noteq> rp"
    by auto
  show ?case
  proof (cases "xs = []")
    case True
    with px have "nxt x = None" by simp
    moreover from True have l: "last (x # xs) = x" by simp
    ultimately show ?thesis
      unfolding l hx using True xr by (simp del: fun_upd_apply add: fun_upd_same fun_upd_other)
  next
    case False
    from Cons.prems have "x \<notin> set xs"
      using nil_path_hd_notin[of nxt x xs] by simp
    with False have xl: "x \<noteq> last xs" by auto
    from px False Cons.prems
    have "nil_path (nxt(last xs := Some rp, rp := None)) (nxt x) (xs @ [rp])"
      by (intro Cons.IH) auto
    moreover have "(nxt(last xs := Some rp, rp := None)) x = nxt x"
      using xl xr by simp
    moreover have l: "last (x # xs) = last xs"
      using False by simp
    ultimately show ?thesis
      unfolding l hx by (simp del: fun_upd_apply add: fun_upd_same fun_upd_other)
  qed
qed

lemma nil_path_remove:
  "nil_path nxt h (pre @ rp # post) \<Longrightarrow> pre \<noteq> [] \<Longrightarrow>
   nil_path (nxt(last pre := nxt rp)) h (pre @ post)"
proof (induction pre arbitrary: h)
  case Nil
  then show ?case by simp
next
  case (Cons x pre)
  from Cons.prems have d: "distinct (x # pre @ rp # post)"
    using nil_path_distinct[of nxt h "(x # pre) @ rp # post"] by simp
  from Cons.prems have hx: "h = Some x" and px: "nil_path nxt (nxt x) (pre @ rp # post)"
    by auto
  show ?case
  proof (cases "pre = []")
    case True
    with px have "nxt x = Some rp" and "nil_path nxt (nxt rp) post" by auto
    moreover from d True have "x \<notin> set post" by simp
    ultimately have "nil_path (nxt(x := nxt rp)) (nxt rp) post"
      by (simp add: nil_path_upd)
    moreover from True have l: "last (x # pre) = x" by simp
    ultimately show ?thesis
      unfolding l hx using True by (simp del: fun_upd_apply add: fun_upd_same fun_upd_other)
  next
    case False
    with d have xl: "x \<noteq> last pre" by auto
    from px False have "nil_path (nxt(last pre := nxt rp)) (nxt x) (pre @ post)"
      by (intro Cons.IH) auto
    moreover have "(nxt(last pre := nxt rp)) x = nxt x"
      using xl by simp
    moreover have l: "last (x # pre) = last pre"
      using False by simp
    ultimately show ?thesis
      unfolding l hx by (simp del: fun_upd_apply add: fun_upd_same fun_upd_other)
  qed
qed

lemma nil_path_last:
  "nil_path nxt h xs \<Longrightarrow> xs \<noteq> [] \<Longrightarrow> nxt (last xs) = None"
  by (induction xs arbitrary: h) (auto split: if_splits)

subsection \<open>The ready queues as lists\<close>

lemma upd_proc_fields [simp]:
  "rdy_head (upd_proc n f s) = rdy_head s" "rdy_tail (upd_proc n f s) = rdy_tail s"
  "proc_ptr (upd_proc n f s) = proc_ptr s" "next_ptr (upd_proc n f s) = next_ptr s"
  "bill_ptr (upd_proc n f s) = bill_ptr s" "memory (upd_proc n f s) = memory s"
  "notify_buffer (upd_proc n f s) = notify_buffer s"
  "notify_bitmap (upd_proc n f s) = notify_bitmap s"
  "k_reenter (upd_proc n f s) = k_reenter s" "uptime (upd_proc n f s) = uptime s"
  "stack_mess (upd_proc n f s) = stack_mess s"
  by (simp_all add: upd_proc_def)

lemma procs_upd_proc:
  "procs (upd_proc n f s) x = (if x = n then f (procs s n) else procs s x)"
  by (simp add: upd_proc_def)

lemma nextready_of_upd_proc:
  "nextready_of (upd_proc n f s) = (nextready_of s)(n := p_nextready (f (procs s n)))"
  by (rule ext) (simp add: nextready_of_def upd_proc_def)

lemma nextready_of_fields [simp]:
  "nextready_of (s\<lparr>rdy_head := h\<rparr>) = nextready_of s"
  "nextready_of (s\<lparr>rdy_tail := t\<rparr>) = nextready_of s"
  "nextready_of (s\<lparr>next_ptr := n\<rparr>) = nextready_of s"
  "nextready_of (s\<lparr>bill_ptr := b\<rparr>) = nextready_of s"
  "nextready_of (s\<lparr>memory := m\<rparr>) = nextready_of s"
  by (rule ext, simp add: nextready_of_def)+

lemma pick_proc_procs [simp]: "procs (pick_proc cfg s) = procs s"
  by (subst pick_proc_frame_eq) simp

lemma pick_proc_rdy_head [simp]: "rdy_head (pick_proc cfg s) = rdy_head s"
  by (subst pick_proc_frame_eq) simp

lemma pick_proc_rdy_tail [simp]: "rdy_tail (pick_proc cfg s) = rdy_tail s"
  by (subst pick_proc_frame_eq) simp

lemma pick_proc_other [simp]:
  "memory (pick_proc cfg s) = memory s" "notify_buffer (pick_proc cfg s) = notify_buffer s"
  "notify_bitmap (pick_proc cfg s) = notify_bitmap s" "proc_ptr (pick_proc cfg s) = proc_ptr s"
  "k_reenter (pick_proc cfg s) = k_reenter s" "uptime (pick_proc cfg s) = uptime s"
  "stack_mess (pick_proc cfg s) = stack_mess s"
  by (subst pick_proc_frame_eq, simp)+

lemma nextready_of_pick_proc [simp]: "nextready_of (pick_proc cfg s) = nextready_of s"
  by (rule ext) (simp add: nextready_of_def)

lemma ready_queue_pick_proc [simp]:
  "ready_queue (pick_proc cfg s) q xs = ready_queue s q xs"
  by (simp add: ready_queue_def)

lemma ready_queue_distinct: "ready_queue s q xs \<Longrightarrow> distinct xs"
  by (auto simp: ready_queue_def dest: nil_path_distinct)

lemma ready_queue_unique: "ready_queue s q xs \<Longrightarrow> ready_queue s q ys \<Longrightarrow> xs = ys"
  by (auto simp: ready_queue_def dest: nil_path_unique)

lemma ready_queue_head:
  "ready_queue s q xs \<Longrightarrow> rdy_head s q = (case xs of [] \<Rightarrow> None | x # _ \<Rightarrow> Some x)"
  by (cases xs) (auto simp: ready_queue_def)

text \<open>What \<open>ready\<close> does to the queue of the priority of \<open>rp\<close> and to the other
  queues.\<close>

lemma ready_queue_ready:
  assumes q: "queue_index cfg (p_priority (procs s rp)) = Some q"
    and xs: "ready_queue s q xs" and rp: "rp \<notin> set xs"
  shows "\<exists>s'. ready cfg rp s = Some s' \<and>
           ready_queue s' q (if xs = [] then [rp]
                             else if s_flags (p_priv (procs s rp)) AND RDY_Q_HEAD cfg \<noteq> 0
                             then rp # xs else xs @ [rp]) \<and>
           (\<forall>q' zs. q' \<noteq> q \<and> ready_queue s q' zs \<and> rp \<notin> set zs \<and> set zs \<inter> set xs = {}
                \<longrightarrow> ready_queue s' q' zs) \<and>
           (\<forall>x. (procs s' x)\<lparr>p_nextready := p_nextready (procs s x)\<rparr> = procs s x) \<and>
           (\<forall>q'. q' \<noteq> q \<longrightarrow> rdy_head s' q' = rdy_head s q' \<and> rdy_tail s' q' = rdy_tail s q') \<and>
           memory s' = memory s \<and> notify_buffer s' = notify_buffer s \<and>
           notify_bitmap s' = notify_bitmap s \<and> proc_ptr s' = proc_ptr s"
proof (cases "xs = []")
  case True
  with xs have h: "rdy_head s q = None" by (simp add: ready_queue_def)
  let ?s = "upd_proc rp (\<lambda>p. p\<lparr>p_nextready := None\<rparr>)
             (s\<lparr>rdy_tail := (rdy_tail s)(q := Some rp), rdy_head := (rdy_head s)(q := Some rp)\<rparr>)"
  have r: "ready cfg rp s = Some (pick_proc cfg ?s)"
    using q h by (simp add: ready_def)
  have n: "nextready_of ?s = (nextready_of s)(rp := None)"
    by (simp add: nextready_of_upd_proc)
  have 1: "ready_queue ?s q [rp]"
    by (simp add: ready_queue_def nextready_of_upd_proc fun_upd_same fun_upd_other del: fun_upd_apply)
  have 2: "ready_queue ?s q' zs" if "q' \<noteq> q" "ready_queue s q' zs" "rp \<notin> set zs" for q' zs
    using that by (simp add: ready_queue_def nextready_of_upd_proc nil_path_upd fun_upd_same fun_upd_other del: fun_upd_apply)
  have 3: "(procs ?s x)\<lparr>p_nextready := p_nextready (procs s x)\<rparr> = procs s x" for x
    by (simp add: procs_upd_proc)
  show ?thesis
    unfolding r using True 1 2 3
    by (intro exI[of _ "pick_proc cfg ?s"]) simp
next
  case False
  with xs have h: "rdy_head s q = Some (hd xs)" and t: "rdy_tail s q = Some (last xs)"
    and p: "nil_path (nextready_of s) (rdy_head s q) xs"
    by (cases xs; simp add: ready_queue_def)+
  show ?thesis
  proof (cases "s_flags (p_priv (procs s rp)) AND RDY_Q_HEAD cfg \<noteq> 0")
    case True
    let ?s = "(upd_proc rp (\<lambda>p. p\<lparr>p_nextready := rdy_head s q\<rparr>) s)
                \<lparr>rdy_head := (rdy_head s)(q := Some rp)\<rparr>"
    have r: "ready cfg rp s = Some (pick_proc cfg ?s)"
      using q h True by (simp add: ready_def)
    have n: "nextready_of ?s = (nextready_of s)(rp := rdy_head s q)"
      by (simp add: nextready_of_upd_proc)
    have 1: "ready_queue ?s q (rp # xs)"
      using p rp t False by (simp add: ready_queue_def nextready_of_upd_proc nil_path_upd fun_upd_same fun_upd_other del: fun_upd_apply)
    have 2: "ready_queue ?s q' zs" if "q' \<noteq> q" "ready_queue s q' zs" "rp \<notin> set zs" for q' zs
      using that by (simp add: ready_queue_def nextready_of_upd_proc nil_path_upd fun_upd_same fun_upd_other del: fun_upd_apply)
    have 3: "(procs ?s x)\<lparr>p_nextready := p_nextready (procs s x)\<rparr> = procs s x" for x
      by (simp add: procs_upd_proc)
    show ?thesis
      unfolding r using False True 1 2 3
      by (intro exI[of _ "pick_proc cfg ?s"]) simp
  next
    case F: False
    let ?s = "upd_proc rp (\<lambda>p. p\<lparr>p_nextready := None\<rparr>)
               ((upd_proc (last xs) (\<lambda>p. p\<lparr>p_nextready := Some rp\<rparr>) s)
                  \<lparr>rdy_tail := (rdy_tail s)(q := Some rp)\<rparr>)"
    have r: "ready cfg rp s = Some (pick_proc cfg ?s)"
      using q h t F by (simp add: ready_def)
    have n: "nextready_of ?s = (nextready_of s)(last xs := Some rp, rp := None)"
      by (simp add: nextready_of_upd_proc)
    have 1: "ready_queue ?s q (xs @ [rp])"
      using nil_path_snoc[OF p False rp] by (simp add: ready_queue_def nextready_of_upd_proc fun_upd_same fun_upd_other del: fun_upd_apply)
    have 2: "ready_queue ?s q' zs"
      if "q' \<noteq> q" "ready_queue s q' zs" "rp \<notin> set zs" "set zs \<inter> set xs = {}" for q' zs
    proof -
      from that False have "last xs \<notin> set zs" by auto
      with that show ?thesis
        by (simp add: ready_queue_def nextready_of_upd_proc nil_path_upd fun_upd_same fun_upd_other del: fun_upd_apply)
    qed
    have 3: "(procs ?s x)\<lparr>p_nextready := p_nextready (procs s x)\<rparr> = procs s x" for x
      by (simp add: procs_upd_proc)
    show ?thesis
      unfolding r using False F 1 2 3
      by (intro exI[of _ "pick_proc cfg ?s"]) simp
  qed
qed

subsection \<open>The rendezvous\<close>

lemma flag_clear_other:
  fixes f r s :: int
  assumes "f AND (r OR s) = r" "r AND s = 0"
  shows "f AND s = 0"
proof (rule bit_eqI)
  fix n
  from assms have "bit (f AND (r OR s)) n = bit r n" "\<not> bit (r AND s) n"
    by simp_all
  then show "bit (f AND s) n = bit (0::int) n"
    by (auto simp: bit_and_iff bit_or_iff)
qed

lemma dst_waits_not_sending:
  "dst_waits cfg caller_ptr dst s \<Longrightarrow> RECEIVING cfg AND SENDING cfg = 0 \<Longrightarrow>
   p_rts_flags (procs s dst) AND SENDING cfg = 0"
  unfolding dst_waits_def by (blast intro: flag_clear_other)

lemma deadlock_loop_not_sending:
  "p_rts_flags (procs s xp) AND SENDING cfg = 0 \<Longrightarrow> deadlock_loop cfg c xp s = Some False"
  by (subst deadlock_loop.simps) simp

lemma ready_queue_cong:
  "nextready_of s' = nextready_of s \<Longrightarrow> rdy_head s' = rdy_head s \<Longrightarrow>
   rdy_tail s' = rdy_tail s \<Longrightarrow> ready_queue s' q xs = ready_queue s q xs"
  by (simp add: ready_queue_def)

lemma CopyMess_fields [simp]:
  "procs (CopyMess n sp sm dp dm s) = procs s"
  "rdy_head (CopyMess n sp sm dp dm s) = rdy_head s"
  "rdy_tail (CopyMess n sp sm dp dm s) = rdy_tail s"
  "proc_ptr (CopyMess n sp sm dp dm s) = proc_ptr s"
  "notify_buffer (CopyMess n sp sm dp dm s) = notify_buffer s"
  "notify_bitmap (CopyMess n sp sm dp dm s) = notify_bitmap s"
  "memory (CopyMess n sp sm dp dm s) dp dm = memory s sp sm"
  "nextready_of (CopyMess n sp sm dp dm s) = nextready_of s"
  by (simp_all add: CopyMess_def put_mess_def nextready_of_def)

lemma proc_upto_nextready:
  assumes "p\<lparr>p_nextready := a\<rparr> = p'"
  shows "p_rts_flags p = p_rts_flags p'" "p_sendto p = p_sendto p'"
    "p_caller_q p = p_caller_q p'" "p_q_link p = p_q_link p'"
    "p_priority p = p_priority p'" "p_max_priority p = p_max_priority p'"
    "p_full_quantums p = p_full_quantums p'" "p_sched_ticks p = p_sched_ticks p'"
    "p_quantum_size p = p_quantum_size p'" "p_priv p = p_priv p'"
    "p_getfrom p = p_getfrom p'" "p_messbuf p = p_messbuf p'" "p_nr p = p_nr p'"
    "p_ntf_q p = p_ntf_q p'"
proof -
  from assms have "p' = p\<lparr>p_nextready := a\<rparr>" by simp
  then show "p_rts_flags p = p_rts_flags p'" "p_sendto p = p_sendto p'"
    "p_caller_q p = p_caller_q p'" "p_q_link p = p_q_link p'"
    "p_priority p = p_priority p'" "p_max_priority p = p_max_priority p'"
    "p_full_quantums p = p_full_quantums p'" "p_sched_ticks p = p_sched_ticks p'"
    "p_quantum_size p = p_quantum_size p'" "p_priv p = p_priv p'"
    "p_getfrom p = p_getfrom p'" "p_messbuf p = p_messbuf p'" "p_nr p = p_nr p'"
    "p_ntf_q p = p_ntf_q p'"
    by simp_all
qed

text \<open>
  Claim C2. Let the destination wait for a message of the caller
  (\<open>rts_flags & (RECEIVING | SENDING) == RECEIVING\<close> and \<open>getfrom\<close> is \<open>ANY\<close> or the
  number of the caller), with \<open>RECEIVING\<close> and \<open>SENDING\<close> distinct bits and the caller
  another slot than the destination. Then \<open>mini_send\<close> returns \<open>OK\<close>; the buffer of the
  destination holds the message of the caller; \<open>RECEIVING\<close> is cleared in the flags of
  the destination; \<open>ready\<close> is applied to the destination exactly when its flags have
  become 0 (the destination then joins the ready queue of its priority, and the other
  queues keep their members); and the caller is not blocked: its flags and its
  \<open>p_sendto\<close> are unchanged, and so are the caller queue and the queue link of every
  slot.
\<close>

theorem mini_send_rendezvous:
  assumes dst: "isokprocn cfg dst"
    and waits: "dst_waits cfg caller_ptr dst s"
    and bits: "RECEIVING cfg AND SENDING cfg = 0"
    and neq: "caller_ptr \<noteq> dst"
    and wake: "p_rts_flags (procs s dst) AND NOT (RECEIVING cfg) = 0 \<longrightarrow>
                 queue_index cfg (p_priority (procs s dst)) = Some q \<and>
                 ready_queue s q xs \<and> dst \<notin> set xs"
  shows "\<exists>s'. mini_send cfg caller_ptr dst m_ptr flags s = Some (OK, s') \<and>
           memory s' dst (p_messbuf (procs s dst)) = memory s caller_ptr m_ptr \<and>
           p_rts_flags (procs s' dst) = p_rts_flags (procs s dst) AND NOT (RECEIVING cfg) \<and>
           (let s1 = upd_proc dst (\<lambda>p. p\<lparr>p_rts_flags := p_rts_flags p AND NOT (RECEIVING cfg)\<rparr>)
                       (CopyMess (p_nr (procs s caller_ptr)) caller_ptr m_ptr
                          dst (p_messbuf (procs s dst)) s)
            in if p_rts_flags (procs s dst) AND NOT (RECEIVING cfg) = 0
               then ready cfg dst s1 = Some s' \<and>
                    ready_queue s' q
                      (if xs = [] then [dst]
                       else if s_flags (p_priv (procs s dst)) AND RDY_Q_HEAD cfg \<noteq> 0
                       then dst # xs else xs @ [dst]) \<and>
                    (\<forall>q' zs. q' \<noteq> q \<and> ready_queue s q' zs \<and> dst \<notin> set zs \<and>
                        set zs \<inter> set xs = {} \<longrightarrow> ready_queue s' q' zs)
               else s' = s1 \<and> (\<forall>q' zs. ready_queue s' q' zs = ready_queue s q' zs)) \<and>
           p_rts_flags (procs s' caller_ptr) = p_rts_flags (procs s caller_ptr) \<and>
           p_sendto (procs s' caller_ptr) = p_sendto (procs s caller_ptr) \<and>
           (\<forall>x. p_caller_q (procs s' x) = p_caller_q (procs s x) \<and>
                p_q_link (procs s' x) = p_q_link (procs s x))"
proof -
  let ?c = "CopyMess (p_nr (procs s caller_ptr)) caller_ptr m_ptr dst (p_messbuf (procs s dst)) s"
  let ?s1 = "upd_proc dst (\<lambda>p. p\<lparr>p_rts_flags := p_rts_flags p AND NOT (RECEIVING cfg)\<rparr>) ?c"
  have dl: "deadlock_loop cfg caller_ptr dst s = Some False"
    using waits bits by (intro deadlock_loop_not_sending dst_waits_not_sending)
  have ms: "mini_send cfg caller_ptr dst m_ptr flags s =
              (if p_rts_flags (procs s dst) AND NOT (RECEIVING cfg) = 0
               then map_option (Pair OK) (ready cfg dst ?s1) else Some (OK, ?s1))"
    using dst waits dl
    by (simp add: mini_send_def proc_addr_def clear_flag_ready_def Let_def procs_upd_proc
          map_option_case split: option.splits)
  have f1: "p_rts_flags (procs ?s1 x) =
              (if x = dst then p_rts_flags (procs s dst) AND NOT (RECEIVING cfg)
               else p_rts_flags (procs s x))" for x
    by (simp add: procs_upd_proc)
  have f2: "p_sendto (procs ?s1 x) = p_sendto (procs s x)"
    "p_caller_q (procs ?s1 x) = p_caller_q (procs s x)"
    "p_q_link (procs ?s1 x) = p_q_link (procs s x)"
    "p_priority (procs ?s1 x) = p_priority (procs s x)"
    "s_flags (p_priv (procs ?s1 x)) = s_flags (p_priv (procs s x))" for x
    by (simp_all add: procs_upd_proc)
  have f3: "memory ?s1 dst (p_messbuf (procs s dst)) = memory s caller_ptr m_ptr"
    by simp
  have rq: "ready_queue ?s1 q' zs = ready_queue s q' zs" for q' zs
  proof (intro ready_queue_cong)
    show "nextready_of ?s1 = nextready_of s"
      by (rule ext) (simp add: nextready_of_def procs_upd_proc)
  qed simp_all
  show ?thesis
  proof (cases "p_rts_flags (procs s dst) AND NOT (RECEIVING cfg) = 0")
    case False
    have "mini_send cfg caller_ptr dst m_ptr flags s = Some (OK, ?s1)"
      unfolding ms using False by simp
    moreover have "memory ?s1 dst (p_messbuf (procs s dst)) = memory s caller_ptr m_ptr"
      by (rule f3)
    moreover have "p_rts_flags (procs ?s1 dst) = p_rts_flags (procs s dst) AND NOT (RECEIVING cfg)"
      by (simp add: f1)
    moreover have "p_rts_flags (procs ?s1 caller_ptr) = p_rts_flags (procs s caller_ptr)"
      using neq by (simp add: f1)
    ultimately show ?thesis
      using False f2 rq by (intro exI[of _ ?s1]) (simp only: Let_def if_False simp_thms)
  next
    case True
    with wake have q: "queue_index cfg (p_priority (procs ?s1 dst)) = Some q"
      and xs: "ready_queue ?s1 q xs" and d: "dst \<notin> set xs"
      by (simp_all add: f2 rq)
    from ready_queue_ready[OF q xs d] obtain s' where
      r: "ready cfg dst ?s1 = Some s'"
      and r1: "ready_queue s' q (if xs = [] then [dst]
                 else if s_flags (p_priv (procs ?s1 dst)) AND RDY_Q_HEAD cfg \<noteq> 0
                 then dst # xs else xs @ [dst])"
      and r2: "\<forall>q' zs. q' \<noteq> q \<and> ready_queue ?s1 q' zs \<and> dst \<notin> set zs \<and> set zs \<inter> set xs = {}
                 \<longrightarrow> ready_queue s' q' zs"
      and r3: "\<forall>x. (procs s' x)\<lparr>p_nextready := p_nextready (procs ?s1 x)\<rparr> = procs ?s1 x"
      and r4: "memory s' = memory ?s1"
      by blast
    note g = proc_upto_nextready[OF r3[rule_format]]
    have "mini_send cfg caller_ptr dst m_ptr flags s = Some (OK, s')"
      unfolding ms using True r by simp
    moreover have "memory s' dst (p_messbuf (procs s dst)) = memory s caller_ptr m_ptr"
      unfolding r4 by (rule f3)
    moreover have "p_rts_flags (procs s' dst) = p_rts_flags (procs s dst) AND NOT (RECEIVING cfg)"
      by (simp add: g f1)
    moreover have "p_rts_flags (procs s' caller_ptr) = p_rts_flags (procs s caller_ptr)"
      using neq by (simp add: g f1)
    moreover have "p_sendto (procs s' caller_ptr) = p_sendto (procs s caller_ptr)"
      by (simp add: g f2)
    moreover have "\<forall>x. p_caller_q (procs s' x) = p_caller_q (procs s x) \<and>
                p_q_link (procs s' x) = p_q_link (procs s x)"
      by (simp add: g f2)
    moreover have "ready_queue s' q (if xs = [] then [dst]
                 else if s_flags (p_priv (procs s dst)) AND RDY_Q_HEAD cfg \<noteq> 0
                 then dst # xs else xs @ [dst])"
      using r1 by (simp only: f2)
    moreover have "\<forall>q' zs. q' \<noteq> q \<and> ready_queue s q' zs \<and> dst \<notin> set zs \<and> set zs \<inter> set xs = {}
                 \<longrightarrow> ready_queue s' q' zs"
      using r2 by (simp only: rq)
    ultimately show ?thesis
      using True r by (intro exI[of _ s']) (simp only: Let_def if_True simp_thms)
  qed
qed

theorem mini_send_rendezvous_witness:
  "isokprocn cfg0 3 \<and> dst_waits cfg0 1 3 st_rdv \<and> ready_queue st_rdv 7 [1] \<and>
   (\<exists>s'. mini_send cfg0 1 3 32 0 st_rdv = Some (OK, s') \<and>
         memory s' 3 64 = mess0\<lparr>m_type := 42, m_payload := [1, 2, 3]\<rparr> \<and>
         p_rts_flags (procs s' 3) = 0 \<and> ready_queue s' 7 [1, 3] \<and>
         p_rts_flags (procs s' 1) = 0)"
proof -
  have h1: "isokprocn cfg0 3"
    by (simp add: isokprocn_def cfg0_def)
  have h2: "dst_waits cfg0 1 3 st_rdv"
    by (simp add: dst_waits_def st_rdv_def procs_upd_proc cfg0_def)
  have h3: "RECEIVING cfg0 AND SENDING cfg0 = 0"
    by (simp add: cfg0_def)
  have h4: "(1::int) \<noteq> 3"
    by simp
  have e: "p_rts_flags (procs st_rdv 3) AND NOT (RECEIVING cfg0) = 0"
    "s_flags (p_priv (procs st_rdv 3)) AND RDY_Q_HEAD cfg0 = 0"
    "p_messbuf (procs st_rdv 3) = 64" "p_rts_flags (procs st_rdv 1) = 0"
    "memory st_rdv 1 32 = mess0\<lparr>m_type := 42, m_payload := [1, 2, 3]\<rparr>"
    by (simp_all add: st_rdv_def procs_upd_proc cfg0_def st0_def proc0_def priv0_def)
  have h6: "ready_queue st_rdv 7 [1]"
    by (simp add: ready_queue_def nextready_of_def st_rdv_def procs_upd_proc st0_def proc0_def)
  have h5: "p_rts_flags (procs st_rdv 3) AND NOT (RECEIVING cfg0) = 0 \<longrightarrow>
              queue_index cfg0 (p_priority (procs st_rdv 3)) = Some 7 \<and>
              ready_queue st_rdv 7 [1] \<and> (3::int) \<notin> set [1]"
    using h6 by (simp add: queue_index_def st_rdv_def procs_upd_proc cfg0_def st0_def proc0_def)
  from mini_send_rendezvous[OF h1 h2 h3 h4 h5, of 32 0]
  obtain s' where "mini_send cfg0 1 3 32 0 st_rdv = Some (OK, s')"
    "memory s' 3 64 = mess0\<lparr>m_type := 42, m_payload := [1, 2, 3]\<rparr>"
    "p_rts_flags (procs s' 3) = 0" "ready_queue s' 7 [1, 3]" "p_rts_flags (procs s' 1) = 0"
    unfolding Let_def e by auto
  with h1 h2 h6 show ?thesis by blast
qed

section \<open>Properties of sys_call\<close>

lemma mini_send_results:
  "mini_send cfg c dst m flags s = Some (r, s') \<Longrightarrow> r = OK \<or> r = ELOCKED \<or> r = ENOTREADY"
  by (auto simp: mini_send_def bind_eq_Some_conv Let_def split: if_splits)

lemma receive_block_results:
  "receive_block cfg c src m flags s = Some (r, s') \<Longrightarrow> r = OK \<or> r = ENOTREADY"
  by (auto simp: receive_block_def bind_eq_Some_conv Let_def split: if_splits)

lemma mini_receive_results:
  "mini_receive cfg c src m flags s = Some (r, s') \<Longrightarrow> r = OK \<or> r = ENOTREADY"
  by (auto simp: mini_receive_def bind_eq_Some_conv dest: receive_block_results
        split: if_splits option.splits)

lemma mini_alert_results:
  "mini_alert cfg c dst s = Some (r, s') \<Longrightarrow> r = OK"
  by (auto simp: mini_alert_def bind_eq_Some_conv Let_def split: if_splits prod.splits)

lemma notify_append_results:
  "notify_append cfg src m l s = (r, s') \<Longrightarrow> r = OK \<or> r = ENOSPC"
  by (auto simp: notify_append_def Let_def split: option.splits prod.splits)

lemma mini_notify_results:
  assumes "mini_notify cfg c dst m s = Some (r, s')"
  shows "r = OK \<or> r = ENOSPC"
proof -
  from assms obtain y where y: "proc_addr cfg dst = Some y"
    by (auto simp: mini_notify_def bind_eq_Some_conv)
  show ?thesis
  proof (cases "dst_waits cfg c y s")
    case True
    with assms y show ?thesis
      by (auto simp: mini_notify_def Let_def bind_eq_Some_conv)
  next
    case False
    with assms y obtain rr where
      "(case rr of Inl s' \<Rightarrow> Some (OK, s')
        | Inr l \<Rightarrow> Some (notify_append cfg (p_nr (procs s c)) (memory s c m) l s)) = Some (r, s')"
      by (auto simp: mini_notify_def bind_eq_Some_conv split: if_splits)
    then show ?thesis
      by (cases rr) (auto dest: notify_append_results)
  qed
qed

lemma dispatch_results:
  assumes "dispatch cfg c function flags src_dst m s = Some (r, s')"
  shows "r = OK \<or> r = ELOCKED \<or> r = ENOTREADY \<or> r = ENOSPC \<or> (r = EBADCALL \<and> s' = s)"
  using assms
  by (auto simp: dispatch_def bind_eq_Some_conv
        dest: mini_send_results mini_receive_results mini_alert_results mini_notify_results
        split: if_splits)

lemma check_dst_cases:
  "check_dst cfg c src_dst s =
     (case nr_to_id cfg s src_dst of
        None \<Rightarrow> None
      | Some i \<Rightarrow>
          (case get_sys_bit (s_send_mask (p_priv (procs s c))) i of
             None \<Rightarrow> None
           | Some allowed \<Rightarrow>
               if \<not> allowed then Some (Some ECALLDENIED)
               else (case isemptyn cfg s src_dst of
                       None \<Rightarrow> None
                     | Some dead \<Rightarrow> Some (if dead then Some EDEADDST else None))))"
  by (simp add: check_dst_def split: option.splits)

lemma sys_call_checks:
  assumes caller: "proc_ptr s = Some caller_ptr"
    and mask: "0 \<le> SYSCALL_FUNC cfg"
    and f: "function = call_nr AND SYSCALL_FUNC cfg"
  shows "sys_call cfg call_nr src_dst m_ptr s =
      (if s_call_mask (p_priv (procs s caller_ptr)) AND push_bit (nat function) 1 = 0 \<or>
          (iskerneln cfg src_dst \<and> function \<noteq> SENDREC) then Some (ECALLDENIED, s)
       else if \<not> (isokprocn cfg src_dst \<or> src_dst = ANY cfg \<or> function = ECHO cfg)
       then Some (EBADSRCDST, s)
       else if function AND SENDREC \<noteq> 0 \<and> bad_buffer cfg (procs s caller_ptr) m_ptr
       then Some (EFAULT, s)
       else Option.bind
              (if function AND SEND \<noteq> 0 then check_dst cfg caller_ptr src_dst s else Some None)
              (\<lambda>denied. case denied of
                   Some e \<Rightarrow> Some (e, s)
                 | None \<Rightarrow> dispatch cfg caller_ptr function (call_nr AND SYSCALL_FLAGS cfg)
                            src_dst m_ptr s))"
proof -
  have nonneg: "\<not> function < 0"
    using mask by (simp add: f)
  show ?thesis
    using caller nonneg unfolding sys_call_def f[symmetric] Let_def
    by (simp split del: if_split cong: if_cong)
qed

lemma sys_call_error_state:
  assumes caller: "proc_ptr s = Some caller_ptr"
    and mask: "0 \<le> SYSCALL_FUNC cfg"
    and r: "sys_call cfg call_nr src_dst m_ptr s = Some (r, s')"
    and e: "r = ECALLDENIED \<or> r = EBADSRCDST \<or> r = EFAULT \<or> r = EDEADDST \<or> r = EBADCALL"
  shows "s' = s"
proof -
  let ?f = "call_nr AND SYSCALL_FUNC cfg"
  note sc = sys_call_checks[OF caller mask refl, of call_nr src_dst m_ptr]
  let ?denied = "s_call_mask (p_priv (procs s caller_ptr)) AND push_bit (nat ?f) 1 = 0 \<or>
       (iskerneln cfg src_dst \<and> ?f \<noteq> SENDREC)"
  let ?ok = "isokprocn cfg src_dst \<or> src_dst = ANY cfg \<or> ?f = ECHO cfg"
  let ?fault = "?f AND SENDREC \<noteq> 0 \<and> bad_buffer cfg (procs s caller_ptr) m_ptr"
  show ?thesis
  proof (cases "?denied \<or> \<not> ?ok \<or> ?fault")
    case True
    with r show ?thesis
      unfolding sc by (auto split: if_splits)
  next
    case False
    then have nd: "\<not> ?denied" and nok: "\<not> \<not> ?ok" and nf: "\<not> ?fault"
      by blast+
    have if3: "(if a then x else if b then y else if c then z else w) = w"
      if "\<not> a" "\<not> b" "\<not> c" for a b c and x y z w :: "(status \<times> ('a, 'b) kstate) option"
      using that by simp
    have "sys_call cfg call_nr src_dst m_ptr s =
        Option.bind
          (if ?f AND SEND \<noteq> 0 then check_dst cfg caller_ptr src_dst s else Some None)
          (\<lambda>denied. case denied of
               Some e \<Rightarrow> Some (e, s)
             | None \<Rightarrow> dispatch cfg caller_ptr ?f (call_nr AND SYSCALL_FLAGS cfg)
                        src_dst m_ptr s)"
      unfolding sc by (rule if3[OF nd nok nf])
    with r have "Option.bind
          (if ?f AND SEND \<noteq> 0 then check_dst cfg caller_ptr src_dst s else Some None)
          (\<lambda>denied. case denied of
               Some e \<Rightarrow> Some (e, s)
             | None \<Rightarrow> dispatch cfg caller_ptr ?f (call_nr AND SYSCALL_FLAGS cfg)
                        src_dst m_ptr s) = Some (r, s')"
      by simp
    then obtain d where
      d: "(case d of Some e \<Rightarrow> Some (e, s)
           | None \<Rightarrow> dispatch cfg caller_ptr ?f (call_nr AND SYSCALL_FLAGS cfg) src_dst m_ptr s)
          = Some (r, s')"
      unfolding bind_eq_Some_conv by blast
    show ?thesis
    proof (cases d)
      case None
      with d have "dispatch cfg caller_ptr ?f (call_nr AND SYSCALL_FLAGS cfg) src_dst m_ptr s
                     = Some (r, s')"
        by simp
      from dispatch_results[OF this] e show ?thesis by auto
    next
      case (Some e)
      with d show ?thesis by simp
    qed
  qed
qed

text \<open>
  The checks of \<open>sys_call\<close> run in the order: privilege (\<open>ECALLDENIED\<close>), end point
  (\<open>EBADSRCDST\<close>, unless \<open>src_dst\<close> is a process number of the table, or \<open>ANY\<close>, or
  the function is \<open>ECHO\<close>), message buffer (\<open>EFAULT\<close>, only when
  \<open>function & SENDREC\<close> is set), then, only when \<open>function & SEND\<close> is set, the send
  mask (\<open>ECALLDENIED\<close>) and the liveness of the destination (\<open>EDEADDST\<close>); a call that
  passes them with a function that is none of the six known ones fails with
  \<open>EBADCALL\<close>. Each of these failures returns the state it was given. The send mask
  and the liveness are read in the slot of \<open>src_dst\<close>: these three results hold for a
  \<open>src_dst\<close> that names a slot of the table.
\<close>

lemma sys_call_validation:
  assumes caller: "proc_ptr s = Some caller_ptr"
    and mask: "0 \<le> SYSCALL_FUNC cfg"
    and f: "function = call_nr AND SYSCALL_FUNC cfg"
  shows
   "(s_call_mask (p_priv (procs s caller_ptr)) AND push_bit (nat function) 1 = 0 \<or>
       (iskerneln cfg src_dst \<and> function \<noteq> SENDREC)
     \<longrightarrow> sys_call cfg call_nr src_dst m_ptr s = Some (ECALLDENIED, s)) \<and>
    (\<not> (s_call_mask (p_priv (procs s caller_ptr)) AND push_bit (nat function) 1 = 0 \<or>
         (iskerneln cfg src_dst \<and> function \<noteq> SENDREC)) \<longrightarrow>
      (\<not> (isokprocn cfg src_dst \<or> src_dst = ANY cfg \<or> function = ECHO cfg)
        \<longrightarrow> sys_call cfg call_nr src_dst m_ptr s = Some (EBADSRCDST, s)) \<and>
      ((isokprocn cfg src_dst \<or> src_dst = ANY cfg \<or> function = ECHO cfg) \<longrightarrow>
        (function AND SENDREC \<noteq> 0 \<and> bad_buffer cfg (procs s caller_ptr) m_ptr
          \<longrightarrow> sys_call cfg call_nr src_dst m_ptr s = Some (EFAULT, s)) \<and>
        (\<not> (function AND SENDREC \<noteq> 0 \<and> bad_buffer cfg (procs s caller_ptr) m_ptr) \<longrightarrow>
          (\<forall>i. function AND SEND \<noteq> 0 \<and> nr_to_id cfg s src_dst = Some i \<and>
                get_sys_bit (s_send_mask (p_priv (procs s caller_ptr))) i = Some False
            \<longrightarrow> sys_call cfg call_nr src_dst m_ptr s = Some (ECALLDENIED, s)) \<and>
          (\<forall>i. function AND SEND \<noteq> 0 \<and> nr_to_id cfg s src_dst = Some i \<and>
                get_sys_bit (s_send_mask (p_priv (procs s caller_ptr))) i = Some True \<and>
                isemptyn cfg s src_dst = Some True
            \<longrightarrow> sys_call cfg call_nr src_dst m_ptr s = Some (EDEADDST, s)) \<and>
          ((function AND SEND \<noteq> 0 \<longrightarrow>
              (\<exists>i. nr_to_id cfg s src_dst = Some i \<and>
                    get_sys_bit (s_send_mask (p_priv (procs s caller_ptr))) i = Some True \<and>
                    isemptyn cfg s src_dst = Some False)) \<and>
            function \<noteq> SENDREC \<and> function \<noteq> SEND \<and> function \<noteq> RECEIVE \<and>
            function \<noteq> ALERT cfg \<and> function \<noteq> NOTIFY cfg \<and> function \<noteq> ECHO cfg
            \<longrightarrow> sys_call cfg call_nr src_dst m_ptr s = Some (EBADCALL, s))))) \<and>
    (\<forall>r s'. sys_call cfg call_nr src_dst m_ptr s = Some (r, s') \<and>
        (r = ECALLDENIED \<or> r = EBADSRCDST \<or> r = EFAULT \<or> r = EDEADDST \<or> r = EBADCALL)
        \<longrightarrow> s' = s)"
proof -
  let ?denied = "s_call_mask (p_priv (procs s caller_ptr)) AND push_bit (nat function) 1 = 0 \<or>
       (iskerneln cfg src_dst \<and> function \<noteq> SENDREC)"
  let ?ok = "isokprocn cfg src_dst \<or> src_dst = ANY cfg \<or> function = ECHO cfg"
  let ?fault = "function AND SENDREC \<noteq> 0 \<and> bad_buffer cfg (procs s caller_ptr) m_ptr"
  note sc = sys_call_checks[OF caller mask f, of src_dst m_ptr]
  have A: "?denied \<longrightarrow> sys_call cfg call_nr src_dst m_ptr s = Some (ECALLDENIED, s)"
    unfolding sc by auto
  have B: "\<not> ?denied \<longrightarrow> \<not> ?ok \<longrightarrow> sys_call cfg call_nr src_dst m_ptr s = Some (EBADSRCDST, s)"
    unfolding sc by auto
  have C: "\<not> ?denied \<longrightarrow> ?ok \<longrightarrow> ?fault \<longrightarrow>
             sys_call cfg call_nr src_dst m_ptr s = Some (EFAULT, s)"
    unfolding sc by auto
  have D: "\<not> ?denied \<longrightarrow> ?ok \<longrightarrow> \<not> ?fault \<longrightarrow>
      (\<forall>i. function AND SEND \<noteq> 0 \<and> nr_to_id cfg s src_dst = Some i \<and>
            get_sys_bit (s_send_mask (p_priv (procs s caller_ptr))) i = Some False
        \<longrightarrow> sys_call cfg call_nr src_dst m_ptr s = Some (ECALLDENIED, s))"
    unfolding sc by (auto simp: check_dst_cases)
  have E: "\<not> ?denied \<longrightarrow> ?ok \<longrightarrow> \<not> ?fault \<longrightarrow>
      (\<forall>i. function AND SEND \<noteq> 0 \<and> nr_to_id cfg s src_dst = Some i \<and>
            get_sys_bit (s_send_mask (p_priv (procs s caller_ptr))) i = Some True \<and>
            isemptyn cfg s src_dst = Some True
        \<longrightarrow> sys_call cfg call_nr src_dst m_ptr s = Some (EDEADDST, s))"
    unfolding sc by (auto simp: check_dst_cases)
  have F: "\<not> ?denied \<longrightarrow> ?ok \<longrightarrow> \<not> ?fault \<longrightarrow>
      ((function AND SEND \<noteq> 0 \<longrightarrow>
          (\<exists>i. nr_to_id cfg s src_dst = Some i \<and>
                get_sys_bit (s_send_mask (p_priv (procs s caller_ptr))) i = Some True \<and>
                isemptyn cfg s src_dst = Some False)) \<and>
        function \<noteq> SENDREC \<and> function \<noteq> SEND \<and> function \<noteq> RECEIVE \<and>
        function \<noteq> ALERT cfg \<and> function \<noteq> NOTIFY cfg \<and> function \<noteq> ECHO cfg
        \<longrightarrow> sys_call cfg call_nr src_dst m_ptr s = Some (EBADCALL, s))"
    unfolding sc by (auto simp: check_dst_cases dispatch_def)
  have G: "\<forall>r s'. sys_call cfg call_nr src_dst m_ptr s = Some (r, s') \<and>
        (r = ECALLDENIED \<or> r = EBADSRCDST \<or> r = EFAULT \<or> r = EDEADDST \<or> r = EBADCALL)
        \<longrightarrow> s' = s"
    using sys_call_error_state[OF caller mask] by blast
  from A B C D E F G show ?thesis by blast
qed

lemma sys_call_validation_examples:
  "sys_call cfg0 1 (- 1) 32 st0 = Some (ECALLDENIED, st0) \<and>
   sys_call cfg0 1 100 32 st0 = Some (EBADSRCDST, st0) \<and>
   sys_call cfg0 2 (ANY cfg0) 4294967295 st0 = Some (EFAULT, st0) \<and>
   sys_call cfg0 1 5 32 st_dead = Some (EDEADDST, st_dead) \<and>
   sys_call cfg0 8 2 32 st0 = Some (EBADCALL, st0)"
proof -
  have h1: "proc_ptr st0 = Some 1" "proc_ptr st_dead = Some 1"
    by (simp_all add: st0_def st_dead_def)
  have h2: "0 \<le> SYSCALL_FUNC cfg0"
    by (simp add: cfg0_def)
  have v: "s_call_mask (p_priv (procs st0 1)) = 2047" "s_call_mask (p_priv (procs st_dead 1)) = 2047"
    "SYSCALL_FUNC cfg0 = 15" "ANY cfg0 = 31438" "ECHO cfg0 = 10" "ALERT cfg0 = 4" "NOTIFY cfg0 = 5"
    "\<And>n. iskerneln cfg0 n = (n < 0)"
    by (simp_all add: st0_def st_dead_def procs_upd_proc proc0_def priv0_def cfg0_def)
  have ok: "\<not> isokprocn cfg0 100" "isokprocn cfg0 5" "isokprocn cfg0 2"
    by (simp_all add: isokprocn_def cfg0_def)
  have bb: "bad_buffer cfg0 (procs st0 1) 4294967295"
    "\<not> bad_buffer cfg0 (procs st_dead 1) 32" "\<not> bad_buffer cfg0 (procs st0 1) 32"
    by (simp_all add: bad_buffer_def Let_def st0_def st_dead_def procs_upd_proc proc0_def cfg0_def)
  have d: "nr_to_id cfg0 st_dead 5 = Some 9"
    "get_sys_bit (s_send_mask (p_priv (procs st_dead 1))) 9 = Some True"
    "isemptyn cfg0 st_dead 5 = Some True"
    by (simp_all add: nr_to_id_def isemptyn_def get_sys_bit_def proc_addr_def isokprocn_def
          st_dead_def st0_def procs_upd_proc proc0_def priv0_def cfg0_def)
  have 1: "sys_call cfg0 1 (- 1) 32 st0 = Some (ECALLDENIED, st0)"
    using sys_call_validation[OF h1(1) h2 refl, of 1 "- 1" 32]
    by (simp add: v SENDREC_def)
  have 2: "sys_call cfg0 1 100 32 st0 = Some (EBADSRCDST, st0)"
    using sys_call_validation[OF h1(1) h2 refl, of 1 100 32]
    by (simp add: v ok SENDREC_def)
  have 3: "sys_call cfg0 2 (ANY cfg0) 4294967295 st0 = Some (EFAULT, st0)"
    using sys_call_validation[OF h1(1) h2 refl, of 2 "ANY cfg0" 4294967295] bb(1)
    by (simp add: v SENDREC_def)
  have 4: "sys_call cfg0 1 5 32 st_dead = Some (EDEADDST, st_dead)"
    using sys_call_validation[OF h1(2) h2 refl, of 1 5 32] bb(2) d
    by (simp add: v ok SENDREC_def SEND_def)
  have 5: "sys_call cfg0 8 2 32 st0 = Some (EBADCALL, st0)"
    using sys_call_validation[OF h1(1) h2 refl, of 8 2 32] bb(3)
    by (simp add: v ok SENDREC_def SEND_def RECEIVE_def)
  from 1 2 3 4 5 show ?thesis by blast
qed

text \<open>
  A call whose function has the \<open>SEND\<close> bit and whose \<open>src_dst\<close> passes the end point
  check without being a process number of the table (it is \<open>ANY\<close>, or the function is
  \<open>ECHO\<close>) reaches \<open>nr_to_id(src_dst)\<close>, which reads the slot of \<open>src_dst\<close>: the
  process table is indexed out of range and the call has no defined result.
\<close>

lemma sys_call_send_no_slot:
  assumes caller: "proc_ptr s = Some caller_ptr"
    and mask: "0 \<le> SYSCALL_FUNC cfg"
    and f: "function = call_nr AND SYSCALL_FUNC cfg"
    and allowed: "s_call_mask (p_priv (procs s caller_ptr)) AND push_bit (nat function) 1 \<noteq> 0"
      "\<not> (iskerneln cfg src_dst \<and> function \<noteq> SENDREC)"
    and ep: "src_dst = ANY cfg \<or> function = ECHO cfg"
    and buf: "\<not> (function AND SENDREC \<noteq> 0 \<and> bad_buffer cfg (procs s caller_ptr) m_ptr)"
    and snd: "function AND SEND \<noteq> 0"
    and no_slot: "\<not> isokprocn cfg src_dst"
  shows "sys_call cfg call_nr src_dst m_ptr s = None"
proof -
  have "check_dst cfg caller_ptr src_dst s = None"
    using no_slot by (simp add: check_dst_def nr_to_id_def proc_addr_def)
  with allowed ep buf snd show ?thesis
    unfolding sys_call_checks[OF caller mask f] by simp
qed

text \<open>
  Claim C4 says that every call gets the first applicable error, that a failing call
  leaves the state unchanged and that an unknown function fails with \<open>EBADCALL\<close>. The
  end point check lets \<open>ANY\<close> pass for every function, also for those that send, and
  the check of the send mask then takes \<open>nr_to_id(ANY)\<close>, the \<open>s_id\<close> of a slot that
  does not exist. Below, slot 1 (which may use every function and whose buffer at
  address 32 is fine) calls the unknown function 9, which has the \<open>SEND\<close> bit, and the
  function \<open>SEND\<close> with \<open>src_dst = ANY\<close>: neither call returns \<open>EBADCALL\<close> or any
  other error; both index the process table out of range.
\<close>

theorem sys_call_send_ANY_undefined:
  "proc_ptr st0 = Some 1 \<and>
   s_call_mask (p_priv (procs st0 1)) AND push_bit 9 1 \<noteq> 0 \<and>
   \<not> iskerneln cfg0 (ANY cfg0) \<and>
   \<not> bad_buffer cfg0 (procs st0 1) 32 \<and>
   (9::int) AND SYSCALL_FUNC cfg0 = 9 \<and> (9::int) AND SEND \<noteq> 0 \<and>
   9 \<noteq> SENDREC \<and> 9 \<noteq> SEND \<and> 9 \<noteq> RECEIVE \<and> 9 \<noteq> ALERT cfg0 \<and> 9 \<noteq> NOTIFY cfg0 \<and>
   9 \<noteq> ECHO cfg0 \<and>
   \<not> isokprocn cfg0 (ANY cfg0) \<and> nr_to_id cfg0 st0 (ANY cfg0) = None \<and>
   sys_call cfg0 9 (ANY cfg0) 32 st0 = None \<and>
   sys_call cfg0 SEND (ANY cfg0) 32 st0 = None"
  by (simp add: sys_call_def check_dst_def nr_to_id_def proc_addr_def isokprocn_def bad_buffer_def
        SENDREC_def SEND_def RECEIVE_def st0_def proc0_def priv0_def cfg0_def)

section \<open>Properties of the pending notifications\<close>

subsection \<open>Bits of a bit map\<close>

lemma find_bit_least:
  fixes c :: "'b::len word"
  assumes "bit c j" "\<forall>i. k \<le> i \<and> i < j \<longrightarrow> \<not> bit c i" "k \<le> j"
  shows "find_bit c k = Some j"
  using assms
proof (induction "j - k" arbitrary: k)
  case 0
  then have "k = j" by simp
  with \<open>bit c j\<close> show ?case
    by (subst find_bit.simps) (simp add: bit_iff_and_push_bit_not_eq_0)
next
  case (Suc d)
  then have "\<not> bit c k" "k < j" by auto
  moreover from Suc have "find_bit c (Suc k) = Some j"
    by (intro Suc.hyps) auto
  ultimately show ?case
    by (subst find_bit.simps) (simp add: bit_iff_and_push_bit_not_eq_0)
qed

lemma get_sys_bit_bit:
  fixes chunks :: "('b::len) word list"
  shows "get_sys_bit chunks n =
     (if n div LENGTH('b) < length chunks
      then Some (bit (chunks ! (n div LENGTH('b))) (n mod LENGTH('b))) else None)"
  by (simp add: get_sys_bit_def bit_iff_and_push_bit_not_eq_0)

lemma set_sys_bit_set:
  fixes chunks :: "('b::len) word list"
  assumes "n div LENGTH('b) < length chunks"
  shows "set_sys_bit chunks n =
           Some (chunks[n div LENGTH('b) := set_bit (n mod LENGTH('b)) (chunks ! (n div LENGTH('b)))])"
  using assms by (simp add: set_sys_bit_def set_bit_eq_or)

lemma set_sys_bit_idem:
  fixes chunks :: "('b::len) word list"
  assumes "set_sys_bit chunks n = Some chunks'"
  shows "set_sys_bit chunks' n = Some chunks'"
  using assms
  by (auto simp: set_sys_bit_def or.assoc split: if_splits)

lemma set_sys_bit_get:
  fixes chunks :: "('b::len) word list"
  assumes "set_sys_bit chunks n = Some chunks'"
  shows "get_sys_bit chunks' m = (if m = n then Some True else get_sys_bit chunks m)"
proof -
  from assms have l: "n div LENGTH('b) < length chunks"
    and c: "chunks' = chunks[n div LENGTH('b) :=
              set_bit (n mod LENGTH('b)) (chunks ! (n div LENGTH('b)))]"
    by (auto simp: set_sys_bit_def set_bit_eq_or split: if_splits)
  have "m = n" if "m div LENGTH('b) = n div LENGTH('b)" "m mod LENGTH('b) = n mod LENGTH('b)"
    using that by (metis div_mult_mod_eq)
  then show ?thesis
    using l by (auto simp: get_sys_bit_bit c nth_list_update bit_set_bit_iff)
qed

lemma chunk_zero:
  fixes c :: "'b::len word"
  assumes "\<forall>i<LENGTH('b). \<not> bit c i"
  shows "c = 0"
  using assms by (intro bit_word_eqI) simp

text \<open>The scan of the pending bits when the lowest pending bit (\<open>j\<close> in chunk \<open>k\<close>) is one
  of an acceptable source: it is cleared and its notification is delivered.\<close>

lemma pending_scan_skip:
  fixes s :: "('v::len, 'b::len) kstate"
  assumes "\<forall>k'\<in>set ks. k' < length (s_notify_pending (p_priv (procs s c))) \<and>
              s_notify_pending (p_priv (procs s c)) ! k' = 0"
  shows "pending_scan cfg c src m_ptr (ks @ ks') s = pending_scan cfg c src m_ptr ks' s"
  using assms by (induction ks) (simp_all add: Let_def)

lemma pending_scan_first:
  fixes s :: "('v::len, 'b::len) kstate"
  assumes chunks: "chunks = s_notify_pending (p_priv (procs s c))"
    and k: "k < length chunks" "k < n"
    and zero: "\<forall>k'<k. chunks ! k' = 0"
    and j: "bit (chunks ! k) j" "\<forall>i<j. \<not> bit (chunks ! k) i"
    and id: "k * LENGTH('b) + j < NR_SYS_PROCS cfg"
    and src: "src = ANY cfg \<or> src = id_to_nr cfg (k * LENGTH('b) + j)"
  shows "pending_scan cfg c src m_ptr [0..<n] s =
           map_option Some
             (deliver_pending cfg c m_ptr (id_to_nr cfg (k * LENGTH('b) + j))
                (upd_proc c (upd_priv (\<lambda>pr. pr\<lparr>s_notify_pending :=
                     chunks[k := chunks ! k AND NOT (push_bit j 1)]\<rparr>)) s))"
proof -
  have n: "[0..<n] = [0..<k] @ k # [Suc k..<n]"
    using k(2) by (rule upt_split)
  have 1: "pending_scan cfg c src m_ptr [0..<n] s =
             pending_scan cfg c src m_ptr (k # [Suc k..<n]) s"
    unfolding n using k(1) zero by (intro pending_scan_skip) (auto simp: chunks)
  have "chunks ! k \<noteq> 0"
    using j(1) by auto
  moreover have "find_bit (chunks ! k) 0 = Some j"
    using j by (intro find_bit_least) auto
  moreover have "\<not> (src \<noteq> ANY cfg \<and> src \<noteq> id_to_nr cfg (k * LENGTH('b) + j))"
    using src by simp
  ultimately have "pending_scan cfg c src m_ptr (k # [Suc k..<n]) s =
           map_option Some
             (deliver_pending cfg c m_ptr (id_to_nr cfg (k * LENGTH('b) + j))
                (upd_proc c (upd_priv (\<lambda>pr. pr\<lparr>s_notify_pending :=
                     chunks[k := chunks ! k AND NOT (push_bit j 1)]\<rparr>)) s))"
    using k(1) id by (auto simp: Let_def chunks[symmetric])
  with 1 show ?thesis by simp
qed

lemma BuildMess_message:
  assumes "BuildMess cfg m src d s = (m', s')"
  shows "m_source m' = src" "m_type m' = NOTIFY_FROM cfg src" "NOTIFY_TIMESTAMP m' = uptime s"
  using assms by (auto simp: BuildMess_def Let_def split: if_splits)

lemma BuildMess_state:
  assumes "BuildMess cfg m src d s = (m', s')"
  shows "s_notify_pending (p_priv (procs s' x)) = s_notify_pending (p_priv (procs s x))"
    "s_flags (p_priv (procs s' x)) = s_flags (p_priv (procs s x))"
    "s_id (p_priv (procs s' x)) = s_id (p_priv (procs s x))"
    "p_rts_flags (procs s' x) = p_rts_flags (procs s x)"
    "p_priority (procs s' x) = p_priority (procs s x)"
    "p_messbuf (procs s' x) = p_messbuf (procs s x)"
    "p_getfrom (procs s' x) = p_getfrom (procs s x)"
    "p_nr (procs s' x) = p_nr (procs s x)"
    "p_nextready (procs s' x) = p_nextready (procs s x)"
    "memory s' = memory s" "rdy_head s' = rdy_head s" "rdy_tail s' = rdy_tail s"
  using assms
  by (auto simp: BuildMess_def Let_def procs_upd_proc upd_priv_def split: if_splits)

lemma put_mess_fields [simp]:
  "procs (put_mess dp dm m s) = procs s" "rdy_head (put_mess dp dm m s) = rdy_head s"
  "rdy_tail (put_mess dp dm m s) = rdy_tail s" "memory (put_mess dp dm m s) dp dm = m"
  "proc_ptr (put_mess dp dm m s) = proc_ptr s"
  "nextready_of (put_mess dp dm m s) = nextready_of s"
  by (simp_all add: put_mess_def nextready_of_def)

text \<open>
  The part of the pickup of notifications that the code does provide: when the lowest
  pending bit of the first chunk that is not 0 belongs to an acceptable source,
  \<open>mini_receive\<close> clears that bit, delivers the notification of its source and returns
  \<open>OK\<close>.
\<close>

lemma mini_receive_pending:
  fixes s :: "('v::len, 'b::len) kstate"
  assumes run: "p_rts_flags (procs s c) AND SENDING cfg = 0" "flags AND FRESH_ANSWER cfg = 0"
    and hw: "isokprocn cfg (HARDWARE cfg)"
    and chunks: "chunks = s_notify_pending (p_priv (procs s c))"
    and k: "k < length chunks" "k < NR_SYS_CHUNKS cfg"
    and zero: "\<forall>k'<k. chunks ! k' = 0"
    and j: "bit (chunks ! k) j" "\<forall>i<j. \<not> bit (chunks ! k) i"
    and id: "k * LENGTH('b) + j < NR_SYS_PROCS cfg"
    and src: "src = ANY cfg \<or> src = id_to_nr cfg (k * LENGTH('b) + j)"
  shows "\<exists>s'. mini_receive cfg c src m_ptr flags s = Some (OK, s') \<and>
           m_source (memory s' c m_ptr) = id_to_nr cfg (k * LENGTH('b) + j) \<and>
           m_type (memory s' c m_ptr) = NOTIFY_FROM cfg (id_to_nr cfg (k * LENGTH('b) + j)) \<and>
           NOTIFY_TIMESTAMP (memory s' c m_ptr) = uptime s \<and>
           s_notify_pending (p_priv (procs s' c)) = chunks[k := chunks ! k AND NOT (push_bit j 1)] \<and>
           (\<forall>x. p_rts_flags (procs s' x) = p_rts_flags (procs s x))"
proof -
  let ?src = "id_to_nr cfg (k * LENGTH('b) + j)"
  let ?s1 = "upd_proc c (upd_priv (\<lambda>pr. pr\<lparr>s_notify_pending :=
               chunks[k := chunks ! k AND NOT (push_bit j 1)]\<rparr>)) s"
  obtain m s2 where b: "BuildMess cfg (stack_mess s) ?src c ?s1 = (m, s2)"
    by (cases "BuildMess cfg (stack_mess s) ?src c ?s1") blast
  have d: "deliver_pending cfg c m_ptr ?src ?s1 = Some (put_mess c m_ptr m s2)"
    using hw b by (simp add: deliver_pending_def proc_addr_def)
  have p: "pending_scan cfg c src m_ptr [0..<NR_SYS_CHUNKS cfg] s = Some (Some (put_mess c m_ptr m s2))"
    using pending_scan_first[OF chunks k zero j id src, of m_ptr] d by simp
  have r: "mini_receive cfg c src m_ptr flags s = Some (OK, put_mess c m_ptr m s2)"
    using run p by (simp add: mini_receive_def receive_acquire_def)
  have u: "s_notify_pending (p_priv (procs ?s1 c)) = chunks[k := chunks ! k AND NOT (push_bit j 1)]"
    "p_rts_flags (procs ?s1 x) = p_rts_flags (procs s x)" "uptime ?s1 = uptime s" for x
    by (simp_all add: procs_upd_proc upd_priv_def)
  show ?thesis
    unfolding r using BuildMess_message[OF b] BuildMess_state[OF b] u
    by (intro exI[of _ "put_mess c m_ptr m s2"]) simp
qed

subsection \<open>mini_alert\<close>

lemma mini_alert_pending:
  assumes "isokprocn cfg dst" "\<not> dst_waits cfg c dst s"
    and "set_sys_bit (s_notify_pending (p_priv (procs s dst))) (s_id (p_priv (procs s c))) = Some chunks"
  shows "mini_alert cfg c dst s =
           Some (OK, upd_proc dst (upd_priv (\<lambda>pr. pr\<lparr>s_notify_pending := chunks\<rparr>)) s)"
  using assms by (simp add: mini_alert_def proc_addr_def Let_def)

lemma upd_pending_again:
  "upd_proc dst (upd_priv (\<lambda>pr. pr\<lparr>s_notify_pending := chunks\<rparr>))
     (upd_proc dst (upd_priv (\<lambda>pr. pr\<lparr>s_notify_pending := chunks\<rparr>)) s) =
   upd_proc dst (upd_priv (\<lambda>pr. pr\<lparr>s_notify_pending := chunks\<rparr>)) s"
  by (simp add: upd_proc_def upd_priv_def)

lemma mini_alert_pending_twice:
  assumes dst: "isokprocn cfg dst" and nw: "\<not> dst_waits cfg c dst s"
    and set: "set_sys_bit (s_notify_pending (p_priv (procs s dst))) (s_id (p_priv (procs s c))) = Some chunks"
    and s1: "s1 = upd_proc dst (upd_priv (\<lambda>pr. pr\<lparr>s_notify_pending := chunks\<rparr>)) s"
  shows "mini_alert cfg c dst s1 = Some (OK, s1)"
proof -
  have 1: "\<not> dst_waits cfg c dst s1"
    using nw by (auto simp: dst_waits_def s1 procs_upd_proc upd_priv_def)
  have 2: "s_id (p_priv (procs s1 c)) = s_id (p_priv (procs s c))"
    "s_notify_pending (p_priv (procs s1 dst)) = chunks"
    by (simp_all add: s1 procs_upd_proc upd_priv_def)
  have 3: "set_sys_bit (s_notify_pending (p_priv (procs s1 dst))) (s_id (p_priv (procs s1 c))) = Some chunks"
    unfolding 2 using set by (rule set_sys_bit_idem)
  show ?thesis
    using mini_alert_pending[OF dst 1 3] by (simp add: s1 upd_pending_again)
qed

lemma alert_times_fixed:
  "mini_alert cfg c dst s = Some (OK, s) \<Longrightarrow> alert_times n cfg c dst s = Some (replicate n OK, s)"
  by (induction n) simp_all

lemma alert_times_pending:
  assumes dst: "isokprocn cfg dst" and nw: "\<not> dst_waits cfg c dst s"
    and set: "set_sys_bit (s_notify_pending (p_priv (procs s dst))) (s_id (p_priv (procs s c))) = Some chunks"
    and s1: "s1 = upd_proc dst (upd_priv (\<lambda>pr. pr\<lparr>s_notify_pending := chunks\<rparr>)) s"
  shows "alert_times (Suc n) cfg c dst s = Some (replicate (Suc n) OK, s1)"
  using mini_alert_pending[OF dst nw set] alert_times_fixed[OF mini_alert_pending_twice[OF dst nw set s1]]
  by (simp add: s1)

text \<open>
  Claim C1 says that \<open>mini_receive\<close> (without \<open>FRESH_ANSWER\<close>, the caller not
  \<open>SENDING\<close>) delivers a pending notification whenever some pending bit maps to the
  requested source. The loop looks at the lowest bit set in each chunk only: when that
  bit belongs to another source it goes on to the next chunk (\<open>continue\<close>) and a
  pending bit of the requested source higher in the same chunk is never seen. Below,
  slot 1 has the bits of the ids 0 and 1 pending and asks for the source of id 1 without
  blocking: nothing is delivered, the bit stays set and the call returns \<open>ENOTREADY\<close>.
\<close>

theorem mini_receive_pending_skipped:
  "get_sys_bit (s_notify_pending (p_priv (procs st_pend 1))) 1 = Some True \<and>
   id_to_nr cfg0 1 = - 3 \<and>
   mini_receive cfg0 1 (- 3) 32 (NON_BLOCKING cfg0) st_pend = Some (ENOTREADY, st_pend)"
  by (simp add: mini_receive_def receive_acquire_def receive_block_def find_bit.simps
        ntf_q_scan.simps caller_q_scan.simps get_sys_bit_def upt_rec
        st_pend_def procs_upd_proc upd_priv_def st0_def proc0_def priv0_def cfg0_def)

lemma clear_sys_bit_get:
  fixes chunks :: "('b::len) word list"
  assumes len: "n div LENGTH('b) < length chunks"
  shows "get_sys_bit (chunks[n div LENGTH('b) :=
              chunks ! (n div LENGTH('b)) AND NOT (push_bit (n mod LENGTH('b)) 1)]) m =
         (if m = n then Some False else get_sys_bit chunks m)"
proof (cases "m div LENGTH('b) = n div LENGTH('b)")
  case True
  have "m = n" if "m mod LENGTH('b) = n mod LENGTH('b)"
    using that True by (metis div_mult_mod_eq)
  then have "(n mod LENGTH('b) \<noteq> m mod LENGTH('b)) = (m \<noteq> n)"
    by auto
  moreover have u: "chunks ! (n div LENGTH('b)) AND NOT (push_bit (n mod LENGTH('b)) 1) =
             unset_bit (n mod LENGTH('b)) (chunks ! (n div LENGTH('b)))"
    by (simp add: unset_bit_eq_and_not)
  ultimately show ?thesis
    unfolding u using len True
    by (simp add: get_sys_bit_bit bit_unset_bit_iff)
next
  case False
  then have "m \<noteq> n" by auto
  with False show ?thesis
    by (simp add: get_sys_bit_bit)
qed

lemma first_bit_chunks:
  fixes chunks :: "('b::len) word list"
  assumes len: "n div LENGTH('b) < length chunks"
    and set: "get_sys_bit chunks n = Some True"
    and first: "\<forall>i<n. get_sys_bit chunks i = Some False"
  shows "\<forall>k'<n div LENGTH('b). chunks ! k' = 0"
    and "bit (chunks ! (n div LENGTH('b))) (n mod LENGTH('b))"
    and "\<forall>i<n mod LENGTH('b). \<not> bit (chunks ! (n div LENGTH('b))) i"
proof -
  show "\<forall>k'<n div LENGTH('b). chunks ! k' = 0"
  proof (intro allI impI chunk_zero)
    fix k' i
    assume k': "k' < n div LENGTH('b)" and i: "i < LENGTH('b)"
    have "Suc k' * LENGTH('b) \<le> n div LENGTH('b) * LENGTH('b)"
      using k' by (intro mult_le_mono1) simp
    also have "\<dots> \<le> n" by simp
    finally have "k' * LENGTH('b) + i < n"
      using i by simp
    with first have "get_sys_bit chunks (k' * LENGTH('b) + i) = Some False"
      by blast
    moreover have "(k' * LENGTH('b) + i) div LENGTH('b) = k'"
      "(k' * LENGTH('b) + i) mod LENGTH('b) = i"
      using i by simp_all
    ultimately show "\<not> bit (chunks ! k') i"
      using k' len by (simp add: get_sys_bit_bit)
  qed
  show "bit (chunks ! (n div LENGTH('b))) (n mod LENGTH('b))"
    using set len by (simp add: get_sys_bit_bit)
  show "\<forall>i<n mod LENGTH('b). \<not> bit (chunks ! (n div LENGTH('b))) i"
  proof (intro allI impI)
    fix i
    assume i: "i < n mod LENGTH('b)"
    moreover have "n div LENGTH('b) * LENGTH('b) + n mod LENGTH('b) = n"
      by simp
    ultimately have "n div LENGTH('b) * LENGTH('b) + i < n"
      by linarith
    with first have "get_sys_bit chunks (n div LENGTH('b) * LENGTH('b) + i) = Some False"
      by blast
    moreover have "i < LENGTH('b)"
      using i by (meson len_gt_0 less_trans mod_less_divisor)
    then have dm: "(n div LENGTH('b) * LENGTH('b) + i) div LENGTH('b) = n div LENGTH('b)"
      "(n div LENGTH('b) * LENGTH('b) + i) mod LENGTH('b) = i"
      by simp_all
    ultimately show "\<not> bit (chunks ! (n div LENGTH('b))) i"
      using len by (simp add: get_sys_bit_bit)
  qed
qed

text \<open>The first branch of \<open>mini_alert\<close>: the destination waits for the caller.\<close>

lemma mini_alert_deliver:
  assumes dst: "isokprocn cfg dst" and hw: "isokprocn cfg (HARDWARE cfg)"
    and w: "dst_waits cfg c dst s"
    and wake: "p_rts_flags (procs s dst) AND NOT (RECEIVING cfg) = 0 \<longrightarrow>
                 queue_index cfg (p_priority (procs s dst)) = Some q \<and>
                 ready_queue s q xs \<and> dst \<notin> set xs"
  shows "\<exists>s'. mini_alert cfg c dst s = Some (OK, s') \<and>
           m_source (memory s' dst (p_messbuf (procs s dst))) = p_nr (procs s c) \<and>
           m_type (memory s' dst (p_messbuf (procs s dst))) = NOTIFY_FROM cfg (p_nr (procs s c)) \<and>
           p_rts_flags (procs s' dst) = p_rts_flags (procs s dst) AND NOT (RECEIVING cfg) \<and>
           (\<forall>x. x \<noteq> dst \<longrightarrow> p_rts_flags (procs s' x) = p_rts_flags (procs s x)) \<and>
           (\<forall>x. s_notify_pending (p_priv (procs s' x)) = s_notify_pending (p_priv (procs s x)))"
proof -
  obtain m s1 where b: "BuildMess cfg (stack_mess s) (p_nr (procs s c)) dst s = (m, s1)"
    by (cases "BuildMess cfg (stack_mess s) (p_nr (procs s c)) dst s") blast
  note bs = BuildMess_state[OF b]
  let ?s2 = "put_mess dst (p_messbuf (procs s dst)) m s1"
  let ?s3 = "upd_proc dst (\<lambda>p. p\<lparr>p_rts_flags := p_rts_flags p AND NOT (RECEIVING cfg)\<rparr>) ?s2"
  have ma: "mini_alert cfg c dst s =
              (if p_rts_flags (procs s dst) AND NOT (RECEIVING cfg) = 0
               then map_option (Pair OK) (ready cfg dst ?s3) else Some (OK, ?s3))"
    using dst hw w b
    by (simp add: mini_alert_def proc_addr_def Let_def procs_upd_proc bs map_option_case
          split: option.splits)
  have f: "p_rts_flags (procs ?s3 x) =
             (if x = dst then p_rts_flags (procs s dst) AND NOT (RECEIVING cfg)
              else p_rts_flags (procs s x))"
    "s_notify_pending (p_priv (procs ?s3 x)) = s_notify_pending (p_priv (procs s x))"
    "p_priority (procs ?s3 x) = p_priority (procs s x)" for x
    by (simp_all add: procs_upd_proc bs)
  have mm: "memory ?s3 dst (p_messbuf (procs s dst)) = m"
    by simp
  have rq: "ready_queue ?s3 q' zs = ready_queue s q' zs" for q' zs
  proof (intro ready_queue_cong)
    show "nextready_of ?s3 = nextready_of s"
      by (rule ext) (simp add: nextready_of_def procs_upd_proc bs)
  qed (simp_all add: bs)
  show ?thesis
  proof (cases "p_rts_flags (procs s dst) AND NOT (RECEIVING cfg) = 0")
    case False
    then have "mini_alert cfg c dst s = Some (OK, ?s3)"
      unfolding ma by simp
    then show ?thesis
      using BuildMess_message[OF b] f mm by (intro exI[of _ ?s3]) simp
  next
    case True
    with wake have "queue_index cfg (p_priority (procs ?s3 dst)) = Some q"
      "ready_queue ?s3 q xs" "dst \<notin> set xs"
      by (simp_all add: f rq)
    from ready_queue_ready[OF this] obtain s' where
      r: "ready cfg dst ?s3 = Some s'"
      and r3: "\<forall>x. (procs s' x)\<lparr>p_nextready := p_nextready (procs ?s3 x)\<rparr> = procs ?s3 x"
      and r4: "memory s' = memory ?s3"
      by blast
    note g = proc_upto_nextready[OF r3[rule_format]]
    have "mini_alert cfg c dst s = Some (OK, s')"
      unfolding ma using True r by simp
    moreover have "memory s' dst (p_messbuf (procs s dst)) = m"
      unfolding r4 by (rule mm)
    ultimately show ?thesis
      using BuildMess_message[OF b] by (intro exI[of _ s']) (simp add: g f)
  qed
qed

text \<open>
  \<open>mini_alert\<close> returns \<open>OK\<close> for every caller and every destination of the table.
  When the destination waits for the caller the notification is delivered at once (and
  the destination is made ready when its flags become 0; no other slot is blocked or
  woken). Otherwise the call sets the bit \<open>caller.priv.id\<close> in the \<open>notify_pending\<close>
  map of the destination and changes nothing else; \<open>n + 1\<close> calls one after the other
  all return \<open>OK\<close> and leave the very state the first call left. When no notification
  of a smaller id is pending, a receive of the destination after them (not \<open>SENDING\<close>,
  without \<open>FRESH_ANSWER\<close>, from \<open>ANY\<close> or from the source of that id) delivers one
  notification of the source of that id and clears the bit.
\<close>

lemma mini_alert_coalesce:
  fixes s :: "('v::len, 'b::len) kstate"
  assumes dst: "isokprocn cfg dst" and hw: "isokprocn cfg (HARDWARE cfg)"
    and sid: "sid = s_id (p_priv (procs s S))"
    and len: "sid div LENGTH('b) < length (s_notify_pending (p_priv (procs s dst)))"
  shows
   "(dst_waits cfg S dst s \<and>
       (p_rts_flags (procs s dst) AND NOT (RECEIVING cfg) = 0 \<longrightarrow>
          queue_index cfg (p_priority (procs s dst)) = Some q \<and>
          ready_queue s q xs \<and> dst \<notin> set xs) \<longrightarrow>
       (\<exists>s'. mini_alert cfg S dst s = Some (OK, s') \<and>
          m_source (memory s' dst (p_messbuf (procs s dst))) = p_nr (procs s S) \<and>
          m_type (memory s' dst (p_messbuf (procs s dst))) = NOTIFY_FROM cfg (p_nr (procs s S)) \<and>
          p_rts_flags (procs s' dst) = p_rts_flags (procs s dst) AND NOT (RECEIVING cfg) \<and>
          (\<forall>x. x \<noteq> dst \<longrightarrow> p_rts_flags (procs s' x) = p_rts_flags (procs s x)) \<and>
          (\<forall>x. s_notify_pending (p_priv (procs s' x)) = s_notify_pending (p_priv (procs s x))))) \<and>
    (\<not> dst_waits cfg S dst s \<longrightarrow>
       (\<exists>chunks s1.
          set_sys_bit (s_notify_pending (p_priv (procs s dst))) sid = Some chunks \<and>
          s1 = upd_proc dst (upd_priv (\<lambda>pr. pr\<lparr>s_notify_pending := chunks\<rparr>)) s \<and>
          mini_alert cfg S dst s = Some (OK, s1) \<and>
          alert_times (Suc n) cfg S dst s = Some (replicate (Suc n) OK, s1) \<and>
          (\<forall>i. get_sys_bit (s_notify_pending (p_priv (procs s1 dst))) i =
                 (if i = sid then Some True
                  else get_sys_bit (s_notify_pending (p_priv (procs s dst))) i)) \<and>
          (p_rts_flags (procs s dst) AND SENDING cfg = 0 \<and> flags AND FRESH_ANSWER cfg = 0 \<and>
           (src = ANY cfg \<or> src = id_to_nr cfg sid) \<and>
           sid < NR_SYS_PROCS cfg \<and> sid div LENGTH('b) < NR_SYS_CHUNKS cfg \<and>
           (\<forall>i. i < sid \<longrightarrow> get_sys_bit (s_notify_pending (p_priv (procs s dst))) i = Some False) \<longrightarrow>
           (\<exists>s2. mini_receive cfg dst src m_ptr flags s1 = Some (OK, s2) \<and>
              m_source (memory s2 dst m_ptr) = id_to_nr cfg sid \<and>
              m_type (memory s2 dst m_ptr) = NOTIFY_FROM cfg (id_to_nr cfg sid) \<and>
              (\<forall>i. get_sys_bit (s_notify_pending (p_priv (procs s2 dst))) i =
                     (if i = sid then Some False
                      else get_sys_bit (s_notify_pending (p_priv (procs s dst))) i))))))"
proof (intro conjI impI)
  assume "dst_waits cfg S dst s \<and>
       (p_rts_flags (procs s dst) AND NOT (RECEIVING cfg) = 0 \<longrightarrow>
          queue_index cfg (p_priority (procs s dst)) = Some q \<and>
          ready_queue s q xs \<and> dst \<notin> set xs)"
  then show "\<exists>s'. mini_alert cfg S dst s = Some (OK, s') \<and>
          m_source (memory s' dst (p_messbuf (procs s dst))) = p_nr (procs s S) \<and>
          m_type (memory s' dst (p_messbuf (procs s dst))) = NOTIFY_FROM cfg (p_nr (procs s S)) \<and>
          p_rts_flags (procs s' dst) = p_rts_flags (procs s dst) AND NOT (RECEIVING cfg) \<and>
          (\<forall>x. x \<noteq> dst \<longrightarrow> p_rts_flags (procs s' x) = p_rts_flags (procs s x)) \<and>
          (\<forall>x. s_notify_pending (p_priv (procs s' x)) = s_notify_pending (p_priv (procs s x)))"
    using mini_alert_deliver[OF dst hw, of S s q xs] by blast
next
  assume nw: "\<not> dst_waits cfg S dst s"
  let ?old = "s_notify_pending (p_priv (procs s dst))"
  let ?k = "sid div LENGTH('b)" and ?j = "sid mod LENGTH('b)"
  obtain chunks where set: "set_sys_bit ?old sid = Some chunks"
    using len by (simp add: set_sys_bit_def)
  define s1 where "s1 = upd_proc dst (upd_priv (\<lambda>pr. pr\<lparr>s_notify_pending := chunks\<rparr>)) s"
  have set': "set_sys_bit ?old (s_id (p_priv (procs s S))) = Some chunks"
    using set by (simp add: sid)
  have a1: "mini_alert cfg S dst s = Some (OK, s1)"
    using mini_alert_pending[OF dst nw set'] by (simp add: s1_def)
  have a2: "alert_times (Suc n) cfg S dst s = Some (replicate (Suc n) OK, s1)"
    using alert_times_pending[OF dst nw set' s1_def] .
  have p1: "s_notify_pending (p_priv (procs s1 dst)) = chunks"
    by (simp add: s1_def procs_upd_proc upd_priv_def)
  have g1: "get_sys_bit chunks i = (if i = sid then Some True else get_sys_bit ?old i)" for i
    using set by (rule set_sys_bit_get)
  have lc: "?k < length chunks"
    using set len by (auto simp: set_sys_bit_def split: if_splits)
  have rcv: "\<exists>s2. mini_receive cfg dst src m_ptr flags s1 = Some (OK, s2) \<and>
              m_source (memory s2 dst m_ptr) = id_to_nr cfg sid \<and>
              m_type (memory s2 dst m_ptr) = NOTIFY_FROM cfg (id_to_nr cfg sid) \<and>
              (\<forall>i. get_sys_bit (s_notify_pending (p_priv (procs s2 dst))) i =
                     (if i = sid then Some False else get_sys_bit ?old i))"
    if h: "p_rts_flags (procs s dst) AND SENDING cfg = 0 \<and> flags AND FRESH_ANSWER cfg = 0 \<and>
           (src = ANY cfg \<or> src = id_to_nr cfg sid) \<and>
           sid < NR_SYS_PROCS cfg \<and> sid div LENGTH('b) < NR_SYS_CHUNKS cfg \<and>
           (\<forall>i. i < sid \<longrightarrow> get_sys_bit ?old i = Some False)"
  proof -
    have run: "p_rts_flags (procs s1 dst) AND SENDING cfg = 0" "flags AND FRESH_ANSWER cfg = 0"
      using h by (simp_all add: s1_def procs_upd_proc upd_priv_def)
    have first: "\<forall>i. i < sid \<longrightarrow> get_sys_bit chunks i = Some False"
      using h by (simp add: g1)
    have here: "get_sys_bit chunks sid = Some True"
      by (simp add: g1)
    have e: "?k * LENGTH('b) + ?j = sid"
      by simp
    note fb = first_bit_chunks[OF lc here first]
    from mini_receive_pending[OF run hw p1[symmetric] lc _ fb(1) fb(2) fb(3), of src m_ptr] h
    obtain s2 where r: "mini_receive cfg dst src m_ptr flags s1 = Some (OK, s2)"
      and m: "m_source (memory s2 dst m_ptr) = id_to_nr cfg sid"
        "m_type (memory s2 dst m_ptr) = NOTIFY_FROM cfg (id_to_nr cfg sid)"
      and p2: "s_notify_pending (p_priv (procs s2 dst)) =
                 chunks[?k := chunks ! ?k AND NOT (push_bit ?j 1)]"
      unfolding e by blast
    have "get_sys_bit (s_notify_pending (p_priv (procs s2 dst))) i =
            (if i = sid then Some False else get_sys_bit ?old i)" for i
      unfolding p2 clear_sys_bit_get[OF lc] by (simp add: g1)
    with r m show ?thesis by blast
  qed
  show "\<exists>chunks s1.
          set_sys_bit ?old sid = Some chunks \<and>
          s1 = upd_proc dst (upd_priv (\<lambda>pr. pr\<lparr>s_notify_pending := chunks\<rparr>)) s \<and>
          mini_alert cfg S dst s = Some (OK, s1) \<and>
          alert_times (Suc n) cfg S dst s = Some (replicate (Suc n) OK, s1) \<and>
          (\<forall>i. get_sys_bit (s_notify_pending (p_priv (procs s1 dst))) i =
                 (if i = sid then Some True else get_sys_bit ?old i)) \<and>
          (p_rts_flags (procs s dst) AND SENDING cfg = 0 \<and> flags AND FRESH_ANSWER cfg = 0 \<and>
           (src = ANY cfg \<or> src = id_to_nr cfg sid) \<and>
           sid < NR_SYS_PROCS cfg \<and> sid div LENGTH('b) < NR_SYS_CHUNKS cfg \<and>
           (\<forall>i. i < sid \<longrightarrow> get_sys_bit ?old i = Some False) \<longrightarrow>
           (\<exists>s2. mini_receive cfg dst src m_ptr flags s1 = Some (OK, s2) \<and>
              m_source (memory s2 dst m_ptr) = id_to_nr cfg sid \<and>
              m_type (memory s2 dst m_ptr) = NOTIFY_FROM cfg (id_to_nr cfg sid) \<and>
              (\<forall>i. get_sys_bit (s_notify_pending (p_priv (procs s2 dst))) i =
                     (if i = sid then Some False else get_sys_bit ?old i))))"
    using set s1_def a1 a2 g1 rcv unfolding p1[symmetric]
    by (intro exI[of _ chunks] exI[of _ s1]) (simp only: simp_thms p1 g1, blast)
qed

lemma mini_alert_coalesce_examples:
  "(\<exists>s1 s2. alert_times (Suc 2) cfg0 2 3 st0 = Some ([OK, OK, OK], s1) \<and>
       mini_receive cfg0 3 (ANY cfg0) 64 0 s1 = Some (OK, s2) \<and>
       m_source (memory s2 3 64) = 2 \<and>
       get_sys_bit (s_notify_pending (p_priv (procs s2 3))) 6 = Some False) \<and>
   (\<exists>s'. mini_alert cfg0 2 3 st_rdv = Some (OK, s') \<and>
       m_source (memory s' 3 64) = 2 \<and> p_rts_flags (procs s' 3) = 0)"
proof -
  have dst: "isokprocn cfg0 3" and hw: "isokprocn cfg0 (HARDWARE cfg0)"
    by (simp_all add: isokprocn_def cfg0_def)
  have sid: "(6::nat) = s_id (p_priv (procs st0 2))" "(6::nat) = s_id (p_priv (procs st_rdv 2))"
    by (simp_all add: st0_def st_rdv_def procs_upd_proc proc0_def priv0_def)
  have len: "(6::nat) div LENGTH(16) < length (s_notify_pending (p_priv (procs st0 3)))"
    "(6::nat) div LENGTH(16) < length (s_notify_pending (p_priv (procs st_rdv 3)))"
    by (simp_all add: st0_def st_rdv_def procs_upd_proc proc0_def priv0_def)
  have nw: "\<not> dst_waits cfg0 2 3 st0"
    by (simp add: dst_waits_def st0_def proc0_def cfg0_def)
  have h: "p_rts_flags (procs st0 3) AND SENDING cfg0 = 0 \<and> (0::int) AND FRESH_ANSWER cfg0 = 0 \<and>
           (ANY cfg0 = ANY cfg0 \<or> ANY cfg0 = id_to_nr cfg0 6) \<and>
           6 < NR_SYS_PROCS cfg0 \<and> 6 div LENGTH(16) < NR_SYS_CHUNKS cfg0 \<and>
           (\<forall>i. i < 6 \<longrightarrow> get_sys_bit (s_notify_pending (p_priv (procs st0 3))) i = Some False)"
    by (simp add: get_sys_bit_bit st0_def proc0_def priv0_def cfg0_def)
  have v: "id_to_nr cfg0 6 = 2"
    by (simp add: cfg0_def)
  from mini_alert_coalesce[where cfg=cfg0 and dst=3 and s=st0 and S=2 and sid=6 and n=2
      and flags=0 and src="ANY cfg0" and m_ptr=64, OF dst hw sid(1) len(1)] nw h
  obtain s1 s2 where "alert_times (Suc 2) cfg0 2 3 st0 = Some (replicate (Suc 2) OK, s1)"
    "mini_receive cfg0 3 (ANY cfg0) 64 0 s1 = Some (OK, s2)"
    "m_source (memory s2 3 64) = id_to_nr cfg0 6"
    "get_sys_bit (s_notify_pending (p_priv (procs s2 3))) 6 = Some False"
    by (metis (no_types, lifting))
  then have 1: "\<exists>s1 s2. alert_times (Suc 2) cfg0 2 3 st0 = Some ([OK, OK, OK], s1) \<and>
       mini_receive cfg0 3 (ANY cfg0) 64 0 s1 = Some (OK, s2) \<and>
       m_source (memory s2 3 64) = 2 \<and>
       get_sys_bit (s_notify_pending (p_priv (procs s2 3))) 6 = Some False"
    unfolding v by (auto simp: numeral_2_eq_2)
  have w: "dst_waits cfg0 2 3 st_rdv \<and>
       (p_rts_flags (procs st_rdv 3) AND NOT (RECEIVING cfg0) = 0 \<longrightarrow>
          queue_index cfg0 (p_priority (procs st_rdv 3)) = Some 7 \<and>
          ready_queue st_rdv 7 [1] \<and> (3::int) \<notin> set [1])"
    by (simp add: dst_waits_def queue_index_def ready_queue_def nextready_of_def
          st_rdv_def procs_upd_proc st0_def proc0_def cfg0_def)
  have e: "p_messbuf (procs st_rdv 3) = 64" "p_nr (procs st_rdv 2) = 2"
    "p_rts_flags (procs st_rdv 3) AND NOT (RECEIVING cfg0) = 0"
    by (simp_all add: st_rdv_def procs_upd_proc st0_def proc0_def cfg0_def)
  from mini_alert_coalesce[where cfg=cfg0 and dst=3 and s=st_rdv and S=2 and sid=6 and q=7
      and xs="[1]", OF dst hw sid(2) len(2)] w
  obtain s' where "mini_alert cfg0 2 3 st_rdv = Some (OK, s')"
    "m_source (memory s' 3 64) = 2" "p_rts_flags (procs s' 3) = 0"
    unfolding e by blast
  then have 2: "\<exists>s'. mini_alert cfg0 2 3 st_rdv = Some (OK, s') \<and>
       m_source (memory s' 3 64) = 2 \<and> p_rts_flags (procs s' 3) = 0"
    by blast
  from 1 2 show ?thesis by blast
qed

text \<open>
  A receive from \<open>ANY\<close> takes the pending notifications one per call, the smallest
  source id first: with the id 0 pending at slot 1, the receive after three alerts of
  slot 2 (id 6) delivers the notification of slot -4 and leaves the one of slot 2
  pending for the next receive.
\<close>

lemma mini_receive_any_lowest_first:
  "\<exists>s1 s2. alert_times (Suc 2) cfg0 2 1 st_pend0 = Some ([OK, OK, OK], s1) \<and>
     mini_receive cfg0 1 (ANY cfg0) 32 0 s1 = Some (OK, s2) \<and>
     p_nr (procs st_pend0 2) = 2 \<and> m_source (memory s2 1 32) = - 4 \<and>
     get_sys_bit (s_notify_pending (p_priv (procs s2 1))) 6 = Some True"
proof -
  define s1 where
    "s1 = upd_proc 1 (upd_priv (\<lambda>pr. pr\<lparr>s_notify_pending := [65, 0]\<rparr>)) st_pend0"
  have dst: "isokprocn cfg0 1" and hw: "isokprocn cfg0 (HARDWARE cfg0)"
    by (simp_all add: isokprocn_def cfg0_def)
  have nw: "\<not> dst_waits cfg0 2 1 st_pend0"
    by (simp add: dst_waits_def st_pend0_def procs_upd_proc upd_priv_def st0_def proc0_def cfg0_def)
  have set: "set_sys_bit (s_notify_pending (p_priv (procs st_pend0 1)))
               (s_id (p_priv (procs st_pend0 2))) = Some [65, 0]"
    by (simp add: set_sys_bit_def st_pend0_def procs_upd_proc upd_priv_def st0_def proc0_def
          priv0_def)
  have a: "alert_times (Suc 2) cfg0 2 1 st_pend0 = Some ([OK, OK, OK], s1)"
    using alert_times_pending[OF dst nw set s1_def, of 2] by (simp add: numeral_2_eq_2)
  have p: "[65, 0] = s_notify_pending (p_priv (procs s1 1))"
    by (simp add: s1_def procs_upd_proc upd_priv_def)
  have run: "p_rts_flags (procs s1 1) AND SENDING cfg0 = 0" "(0::int) AND FRESH_ANSWER cfg0 = 0"
    by (simp_all add: s1_def st_pend0_def procs_upd_proc upd_priv_def st0_def proc0_def)
  have k: "(0::nat) < length [65, 0 :: 16 word]" "0 < NR_SYS_CHUNKS cfg0"
    "\<forall>k'<0::nat. [65, 0 :: 16 word] ! k' = 0"
    "bit ([65, 0 :: 16 word] ! 0) 0" "\<forall>i<0::nat. \<not> bit ([65, 0 :: 16 word] ! 0) i"
    "0 * LENGTH(16) + 0 < NR_SYS_PROCS cfg0"
    "ANY cfg0 = ANY cfg0 \<or> ANY cfg0 = id_to_nr cfg0 (0 * LENGTH(16) + 0)"
    by (simp_all add: cfg0_def bit_0)
  from mini_receive_pending[OF run hw p k, of 32]
  obtain s2 where r: "mini_receive cfg0 1 (ANY cfg0) 32 0 s1 = Some (OK, s2)"
    and m: "m_source (memory s2 1 32) = id_to_nr cfg0 (0 * LENGTH(16) + 0)"
    and p2: "s_notify_pending (p_priv (procs s2 1)) =
               [65, 0 :: 16 word][0 := [65, 0] ! 0 AND NOT (push_bit 0 1)]"
    by blast
  have "m_source (memory s2 1 32) = - 4"
    unfolding m by (simp add: cfg0_def)
  moreover have "get_sys_bit (s_notify_pending (p_priv (procs s2 1))) 6 = Some True"
    unfolding p2 by (simp add: get_sys_bit_def)
  moreover have "p_nr (procs st_pend0 2) = 2"
    by (simp add: st_pend0_def procs_upd_proc st0_def proc0_def)
  ultimately show ?thesis
    using a r by blast
qed

text \<open>
  Claim C6 says that \<open>N\<close> alerts of a source \<open>S\<close> for a destination that is not
  receiving, followed by a receive of the destination, yield exactly one notification of
  \<open>S\<close>. The alerts do set the one bit of \<open>S\<close>, but the pickup of \<open>mini_receive\<close>
  looks at the lowest bit set in each chunk only. Below, slot 1 has the notification of
  the id 0 (slot -4) pending; three alerts of slot 2 (id 6) all return \<open>OK\<close> and set
  bit 6 of the same chunk. The receive of slot 1 from slot 2, not blocking, then
  delivers nothing: it returns \<open>ENOTREADY\<close> in the state it was given, the
  notification of slot 2 still pending.
\<close>

theorem mini_alert_receive_skipped:
  "\<exists>s1. alert_times 3 cfg0 2 1 st_pend0 = Some ([OK, OK, OK], s1) \<and>
     p_nr (procs s1 2) = 2 \<and> s_id (p_priv (procs s1 2)) = 6 \<and> id_to_nr cfg0 6 = 2 \<and>
     get_sys_bit (s_notify_pending (p_priv (procs s1 1))) 6 = Some True \<and>
     p_rts_flags (procs s1 1) = 0 \<and>
     mini_receive cfg0 1 2 32 (NON_BLOCKING cfg0) s1 = Some (ENOTREADY, s1)"
proof -
  define s1 where
    "s1 = upd_proc 1 (upd_priv (\<lambda>pr. pr\<lparr>s_notify_pending := [65, 0]\<rparr>)) st_pend0"
  have dst: "isokprocn cfg0 1"
    by (simp add: isokprocn_def cfg0_def)
  have nw: "\<not> dst_waits cfg0 2 1 st_pend0"
    by (simp add: dst_waits_def st_pend0_def procs_upd_proc upd_priv_def st0_def proc0_def cfg0_def)
  have set: "set_sys_bit (s_notify_pending (p_priv (procs st_pend0 1)))
               (s_id (p_priv (procs st_pend0 2))) = Some [65, 0]"
    by (simp add: set_sys_bit_def st_pend0_def procs_upd_proc upd_priv_def st0_def proc0_def
          priv0_def)
  have a: "alert_times 3 cfg0 2 1 st_pend0 = Some ([OK, OK, OK], s1)"
    using alert_times_pending[OF dst nw set s1_def, of 2] by (simp add: numeral_3_eq_3)
  have f: "p_nr (procs s1 2) = 2" "s_id (p_priv (procs s1 2)) = 6" "id_to_nr cfg0 6 = 2"
    "get_sys_bit (s_notify_pending (p_priv (procs s1 1))) 6 = Some True"
    "p_rts_flags (procs s1 1) = 0"
    by (simp_all add: s1_def st_pend0_def procs_upd_proc upd_priv_def get_sys_bit_def
          st0_def proc0_def priv0_def cfg0_def)
  have r: "mini_receive cfg0 1 2 32 (NON_BLOCKING cfg0) s1 = Some (ENOTREADY, s1)"
    by (simp add: mini_receive_def receive_acquire_def receive_block_def find_bit.simps
          ntf_q_scan.simps caller_q_scan.simps upt_rec
          s1_def st_pend0_def procs_upd_proc upd_priv_def st0_def proc0_def priv0_def cfg0_def)
  from a f r show ?thesis by blast
qed

subsection \<open>mini_notify\<close>

lemma find_filter_single:
  "filter P xs = [i] \<Longrightarrow> find P xs = Some i"
  by (induction xs) (auto split: if_splits)

lemma find_None_filter:
  "find P xs = None \<longleftrightarrow> filter P xs = []"
  by (induction xs) auto

lemma notify_replace_scan:
  "nil_path (ntf_next_of s) (get_ntf s l) ns \<Longrightarrow>
   notify_replace src m l s =
     (case find (ntf_match s src (m_type m)) ns of
        Some i \<Rightarrow> Some (Inl (s\<lparr>notify_buffer := (notify_buffer s)
                    (i := (notify_buffer s i)\<lparr>n_flags := NOTIFY_FLAGS m, n_arg := NOTIFY_ARG m\<rparr>)\<rparr>))
      | None \<Rightarrow> Some (Inr (if ns = [] then l else N_next_of (last ns))))"
proof (induction ns arbitrary: l)
  case Nil
  then show ?case by (subst notify_replace.simps) simp
next
  case (Cons n ns)
  have e: "get_ntf s (N_next_of n) = ntf_next_of s n"
    by (simp add: ntf_next_of_def)
  from Cons.prems have g: "get_ntf s l = Some n"
    and p: "nil_path (ntf_next_of s) (get_ntf s (N_next_of n)) ns"
    unfolding e by simp_all
  show ?case
  proof (cases "ntf_match s src (m_type m) n")
    case True
    then show ?thesis
      by (subst notify_replace.simps) (simp add: g ntf_match_def)
  next
    case False
    then have "notify_replace src m l s = notify_replace src m (N_next_of n) s"
      by (subst notify_replace.simps) (auto simp add: g ntf_match_def)
    also note Cons.IH[OF p]
    finally show ?thesis using False
      by (cases "find (ntf_match s src (m_type m)) ns") auto
  qed
qed


lemma alloc_bit_None:
  "alloc_bit b n = None \<longleftrightarrow> (\<forall>i. i < n \<longrightarrow> b i)"
proof (cases "find (\<lambda>i. \<not> b i) [0 ..< n]")
  case None
  then have "\<forall>i. i < n \<longrightarrow> b i"
    by (auto simp add: find_None_iff)
  with None show ?thesis by (simp add: alloc_bit_def)
next
  case (Some x)
  then have "x < n \<and> \<not> b x"
    by (auto simp add: find_Some_iff)
  with Some show ?thesis by (auto simp add: alloc_bit_def)
qed

lemma alloc_bit_Some:
  "alloc_bit b n = Some (a, b') \<Longrightarrow> a < n \<and> \<not> b a \<and> b' = b(a := True)"
  by (auto simp add: alloc_bit_def find_Some_iff split: option.splits)

lemma ntf_overwrite:
  fixes s :: "('v::len, 'b::len) kstate" and i :: nat and f :: int and a :: int
  defines "s' \<equiv> s\<lparr>notify_buffer := (notify_buffer s)
                    (i := (notify_buffer s i)\<lparr>n_flags := f, n_arg := a\<rparr>)\<rparr>"
  shows "ntf_next_of s' = ntf_next_of s" "ntf_match s' = ntf_match s"
    "procs s' = procs s" "memory s' = memory s" "notify_bitmap s' = notify_bitmap s"
    "ntf_queue s' = ntf_queue s"
    "n_flags (notify_buffer s' i) = f" "n_arg (notify_buffer s' i) = a"
proof -
  show n: "ntf_next_of s' = ntf_next_of s"
    by (rule ext) (simp add: ntf_next_of_def s'_def)
  show "ntf_match s' = ntf_match s"
    by (intro ext) (simp add: ntf_match_def s'_def)
  show p: "procs s' = procs s" by (simp add: s'_def)
  show "memory s' = memory s" by (simp add: s'_def)
  show "notify_bitmap s' = notify_bitmap s" by (simp add: s'_def)
  show "ntf_queue s' = ntf_queue s"
    by (intro ext) (simp add: ntf_queue_def n p)
  show "n_flags (notify_buffer s' i) = f" "n_arg (notify_buffer s' i) = a"
    by (simp_all add: s'_def)
qed

lemma notify_append_ENOSPC:
  "alloc_bit (notify_bitmap s) (NR_NOTIFY_BUFS cfg) = None \<Longrightarrow>
   notify_append cfg src m l s = (ENOSPC, s)"
  by (simp add: notify_append_def)

lemma notify_append_OK:
  fixes s :: "('v::len, 'b::len) kstate"
  assumes q: "ntf_queue s d ns"
    and used: "\<forall>i\<in>set ns. notify_bitmap s i"
    and al: "alloc_bit (notify_bitmap s) (NR_NOTIFY_BUFS cfg) = Some (a, b')"
  shows "\<exists>s'. notify_append cfg src m (if ns = [] then P_ntf_q_of d else N_next_of (last ns)) s
                 = (OK, s') \<and>
           ntf_queue s' d (ns @ [a]) \<and>
           notify_bitmap s' = (notify_bitmap s)(a := True) \<and>
           memory s' = memory s \<and>
           (\<forall>x. p_nr (procs s' x) = p_nr (procs s x) \<and>
                p_rts_flags (procs s' x) = p_rts_flags (procs s x) \<and>
                p_getfrom (procs s' x) = p_getfrom (procs s x)) \<and>
           ntf_match s' src (m_type m) a \<and>
           n_flags (notify_buffer s' a) = NOTIFY_FLAGS m \<and>
           n_arg (notify_buffer s' a) = NOTIFY_ARG m \<and>
           (\<forall>j. j \<noteq> a \<longrightarrow> ntf_match s' src (m_type m) j = ntf_match s src (m_type m) j)"
proof -
  from al have a: "\<not> notify_bitmap s a" and b': "b' = (notify_bitmap s)(a := True)"
    by (simp_all add: alloc_bit_Some)
  from a used have ans: "a \<notin> set ns" by auto
  show ?thesis
  proof (cases "ns = []")
    case True
    define s' where "s' = snd (notify_append cfg src m (P_ntf_q_of d) s)"
    have r: "notify_append cfg src m (P_ntf_q_of d) s = (OK, s')"
      by (simp add: s'_def notify_append_def al Let_def)
    have nb: "notify_buffer s' = (notify_buffer s)
        (a := \<lparr>n_source = src, n_type = m_type m, n_flags = NOTIFY_FLAGS m,
               n_arg = NOTIFY_ARG m, n_next = None\<rparr>)"
      by (rule ext) (simp add: s'_def notify_append_def al Let_def upd_proc_def)
    have pr: "procs s' = (procs s)(d := (procs s d)\<lparr>p_ntf_q := Some a\<rparr>)"
      by (simp add: s'_def notify_append_def al Let_def upd_proc_def)
    have bm: "notify_bitmap s' = (notify_bitmap s)(a := True)"
      by (simp add: s'_def notify_append_def al Let_def b' upd_proc_def)
    have mm: "memory s' = memory s"
      by (simp add: s'_def notify_append_def al Let_def upd_proc_def)
    have "ntf_queue s' d (ns @ [a])"
      using True by (simp add: ntf_queue_def pr ntf_next_of_def nb)
    moreover have "\<forall>j. j \<noteq> a \<longrightarrow> ntf_match s' src (m_type m) j = ntf_match s src (m_type m) j"
      by (simp add: ntf_match_def nb)
    moreover have "ntf_match s' src (m_type m) a"
      by (simp add: ntf_match_def nb)
    ultimately show ?thesis
      using r True bm mm by (simp add: pr nb)
  next
    case False
    define l where "l = last ns"
    from False have lns: "l \<in> set ns" by (simp add: l_def)
    with ans have la: "l \<noteq> a" by auto
    define s' where "s' = snd (notify_append cfg src m (N_next_of l) s)"
    have r: "notify_append cfg src m (N_next_of l) s = (OK, s')"
      by (simp add: s'_def notify_append_def al Let_def)
    have nb: "notify_buffer s' = (notify_buffer s)
        (l := (notify_buffer s l)\<lparr>n_next := Some a\<rparr>,
         a := \<lparr>n_source = src, n_type = m_type m, n_flags = NOTIFY_FLAGS m,
               n_arg = NOTIFY_ARG m, n_next = None\<rparr>)"
      using la by (intro ext) (simp add: s'_def notify_append_def al Let_def)
    have pr: "procs s' = procs s"
      by (simp add: s'_def notify_append_def al Let_def)
    have bm: "notify_bitmap s' = (notify_bitmap s)(a := True)"
      by (simp add: s'_def notify_append_def al Let_def b')
    have mm: "memory s' = memory s"
      by (simp add: s'_def notify_append_def al Let_def)
    have nx: "ntf_next_of s' = (ntf_next_of s)(last ns := Some a, a := None)"
      using la by (intro ext) (simp add: ntf_next_of_def nb l_def)
    from q have "nil_path (ntf_next_of s) (p_ntf_q (procs s d)) ns"
      by (simp add: ntf_queue_def)
    from nil_path_snoc[OF this False ans]
    have "ntf_queue s' d (ns @ [a])"
      unfolding ntf_queue_def nx pr .
    moreover have "\<forall>j. j \<noteq> a \<longrightarrow> ntf_match s' src (m_type m) j = ntf_match s src (m_type m) j"
      by (simp add: ntf_match_def nb)
    moreover have "ntf_match s' src (m_type m) a"
      by (simp add: ntf_match_def nb)
    ultimately show ?thesis
      using r False bm mm by (simp add: pr nb l_def)
  qed
qed

lemma mini_notify_queue:
  fixes s :: "('v::len, 'b::len) kstate"
  assumes d: "isokprocn cfg dst"
    and hw: "iskernelp cfg (procs s caller_ptr) \<or> isokprocn cfg (HARDWARE cfg)"
    and w: "\<not> dst_waits cfg caller_ptr dst s"
    and q: "ntf_queue s dst ns"
  shows "mini_notify cfg caller_ptr dst m_ptr s =
     (case find (ntf_match s (p_nr (procs s caller_ptr)) (m_type (memory s caller_ptr m_ptr))) ns of
        Some i \<Rightarrow> Some (OK, s\<lparr>notify_buffer := (notify_buffer s)
                    (i := (notify_buffer s i)
                       \<lparr>n_flags := NOTIFY_FLAGS (memory s caller_ptr m_ptr),
                        n_arg := NOTIFY_ARG (memory s caller_ptr m_ptr)\<rparr>)\<rparr>)
      | None \<Rightarrow> Some (notify_append cfg (p_nr (procs s caller_ptr)) (memory s caller_ptr m_ptr)
                        (if ns = [] then P_ntf_q_of dst else N_next_of (last ns)) s))"
proof -
  from q have "nil_path (ntf_next_of s) (get_ntf s (P_ntf_q_of dst)) ns"
    by (simp add: ntf_queue_def)
  note sc = notify_replace_scan[OF this, of "p_nr (procs s caller_ptr)" "memory s caller_ptr m_ptr"]
  from hw have m: "(if \<not> iskernelp cfg (procs s caller_ptr)
              then do { hw \<leftarrow> proc_addr cfg (HARDWARE cfg); Some (memory s caller_ptr m_ptr) }
              else Some (memory s caller_ptr m_ptr)) = Some (memory s caller_ptr m_ptr)"
    by (auto simp add: proc_addr_def)
  show ?thesis
    unfolding mini_notify_def m
    using d w by (simp add: proc_addr_def sc split: option.splits)
qed


lemma mini_notify_match:
  fixes s :: "('v::len, 'b::len) kstate"
  assumes d: "isokprocn cfg dst"
    and hw: "iskernelp cfg (procs s caller_ptr) \<or> isokprocn cfg (HARDWARE cfg)"
    and w: "\<not> dst_waits cfg caller_ptr dst s"
    and q: "ntf_queue s dst ns"
    and f: "filter (ntf_match s (p_nr (procs s caller_ptr)) (m_type (memory s caller_ptr m_ptr))) ns = [i]"
  shows "\<exists>s1. mini_notify cfg caller_ptr dst m_ptr s = Some (OK, s1) \<and>
           ntf_queue s1 dst ns \<and> notify_bitmap s1 = notify_bitmap s \<and>
           memory s1 = memory s \<and> procs s1 = procs s \<and>
           ntf_match s1 = ntf_match s \<and>
           n_flags (notify_buffer s1 i) = NOTIFY_FLAGS (memory s caller_ptr m_ptr) \<and>
           n_arg (notify_buffer s1 i) = NOTIFY_ARG (memory s caller_ptr m_ptr)"
proof -
  from f have "find (ntf_match s (p_nr (procs s caller_ptr)) (m_type (memory s caller_ptr m_ptr))) ns
                 = Some i"
    by (rule find_filter_single)
  with mini_notify_queue[OF d hw w q, of m_ptr] q show ?thesis
    by (simp add: ntf_overwrite)
qed

lemma mini_notify_fresh:
  fixes s :: "('v::len, 'b::len) kstate"
  assumes d: "isokprocn cfg dst"
    and hw: "iskernelp cfg (procs s caller_ptr) \<or> isokprocn cfg (HARDWARE cfg)"
    and w: "\<not> dst_waits cfg caller_ptr dst s"
    and q: "ntf_queue s dst ns"
    and used: "\<forall>i\<in>set ns. notify_bitmap s i"
    and f: "filter (ntf_match s (p_nr (procs s caller_ptr)) (m_type (memory s caller_ptr m_ptr))) ns = []"
    and free: "\<not> (\<forall>i. i < NR_NOTIFY_BUFS cfg \<longrightarrow> notify_bitmap s i)"
  shows "\<exists>s1 a. mini_notify cfg caller_ptr dst m_ptr s = Some (OK, s1) \<and>
           a < NR_NOTIFY_BUFS cfg \<and> \<not> notify_bitmap s a \<and>
           ntf_queue s1 dst (ns @ [a]) \<and> notify_bitmap s1 = (notify_bitmap s)(a := True) \<and>
           memory s1 = memory s \<and>
           (\<forall>x. p_nr (procs s1 x) = p_nr (procs s x) \<and>
                p_rts_flags (procs s1 x) = p_rts_flags (procs s x) \<and>
                p_getfrom (procs s1 x) = p_getfrom (procs s x)) \<and>
           filter (ntf_match s1 (p_nr (procs s caller_ptr)) (m_type (memory s caller_ptr m_ptr)))
             (ns @ [a]) = [a] \<and>
           n_flags (notify_buffer s1 a) = NOTIFY_FLAGS (memory s caller_ptr m_ptr) \<and>
           n_arg (notify_buffer s1 a) = NOTIFY_ARG (memory s caller_ptr m_ptr)"
proof -
  let ?S = "p_nr (procs s caller_ptr)" and ?m = "memory s caller_ptr m_ptr"
  from f have fn: "find (ntf_match s ?S (m_type ?m)) ns = None"
    by (simp add: find_None_filter)
  from free obtain a b' where al: "alloc_bit (notify_bitmap s) (NR_NOTIFY_BUFS cfg) = Some (a, b')"
    using alloc_bit_None[of "notify_bitmap s" "NR_NOTIFY_BUFS cfg"] by fastforce
  from alloc_bit_Some[OF al] have a: "a < NR_NOTIFY_BUFS cfg" "\<not> notify_bitmap s a"
    by simp_all
  from a used have ans: "a \<notin> set ns" by auto
  from notify_append_OK[OF q used al, of ?S ?m]
  obtain s1 where r: "notify_append cfg ?S ?m (if ns = [] then P_ntf_q_of dst else N_next_of (last ns)) s
                 = (OK, s1)"
    and q1: "ntf_queue s1 dst (ns @ [a])"
    and bm: "notify_bitmap s1 = (notify_bitmap s)(a := True)"
    and mm: "memory s1 = memory s"
    and pr: "\<forall>x. p_nr (procs s1 x) = p_nr (procs s x) \<and>
                p_rts_flags (procs s1 x) = p_rts_flags (procs s x) \<and>
                p_getfrom (procs s1 x) = p_getfrom (procs s x)"
    and ma: "ntf_match s1 ?S (m_type ?m) a"
    and fl: "n_flags (notify_buffer s1 a) = NOTIFY_FLAGS ?m"
    and ar: "n_arg (notify_buffer s1 a) = NOTIFY_ARG ?m"
    and ot: "\<forall>j. j \<noteq> a \<longrightarrow> ntf_match s1 ?S (m_type ?m) j = ntf_match s ?S (m_type ?m) j"
    by blast
  have "filter (ntf_match s1 ?S (m_type ?m)) ns = filter (ntf_match s ?S (m_type ?m)) ns"
    using ans ot by (intro filter_cong) auto
  with f ma have fa: "filter (ntf_match s1 ?S (m_type ?m)) (ns @ [a]) = [a]"
    by simp
  from mini_notify_queue[OF d hw w q, of m_ptr] fn r
  have "mini_notify cfg caller_ptr dst m_ptr s = Some (OK, s1)"
    by simp
  with a q1 bm mm pr fa fl ar show ?thesis
    by blast
qed

lemma mini_notify_full:
  fixes s :: "('v::len, 'b::len) kstate"
  assumes d: "isokprocn cfg dst"
    and hw: "iskernelp cfg (procs s caller_ptr) \<or> isokprocn cfg (HARDWARE cfg)"
    and w: "\<not> dst_waits cfg caller_ptr dst s"
    and q: "ntf_queue s dst ns"
    and f: "filter (ntf_match s (p_nr (procs s caller_ptr)) (m_type (memory s caller_ptr m_ptr))) ns = []"
    and full: "\<forall>i. i < NR_NOTIFY_BUFS cfg \<longrightarrow> notify_bitmap s i"
  shows "mini_notify cfg caller_ptr dst m_ptr s = Some (ENOSPC, s)"
proof -
  from f have fn: "find (ntf_match s (p_nr (procs s caller_ptr)) (m_type (memory s caller_ptr m_ptr))) ns = None"
    by (simp add: find_None_filter)
  from full have "alloc_bit (notify_bitmap s) (NR_NOTIFY_BUFS cfg) = None"
    by (simp add: alloc_bit_None)
  with mini_notify_queue[OF d hw w q, of m_ptr] fn show ?thesis
    by (simp add: notify_append_ENOSPC)
qed

lemma filter_le_one:
  "length (filter P xs) \<le> 1 \<Longrightarrow> filter P xs \<noteq> [] \<Longrightarrow> \<exists>i. filter P xs = [i]"
  by (cases "filter P xs") (auto simp add: length_Suc_conv)

text \<open>
  Claim C5. A process \<open>caller_ptr\<close> of number \<open>S\<close> notifies \<open>dst\<close> twice with
  messages of type \<open>t\<close>, while \<open>dst\<close> does not wait for it. The notification queue of \<open>dst\<close> is a
  well-formed list \<open>ns\<close> of records in use that holds at most one record of \<open>(S, t)\<close>.
  The first call fails with \<open>ENOSPC\<close>, changing nothing, exactly when no record of
  \<open>(S, t)\<close> is queued and no buffer is free. Otherwise it returns \<open>OK\<close>: a record that
  is there is kept (the queue and the bit map of the buffers are as before), else a free
  buffer is taken and appended at the tail. The second call then returns \<open>OK\<close>, takes
  no buffer and leaves the queue as it is, with exactly one record of \<open>(S, t)\<close>, which
  holds the flags and the argument of the second message.
\<close>

theorem mini_notify_replace:
  fixes s :: "('v::len, 'b::len) kstate"
  assumes d: "isokprocn cfg dst"
    and hw: "iskernelp cfg (procs s caller_ptr) \<or> isokprocn cfg (HARDWARE cfg)"
    and w: "\<not> dst_waits cfg caller_ptr dst s"
    and q: "ntf_queue s dst ns"
    and used: "\<forall>i\<in>set ns. notify_bitmap s i"
    and one: "length (filter (ntf_match s S t) ns) \<le> 1"
    and S: "S = p_nr (procs s caller_ptr)"
    and t1: "m_type (memory s caller_ptr m1) = t"
    and t2: "m_type (memory s caller_ptr m2) = t"
  shows "\<exists>r1 s1. mini_notify cfg caller_ptr dst m1 s = Some (r1, s1) \<and>
     (if filter (ntf_match s S t) ns = [] \<and> (\<forall>i. i < NR_NOTIFY_BUFS cfg \<longrightarrow> notify_bitmap s i)
      then r1 = ENOSPC \<and> s1 = s
      else r1 = OK \<and>
        (\<exists>ns1. ntf_queue s1 dst ns1 \<and>
           (if filter (ntf_match s S t) ns = []
            then \<exists>a. a < NR_NOTIFY_BUFS cfg \<and> \<not> notify_bitmap s a \<and> ns1 = ns @ [a] \<and>
                     notify_bitmap s1 = (notify_bitmap s)(a := True)
            else ns1 = ns \<and> notify_bitmap s1 = notify_bitmap s) \<and>
           (\<exists>s2. mini_notify cfg caller_ptr dst m2 s1 = Some (OK, s2) \<and>
                 notify_bitmap s2 = notify_bitmap s1 \<and> ntf_queue s2 dst ns1 \<and>
                 (\<exists>i. filter (ntf_match s2 S t) ns1 = [i] \<and>
                      n_flags (notify_buffer s2 i) = NOTIFY_FLAGS (memory s caller_ptr m2) \<and>
                      n_arg (notify_buffer s2 i) = NOTIFY_ARG (memory s caller_ptr m2)))))"
proof -
  have second: "\<exists>s2. mini_notify cfg caller_ptr dst m2 s1 = Some (OK, s2) \<and>
                 notify_bitmap s2 = notify_bitmap s1 \<and> ntf_queue s2 dst ns1 \<and>
                 (\<exists>i. filter (ntf_match s2 S t) ns1 = [i] \<and>
                      n_flags (notify_buffer s2 i) = NOTIFY_FLAGS (memory s caller_ptr m2) \<and>
                      n_arg (notify_buffer s2 i) = NOTIFY_ARG (memory s caller_ptr m2))"
    if q1: "ntf_queue s1 dst ns1" and f1: "filter (ntf_match s1 S t) ns1 = [i]"
      and mm: "memory s1 = memory s"
      and pr: "\<forall>x. p_nr (procs s1 x) = p_nr (procs s x) \<and>
                p_rts_flags (procs s1 x) = p_rts_flags (procs s x) \<and>
                p_getfrom (procs s1 x) = p_getfrom (procs s x)"
    for s1 :: "('v, 'b) kstate" and ns1 i
  proof -
    from hw pr have hw1: "iskernelp cfg (procs s1 caller_ptr) \<or> isokprocn cfg (HARDWARE cfg)"
      by (simp add: iskernelp_def)
    from w pr have w1: "\<not> dst_waits cfg caller_ptr dst s1"
      by (simp add: dst_waits_def)
    from f1 pr have f1': "filter (ntf_match s1 (p_nr (procs s1 caller_ptr))
                            (m_type (memory s1 caller_ptr m2))) ns1 = [i]"
      by (simp add: S mm t2)
    from mini_notify_match[OF d hw1 w1 q1 f1']
    obtain s2 where r2: "mini_notify cfg caller_ptr dst m2 s1 = Some (OK, s2)"
      and q2: "ntf_queue s2 dst ns1" and b2: "notify_bitmap s2 = notify_bitmap s1"
      and m2: "ntf_match s2 = ntf_match s1"
      and fl: "n_flags (notify_buffer s2 i) = NOTIFY_FLAGS (memory s1 caller_ptr m2)"
      and ar: "n_arg (notify_buffer s2 i) = NOTIFY_ARG (memory s1 caller_ptr m2)"
      by blast
    from r2 q2 b2 m2 fl ar f1 show ?thesis
      by (simp add: mm)
  qed
  show ?thesis
  proof (cases "filter (ntf_match s S t) ns = []")
    case True
    then have f: "filter (ntf_match s (p_nr (procs s caller_ptr)) (m_type (memory s caller_ptr m1))) ns = []"
      by (simp add: S t1)
    show ?thesis
    proof (cases "\<forall>i. i < NR_NOTIFY_BUFS cfg \<longrightarrow> notify_bitmap s i")
      case full: True
      from mini_notify_full[OF d hw w q f full] True full show ?thesis
        by simp
    next
      case free: False
      from mini_notify_fresh[OF d hw w q used f free]
      obtain s1 a where r1: "mini_notify cfg caller_ptr dst m1 s = Some (OK, s1)"
        and a: "a < NR_NOTIFY_BUFS cfg" "\<not> notify_bitmap s a"
        and q1: "ntf_queue s1 dst (ns @ [a])"
        and b1: "notify_bitmap s1 = (notify_bitmap s)(a := True)"
        and mm: "memory s1 = memory s"
        and pr: "\<forall>x. p_nr (procs s1 x) = p_nr (procs s x) \<and>
                p_rts_flags (procs s1 x) = p_rts_flags (procs s x) \<and>
                p_getfrom (procs s1 x) = p_getfrom (procs s x)"
        and f1: "filter (ntf_match s1 (p_nr (procs s caller_ptr)) (m_type (memory s caller_ptr m1)))
                   (ns @ [a]) = [a]"
        by blast
      from f1 have f1': "filter (ntf_match s1 S t) (ns @ [a]) = [a]"
        by (simp add: S t1)
      from second[OF q1 f1' mm pr] r1 a q1 b1 True free show ?thesis
        by auto
    qed
  next
    case False
    with one obtain i where fi: "filter (ntf_match s S t) ns = [i]"
      using filter_le_one by blast
    then have f: "filter (ntf_match s (p_nr (procs s caller_ptr)) (m_type (memory s caller_ptr m1))) ns = [i]"
      by (simp add: S t1)
    from mini_notify_match[OF d hw w q f]
    obtain s1 where r1: "mini_notify cfg caller_ptr dst m1 s = Some (OK, s1)"
      and q1: "ntf_queue s1 dst ns" and b1: "notify_bitmap s1 = notify_bitmap s"
      and mm: "memory s1 = memory s" and pr: "procs s1 = procs s"
      and m1: "ntf_match s1 = ntf_match s"
      by blast
    from fi m1 have f1: "filter (ntf_match s1 S t) ns = [i]" by simp
    from pr have pr': "\<forall>x. p_nr (procs s1 x) = p_nr (procs s x) \<and>
                p_rts_flags (procs s1 x) = p_rts_flags (procs s x) \<and>
                p_getfrom (procs s1 x) = p_getfrom (procs s x)"
      by simp
    from second[OF q1 f1 mm pr'] r1 q1 b1 False show ?thesis
      by auto
  qed
qed


theorem mini_notify_replace_witness:
  "\<exists>s1 s2 a. mini_notify cfg0 2 3 32 st_ntf = Some (OK, s1) \<and>
      ntf_queue s1 3 [a] \<and> notify_bitmap s1 = (notify_bitmap st_ntf)(a := True) \<and>
      mini_notify cfg0 2 3 64 s1 = Some (OK, s2) \<and>
      notify_bitmap s2 = notify_bitmap s1 \<and> ntf_queue s2 3 [a] \<and>
      ntf_match s2 2 7 a \<and> n_flags (notify_buffer s2 a) = 2 \<and> n_arg (notify_buffer s2 a) = 22"
proof -
  have d: "isokprocn cfg0 3" and hw: "iskernelp cfg0 (procs st_ntf 2) \<or> isokprocn cfg0 (HARDWARE cfg0)"
    by (simp_all add: isokprocn_def cfg0_def)
  have w: "\<not> dst_waits cfg0 2 3 st_ntf"
    by (simp add: dst_waits_def st_ntf_def st0_def proc0_def cfg0_def)
  have q: "ntf_queue st_ntf 3 []"
    by (simp add: ntf_queue_def st_ntf_def st0_def proc0_def)
  have used: "\<forall>i\<in>set []. notify_bitmap st_ntf i" and one: "length (filter (ntf_match st_ntf 2 7) []) \<le> 1"
    by simp_all
  have S: "(2::int) = p_nr (procs st_ntf 2)"
    by (simp add: st_ntf_def st0_def proc0_def)
  have t1: "m_type (memory st_ntf 2 32) = 7" and t2: "m_type (memory st_ntf 2 64) = 7"
    by (simp_all add: st_ntf_def)
  have free: "\<not> (\<forall>i. i < NR_NOTIFY_BUFS cfg0 \<longrightarrow> notify_bitmap st_ntf i)"
    by (auto simp add: st_ntf_def st0_def cfg0_def intro: exI[of _ 0])
  have v: "NOTIFY_FLAGS (memory st_ntf 2 64) = 2" "NOTIFY_ARG (memory st_ntf 2 64) = 22"
    by (simp_all add: st_ntf_def)
  from mini_notify_replace[OF d hw w q used one S t1 t2] free
  obtain s1 s2 a i where "mini_notify cfg0 2 3 32 st_ntf = Some (OK, s1)"
    "ntf_queue s1 3 [a]" "notify_bitmap s1 = (notify_bitmap st_ntf)(a := True)"
    "mini_notify cfg0 2 3 64 s1 = Some (OK, s2)"
    "notify_bitmap s2 = notify_bitmap s1" "ntf_queue s2 3 [a]"
    "filter (ntf_match s2 2 7) [a] = [i]"
    "n_flags (notify_buffer s2 i) = 2" "n_arg (notify_buffer s2 i) = 22"
    unfolding v by (auto split: if_splits)
  moreover from this have "i = a \<and> ntf_match s2 2 7 a"
    by (auto split: if_splits)
  ultimately show ?thesis
    by blast
qed

section \<open>Properties of sched\<close>

lemma unready_loop_absent:
  "nil_path (nextready_of s) (get_link s xpp) xs \<Longrightarrow> rp \<notin> set xs \<Longrightarrow>
   unready_loop cfg rp q xpp prev_xp s = Some s"
proof (induction xs arbitrary: xpp prev_xp)
  case Nil
  then show ?case by (subst unready_loop.simps) simp
next
  case (Cons x xs)
  have e: "get_link s (P_nextready_of x) = nextready_of s x"
    by (simp add: nextready_of_def)
  from Cons.prems have g: "get_link s xpp = Some x" and x: "x \<noteq> rp"
    and p: "nil_path (nextready_of s) (get_link s (P_nextready_of x)) xs" and n: "rp \<notin> set xs"
    unfolding e by auto
  have "unready_loop cfg rp q xpp prev_xp s = unready_loop cfg rp q (P_nextready_of x) (Some x) s"
    by (subst unready_loop.simps) (simp add: g x)
  also have "\<dots> = Some s"
    using p n by (rule Cons.IH)
  finally show ?case .
qed

lemma unready_loop_found:
  "nil_path (nextready_of s) (get_link s xpp) (pre @ rp # post) \<Longrightarrow> rp \<notin> set pre \<Longrightarrow>
   unready_loop cfg rp q xpp prev_xp s =
     Some (unready_found cfg rp q (if pre = [] then xpp else P_nextready_of (last pre))
             (if pre = [] then prev_xp else Some (last pre)) s)"
proof (induction pre arbitrary: xpp prev_xp)
  case Nil
  then show ?case by (subst unready_loop.simps) simp
next
  case (Cons x pre)
  have e: "get_link s (P_nextready_of x) = nextready_of s x"
    by (simp add: nextready_of_def)
  from Cons.prems have g: "get_link s xpp = Some x" and x: "x \<noteq> rp"
    and p: "nil_path (nextready_of s) (get_link s (P_nextready_of x)) (pre @ rp # post)"
    and n: "rp \<notin> set pre"
    unfolding e by auto
  have "unready_loop cfg rp q xpp prev_xp s = unready_loop cfg rp q (P_nextready_of x) (Some x) s"
    by (subst unready_loop.simps) (simp add: g x)
  also note Cons.IH[OF p n, of "Some x"]
  finally show ?case by simp
qed


lemma ready_queue_unready_found:
  fixes s :: "('v::len, 'b::len) kstate" and cfg :: kconfig
  assumes xs: "ready_queue s q (pre @ rp # post)"
  defines "s' \<equiv> unready_found cfg rp q
                   (if pre = [] then Rdy_head_of q else P_nextready_of (last pre))
                   (if pre = [] then None else Some (last pre)) s"
  shows "ready_queue s' q (pre @ post)"
    and "\<And>q' zs. q' \<noteq> q \<Longrightarrow> ready_queue s q' zs \<Longrightarrow> set zs \<inter> set (pre @ rp # post) = {}
           \<Longrightarrow> ready_queue s' q' zs"
    and "\<And>x. procs s' x = (if pre \<noteq> [] \<and> x = last pre
                            then (procs s x)\<lparr>p_nextready := p_nextready (procs s rp)\<rparr>
                            else procs s x)"
    and "\<And>q'. q' \<noteq> q \<Longrightarrow> rdy_head s' q' = rdy_head s q' \<and> rdy_tail s' q' = rdy_tail s q'"
    and "memory s' = memory s" and "proc_ptr s' = proc_ptr s"
proof -
  let ?nxt = "nextready_of s"
  from xs have p: "nil_path ?nxt (rdy_head s q) (pre @ rp # post)"
    and t: "rdy_tail s q = Some (last (rp # post))"
    by (simp_all add: ready_queue_def)
  from nil_path_distinct[OF p] have d: "distinct (pre @ rp # post)" .
  from nil_path_suffix[OF p] have pp: "nil_path ?nxt (?nxt rp) post"
    by simp
  have tl: "(Some rp = rdy_tail s q) = (post = [])"
    using t d by (cases "post = []") auto
  let ?u = "(if pre = [] then s\<lparr>rdy_head := (rdy_head s)(q := ?nxt rp)\<rparr>
            else upd_proc (last pre) (\<lambda>p. p\<lparr>p_nextready := ?nxt rp\<rparr>) s)"
  let ?v = "(if post = [] then ?u\<lparr>rdy_tail := (rdy_tail s)(q := if pre = [] then None else Some (last pre))\<rparr>
            else ?u)"
  have s': "s' = (if Some rp = proc_ptr s \<or> Some rp = next_ptr s then pick_proc cfg ?v else ?v)"
    unfolding s'_def unready_found_def Let_def
    by (cases "pre = []"; cases "post = []") (simp_all add: tl nextready_of_def)
  have hv: "rdy_head ?v = (if pre = [] then (rdy_head s)(q := ?nxt rp) else rdy_head s)"
    and tv: "rdy_tail ?v = (if post = [] then (rdy_tail s)(q := if pre = [] then None else Some (last pre))
                            else rdy_tail s)"
    and nv: "nextready_of ?v = (if pre = [] then ?nxt else ?nxt(last pre := ?nxt rp))"
    by (simp_all add: nextready_of_upd_proc)
  have qv: "ready_queue ?v q (pre @ post)"
  proof (cases "pre = []")
    case True
    with pp t show ?thesis
      unfolding ready_queue_def hv tv nv by simp
  next
    case False
    from nil_path_remove[OF p False]
    have "nil_path (?nxt(last pre := ?nxt rp)) (rdy_head s q) (pre @ post)" .
    with False t show ?thesis
      unfolding ready_queue_def hv tv nv by simp
  qed
  have ov: "ready_queue ?v q' zs"
    if "q' \<noteq> q" "ready_queue s q' zs" "set zs \<inter> set (pre @ rp # post) = {}" for q' zs
  proof -
    have "pre \<noteq> [] \<Longrightarrow> last pre \<notin> set zs"
      using that(3) by (metis Int_iff Un_iff empty_iff last_in_set set_append)
    with that(1,2) show ?thesis
      unfolding ready_queue_def hv tv nv by (simp add: nil_path_upd)
  qed
  have pv: "procs ?v x = (if pre \<noteq> [] \<and> x = last pre
                           then (procs s x)\<lparr>p_nextready := p_nextready (procs s rp)\<rparr>
                           else procs s x)" for x
    by (simp add: procs_upd_proc nextready_of_def)
  show "ready_queue s' q (pre @ post)"
    using qv unfolding s' by simp
  show "ready_queue s' q' zs"
    if "q' \<noteq> q" "ready_queue s q' zs" "set zs \<inter> set (pre @ rp # post) = {}" for q' zs
    using ov[OF that] unfolding s' by simp
  have ps: "procs s' = procs ?v"
    unfolding s' by (cases "Some rp = proc_ptr s \<or> Some rp = next_ptr s") simp_all
  show "procs s' x = (if pre \<noteq> [] \<and> x = last pre
                           then (procs s x)\<lparr>p_nextready := p_nextready (procs s rp)\<rparr>
                           else procs s x)" for x
    unfolding ps by (rule pv)
  show "rdy_head s' q' = rdy_head s q' \<and> rdy_tail s' q' = rdy_tail s q'" if "q' \<noteq> q" for q'
    using that unfolding s' by (simp add: hv tv)
  show "memory s' = memory s" "proc_ptr s' = proc_ptr s"
    unfolding s' by simp_all
qed


lemma ready_queue_upd_proc:
  "(\<And>p. p_nextready (f p) = p_nextready p) \<Longrightarrow>
   ready_queue (upd_proc n f s) q xs = ready_queue s q xs"
  by (intro ready_queue_cong ext) (simp_all add: nextready_of_def procs_upd_proc)

text \<open>What \<open>unready\<close> does to the queue of the priority of \<open>rp\<close>, to the other queues
  and to the slots.\<close>

lemma ready_queue_unready:
  fixes s :: "('v::len, 'b::len) kstate"
  assumes g: "\<not> (iskernelp cfg (procs s rp) \<and>
                 s_stack_guard (p_priv (procs s rp)) \<noteq> STACK_GUARD cfg)"
    and q: "queue_index cfg (p_priority (procs s rp)) = Some q"
    and xs: "ready_queue s q xs"
  shows "\<exists>s'. unready cfg rp s = Some s' \<and>
           ready_queue s' q (filter (\<lambda>x. x \<noteq> rp) xs) \<and>
           (\<forall>q' zs. q' \<noteq> q \<and> ready_queue s q' zs \<and> set zs \<inter> set xs = {}
                \<longrightarrow> ready_queue s' q' zs) \<and>
           (\<forall>x. x \<noteq> rp \<longrightarrow> (procs s' x)\<lparr>p_nextready := p_nextready (procs s x)\<rparr> = procs s x) \<and>
           procs s' rp = (procs s rp)\<lparr>p_priority := p_max_priority (procs s rp),
                            p_full_quantums := QUANTUMS cfg (p_max_priority (procs s rp))\<rparr> \<and>
           (\<forall>q'. q' \<noteq> q \<longrightarrow> rdy_head s' q' = rdy_head s q' \<and> rdy_tail s' q' = rdy_tail s q') \<and>
           memory s' = memory s \<and> proc_ptr s' = proc_ptr s"
proof -
  let ?fin = "\<lambda>s1. upd_proc rp (\<lambda>p. p\<lparr>p_full_quantums := QUANTUMS cfg (p_priority p)\<rparr>)
                     (upd_proc rp (\<lambda>p. p\<lparr>p_priority := p_max_priority p\<rparr>) s1)"
  have un: "unready cfg rp s = map_option ?fin (unready_loop cfg rp q (Rdy_head_of q) None s)"
    using g q by (simp add: unready_def Let_def map_option_case split: option.splits)
  have rq: "ready_queue (?fin s1) q' zs = ready_queue s1 q' zs" for s1 :: "('v, 'b) kstate" and q' zs
    by (simp add: ready_queue_upd_proc)
  have pf: "procs (?fin s1) x =
              (if x = rp then (procs s1 rp)\<lparr>p_priority := p_max_priority (procs s1 rp),
                                 p_full_quantums := QUANTUMS cfg (p_max_priority (procs s1 rp))\<rparr>
               else procs s1 x)" for s1 :: "('v, 'b) kstate" and x
    by (simp add: procs_upd_proc)
  from xs have p: "nil_path (nextready_of s) (get_link s (Rdy_head_of q)) xs"
    by (simp add: ready_queue_def)
  show ?thesis
  proof (cases "rp \<in> set xs")
    case False
    then have f: "filter (\<lambda>x. x \<noteq> rp) xs = xs"
      by (induction xs) auto
    from unready_loop_absent[OF p False] have "unready cfg rp s = Some (?fin s)"
      unfolding un by simp
    then show ?thesis
      using xs by (intro exI[of _ "?fin s"]) (simp add: rq pf f)
  next
    case True
    then obtain pre post where sp: "xs = pre @ rp # post" and np: "rp \<notin> set pre"
      by (auto dest: split_list_first)
    from ready_queue_distinct[OF xs] have d: "distinct (pre @ rp # post)"
      by (simp add: sp)
    then have f: "filter (\<lambda>x. x \<noteq> rp) xs = pre @ post"
      unfolding sp using np by (simp add: filter_id_conv) (metis (mono_tags, lifting) filter_True)
    define s1 where "s1 = unready_found cfg rp q
                   (if pre = [] then Rdy_head_of q else P_nextready_of (last pre))
                   (if pre = [] then None else Some (last pre)) s"
    note uf = ready_queue_unready_found[OF xs[unfolded sp], where cfg=cfg, folded s1_def]
    from unready_loop_found[OF p[unfolded sp] np] have "unready cfg rp s = Some (?fin s1)"
      unfolding un s1_def by simp
    moreover have "ready_queue (?fin s1) q (filter (\<lambda>x. x \<noteq> rp) xs)"
      unfolding rq f by (rule uf(1))
    moreover have "\<forall>q' zs. q' \<noteq> q \<and> ready_queue s q' zs \<and> set zs \<inter> set xs = {}
                \<longrightarrow> ready_queue (?fin s1) q' zs"
      unfolding rq sp using uf(2) by blast
    moreover have "\<forall>x. x \<noteq> rp \<longrightarrow>
        (procs (?fin s1) x)\<lparr>p_nextready := p_nextready (procs s x)\<rparr> = procs s x"
      unfolding pf uf(3) by simp
    moreover have "pre \<noteq> [] \<Longrightarrow> rp \<noteq> last pre"
      using np by (metis last_in_set)
    then have "procs (?fin s1) rp = (procs s rp)\<lparr>p_priority := p_max_priority (procs s rp),
                            p_full_quantums := QUANTUMS cfg (p_max_priority (procs s rp))\<rparr>"
      unfolding pf uf(3) by auto
    moreover have "\<forall>q'. q' \<noteq> q \<longrightarrow> rdy_head (?fin s1) q' = rdy_head s q' \<and>
                      rdy_tail (?fin s1) q' = rdy_tail s q'"
      using uf(4) by simp
    moreover have "memory (?fin s1) = memory s" "proc_ptr (?fin s1) = proc_ptr s"
      using uf(5,6) by simp_all
    ultimately show ?thesis
      by (intro exI[of _ "?fin s1"]) (simp only: simp_thms)
  qed
qed

text \<open>The four assignments of \<open>sched\<close> move the head of a queue to its tail.\<close>

lemma ready_queue_rotate:
  fixes s :: "('v::len, 'b::len) kstate"
  assumes xs: "ready_queue s q (x # xs)"
  shows "\<exists>s'. rotate_queue q s = Some s' \<and>
           ready_queue s' q (xs @ [x]) \<and>
           (\<forall>q' zs. q' \<noteq> q \<and> ready_queue s q' zs \<and> set zs \<inter> set (x # xs) = {}
                \<longrightarrow> ready_queue s' q' zs) \<and>
           (\<forall>y. (procs s' y)\<lparr>p_nextready := p_nextready (procs s y)\<rparr> = procs s y) \<and>
           (\<forall>q'. q' \<noteq> q \<longrightarrow> rdy_head s' q' = rdy_head s q' \<and> rdy_tail s' q' = rdy_tail s q') \<and>
           memory s' = memory s \<and> proc_ptr s' = proc_ptr s \<and>
           next_ptr s' = next_ptr s \<and> bill_ptr s' = bill_ptr s"
proof -
  let ?nxt = "nextready_of s"
  let ?t = "last (x # xs)"
  from xs have h: "rdy_head s q = Some x" and t: "rdy_tail s q = Some ?t"
    and p: "nil_path ?nxt (?nxt x) xs"
    by (simp_all add: ready_queue_def)
  from ready_queue_distinct[OF xs] have d: "x \<notin> set xs" by simp
  define s' where "s' = upd_proc x (\<lambda>p. p\<lparr>p_nextready := None\<rparr>)
      ((upd_proc ?t (\<lambda>p. p\<lparr>p_nextready := Some x\<rparr>) s)
         \<lparr>rdy_tail := (rdy_tail s)(q := Some x),
          rdy_head := (rdy_head s)(q := if xs = [] then Some x else ?nxt x)\<rparr>)"
  have tx: "xs \<noteq> [] \<Longrightarrow> ?t \<noteq> x"
    using d by (metis last_ConsR last_in_set)
  have r: "rotate_queue q s = Some s'"
    using h t tx
    by (cases "xs = []") (simp_all add: rotate_queue_def Let_def s'_def procs_upd_proc nextready_of_def)
  have n: "nextready_of s' = (?nxt(?t := Some x))(x := None)"
    by (simp add: s'_def nextready_of_upd_proc)
  have hd': "rdy_head s' = (rdy_head s)(q := if xs = [] then Some x else ?nxt x)"
    and tl': "rdy_tail s' = (rdy_tail s)(q := Some x)"
    by (simp_all add: s'_def)
  have 1: "ready_queue s' q (xs @ [x])"
  proof (cases "xs = []")
    case True
    then show ?thesis
      unfolding ready_queue_def n hd' tl' by simp
  next
    case False
    from nil_path_snoc[OF p False d]
    have "nil_path (?nxt(last xs := Some x, x := None)) (?nxt x) (xs @ [x])" .
    with False show ?thesis
      unfolding ready_queue_def n hd' tl' by simp
  qed
  have 2: "ready_queue s' q' zs"
    if "q' \<noteq> q" "ready_queue s q' zs" "set zs \<inter> set (x # xs) = {}" for q' zs
  proof -
    have "?t \<in> set (x # xs)"
      by (rule last_in_set) simp
    with that(3) have "x \<notin> set zs" "?t \<notin> set zs"
      by (auto simp del: last.simps)
    with that(1,2) show ?thesis
      unfolding ready_queue_def n hd' tl' by (simp add: nil_path_upd del: last.simps)
  qed
  have 3: "(procs s' y)\<lparr>p_nextready := p_nextready (procs s y)\<rparr> = procs s y" for y
    by (simp add: s'_def procs_upd_proc)
  have 4: "rdy_head s' q' = rdy_head s q' \<and> rdy_tail s' q' = rdy_tail s q'" if "q' \<noteq> q" for q'
    using that by (simp add: hd' tl')
  have 5: "memory s' = memory s" "proc_ptr s' = proc_ptr s" "next_ptr s' = next_ptr s"
    "bill_ptr s' = bill_ptr s"
    by (simp_all add: s'_def)
  from r 1 2 3 4 5 show ?thesis
    by (intro exI[of _ s']) (simp only: simp_thms, blast)
qed


lemma pick_scan_idem:
  "pick_scan cfg (pick_scan cfg s qs) qs = pick_scan cfg s qs"
proof (induction qs)
  case Nil
  show ?case by simp
next
  case (Cons q qs)
  show ?case
  proof (cases "rdy_head s q")
    case None
    have "rdy_head (pick_scan cfg s qs) q = rdy_head s q"
      by (subst pick_scan_frame) simp
    with None Cons show ?thesis by simp
  next
    case (Some rp)
    then show ?thesis by (simp add: Let_def)
  qed
qed

lemma pick_proc_idem: "pick_proc cfg (pick_proc cfg s) = pick_proc cfg s"
  unfolding pick_proc_def by (rule pick_scan_idem)

lemma rotate_if_head:
  fixes s :: "('v::len, 'b::len) kstate"
  assumes L: "ready_queue s q L"
  shows "\<exists>s'. (if rdy_head s q = Some sp then rotate_queue q s else Some s) = Some s' \<and>
           ready_queue s' q (if L \<noteq> [] \<and> hd L = sp then tl L @ [sp] else L) \<and>
           (\<forall>q' zs. q' \<noteq> q \<and> ready_queue s q' zs \<and> set zs \<inter> set L = {}
                \<longrightarrow> ready_queue s' q' zs) \<and>
           (\<forall>y. (procs s' y)\<lparr>p_nextready := p_nextready (procs s y)\<rparr> = procs s y) \<and>
           (\<forall>q'. q' \<noteq> q \<longrightarrow> rdy_head s' q' = rdy_head s q' \<and> rdy_tail s' q' = rdy_tail s q') \<and>
           memory s' = memory s \<and> proc_ptr s' = proc_ptr s"
proof (cases "L \<noteq> [] \<and> hd L = sp")
  case True
  then obtain xs where Lx: "L = sp # xs"
    by (cases L) auto
  with L have h: "rdy_head s q = Some sp"
    by (simp add: ready_queue_def)
  from ready_queue_rotate[OF L[unfolded Lx]] show ?thesis
    unfolding Lx h by (simp only: if_True list.sel simp_thms list.distinct) blast
next
  case False
  with ready_queue_head[OF L] have "rdy_head s q \<noteq> Some sp"
    by (cases L) auto
  with False L show ?thesis
    by (intro exI[of _ s]) auto
qed


lemma erase_nextready:
  assumes "p\<lparr>p_nextready := a\<rparr> = p'"
  shows "p\<lparr>p_nextready := b\<rparr> = p'\<lparr>p_nextready := b\<rparr>"
proof -
  from assms have "p' = p\<lparr>p_nextready := a\<rparr>" by simp
  then show ?thesis by simp
qed

lemma sched_no_demotion:
  fixes s :: "('v::len, 'b::len) kstate"
  assumes pre: "s_flags (p_priv (procs s sp)) AND PREEMPTIBLE cfg \<noteq> 0"
    and nd: "\<not> (p_full_quantums (procs s sp) - 1 \<le> 0 \<and> p_priority (procs s sp) + 1 < IDLE_Q cfg)"
    and q: "queue_index cfg (p_priority (procs s sp)) = Some q"
    and xs: "ready_queue s q xs"
  shows "\<exists>s'. sched cfg sp s = Some s' \<and>
           p_priority (procs s' sp) = p_priority (procs s sp) \<and>
           p_full_quantums (procs s' sp) =
             (if p_full_quantums (procs s sp) - 1 \<le> 0
              then QUANTUMS cfg (p_priority (procs s sp))
              else p_full_quantums (procs s sp) - 1) \<and>
           p_sched_ticks (procs s' sp) = p_quantum_size (procs s sp) \<and>
           ready_queue s' q (if xs \<noteq> [] \<and> hd xs = sp then tl xs @ [sp] else xs) \<and>
           (\<forall>q' zs. q' \<noteq> q \<and> ready_queue s q' zs \<and> set zs \<inter> set xs = {}
                \<longrightarrow> ready_queue s' q' zs) \<and>
           (\<forall>x. x \<noteq> sp \<longrightarrow>
                (procs s' x)\<lparr>p_nextready := None\<rparr> = (procs s x)\<lparr>p_nextready := None\<rparr>) \<and>
           (procs s' sp)\<lparr>p_nextready := None, p_priority := 0, p_full_quantums := 0,
                          p_sched_ticks := 0\<rparr> =
             (procs s sp)\<lparr>p_nextready := None, p_priority := 0, p_full_quantums := 0,
                          p_sched_ticks := 0\<rparr> \<and>
           (\<forall>q'. q' \<noteq> q \<longrightarrow> rdy_head s' q' = rdy_head s q' \<and> rdy_tail s' q' = rdy_tail s q') \<and>
           memory s' = memory s \<and> proc_ptr s' = proc_ptr s \<and>
           pick_proc cfg s' = s'"
proof -
  let ?k = "p_priority (procs s sp)" and ?fq = "p_full_quantums (procs s sp)"
  let ?s0 = "upd_proc sp (\<lambda>p. p\<lparr>p_full_quantums := p_full_quantums p - 1\<rparr>) s"
  define s1 where "s1 = (if ?fq - 1 \<le> 0
              then upd_proc sp (\<lambda>p. p\<lparr>p_full_quantums := QUANTUMS cfg (p_priority p)\<rparr>) ?s0
              else ?s0)"
  have dm: "sched_demote cfg sp ?s0 = Some s1"
    using nd by (auto simp add: sched_demote_def procs_upd_proc s1_def)
  have p1: "procs s1 x = (if x = sp then (procs s sp)\<lparr>p_full_quantums :=
                 (if ?fq - 1 \<le> 0 then QUANTUMS cfg ?k else ?fq - 1)\<rparr> else procs s x)" for x
    by (simp add: procs_upd_proc s1_def)
  have h1: "rdy_head s1 = rdy_head s" "rdy_tail s1 = rdy_tail s"
    "memory s1 = memory s" "proc_ptr s1 = proc_ptr s"
    by (simp_all add: s1_def)
  have rq1: "ready_queue s1 q' zs = ready_queue s q' zs" for q' zs
    by (simp add: ready_queue_upd_proc s1_def)
  have q1: "queue_index cfg (p_priority (procs s1 sp)) = Some q"
    using q by (simp add: p1)
  from rotate_if_head[of s1 q xs sp] xs
  obtain s2 where r: "(if rdy_head s1 q = Some sp then rotate_queue q s1 else Some s1) = Some s2"
    and rq2: "ready_queue s2 q (if xs \<noteq> [] \<and> hd xs = sp then tl xs @ [sp] else xs)"
    and ot2: "\<forall>q' zs. q' \<noteq> q \<and> ready_queue s1 q' zs \<and> set zs \<inter> set xs = {}
                \<longrightarrow> ready_queue s2 q' zs"
    and pr2: "\<forall>y. (procs s2 y)\<lparr>p_nextready := p_nextready (procs s1 y)\<rparr> = procs s1 y"
    and hd2: "\<forall>q'. q' \<noteq> q \<longrightarrow> rdy_head s2 q' = rdy_head s1 q' \<and> rdy_tail s2 q' = rdy_tail s1 q'"
    and m2: "memory s2 = memory s1" "proc_ptr s2 = proc_ptr s1"
    unfolding rq1 by blast
  define s' where "s' = pick_proc cfg (upd_proc sp (\<lambda>p. p\<lparr>p_sched_ticks := p_quantum_size p\<rparr>) s2)"
  have sc: "sched cfg sp s = Some s'"
    using pre dm q1 r by (simp add: sched_def s'_def)
  note g2 = proc_upto_nextready[OF pr2[rule_format]]
  have e2: "(procs s2 y)\<lparr>p_nextready := None\<rparr> = (procs s1 y)\<lparr>p_nextready := None\<rparr>" for y
    using pr2[rule_format, of y] by (rule erase_nextready)
  have ps: "procs s' x = (if x = sp then (procs s2 sp)\<lparr>p_sched_ticks := p_quantum_size (procs s2 sp)\<rparr>
                          else procs s2 x)" for x
    by (simp add: s'_def procs_upd_proc)
  have 1: "p_priority (procs s' sp) = ?k"
    "p_full_quantums (procs s' sp) = (if ?fq - 1 \<le> 0 then QUANTUMS cfg ?k else ?fq - 1)"
    "p_sched_ticks (procs s' sp) = p_quantum_size (procs s sp)"
    unfolding ps by (simp_all add: g2 p1)
  have 2: "ready_queue s' q (if xs \<noteq> [] \<and> hd xs = sp then tl xs @ [sp] else xs)"
    unfolding s'_def using rq2 by (simp add: ready_queue_upd_proc)
  have 3: "\<forall>q' zs. q' \<noteq> q \<and> ready_queue s q' zs \<and> set zs \<inter> set xs = {}
                \<longrightarrow> ready_queue s' q' zs"
    unfolding s'_def using ot2 by (simp add: ready_queue_upd_proc rq1)
  have 4: "\<forall>x. x \<noteq> sp \<longrightarrow>
                (procs s' x)\<lparr>p_nextready := None\<rparr> = (procs s x)\<lparr>p_nextready := None\<rparr>"
    unfolding ps using e2 by (simp add: p1)
  have "(procs s2 sp)\<lparr>p_nextready := None\<rparr> =
          (procs s sp)\<lparr>p_full_quantums := (if ?fq - 1 \<le> 0 then QUANTUMS cfg ?k else ?fq - 1),
                       p_nextready := None\<rparr>"
    using e2[of sp] by (simp add: p1)
  then have "(procs s2 sp)\<lparr>p_nextready := None\<rparr>\<lparr>p_priority := 0, p_full_quantums := 0,
                  p_sched_ticks := 0\<rparr> =
             (procs s sp)\<lparr>p_full_quantums := (if ?fq - 1 \<le> 0 then QUANTUMS cfg ?k else ?fq - 1),
                       p_nextready := None\<rparr>\<lparr>p_priority := 0, p_full_quantums := 0,
                  p_sched_ticks := 0\<rparr>"
    by (rule arg_cong)
  then have 5: "(procs s' sp)\<lparr>p_nextready := None, p_priority := 0, p_full_quantums := 0,
                          p_sched_ticks := 0\<rparr> =
             (procs s sp)\<lparr>p_nextready := None, p_priority := 0, p_full_quantums := 0,
                          p_sched_ticks := 0\<rparr>"
    unfolding ps by simp
  have 6: "\<forall>q'. q' \<noteq> q \<longrightarrow> rdy_head s' q' = rdy_head s q' \<and> rdy_tail s' q' = rdy_tail s q'"
    unfolding s'_def using hd2 by (simp add: h1)
  have 7: "memory s' = memory s" "proc_ptr s' = proc_ptr s"
    unfolding s'_def using m2 by (simp_all add: h1)
  have 8: "pick_proc cfg s' = s'"
    unfolding s'_def by (rule pick_proc_idem)
  from sc 1 2 3 4 5 6 7 8 show ?thesis
    by (intro exI[of _ s']) (simp only: simp_thms)
qed


lemma erase_four:
  assumes "p\<lparr>p_nextready := None\<rparr> = p'\<lparr>p_nextready := None\<rparr>"
  shows "p\<lparr>p_nextready := None, p_priority := 0, p_full_quantums := 0, p_sched_ticks := 0\<rparr> =
         p'\<lparr>p_nextready := None, p_priority := 0, p_full_quantums := 0, p_sched_ticks := 0\<rparr>"
proof -
  from assms have "p\<lparr>p_nextready := None\<rparr>\<lparr>p_priority := 0, p_full_quantums := 0,
                     p_sched_ticks := 0\<rparr> =
                   p'\<lparr>p_nextready := None\<rparr>\<lparr>p_priority := 0, p_full_quantums := 0,
                     p_sched_ticks := 0\<rparr>"
    by (rule arg_cong)
  then show ?thesis by simp
qed

lemma sched_demotion:
  fixes s :: "('v::len, 'b::len) kstate"
  assumes pre: "s_flags (p_priv (procs s sp)) AND PREEMPTIBLE cfg \<noteq> 0"
    and le: "p_full_quantums (procs s sp) - 1 \<le> 0"
    and lt: "p_priority (procs s sp) + 1 < IDLE_Q cfg"
    and g: "\<not> (iskernelp cfg (procs s sp) \<and>
                 s_stack_guard (p_priv (procs s sp)) \<noteq> STACK_GUARD cfg)"
    and q: "queue_index cfg (p_priority (procs s sp)) = Some q"
    and q1: "queue_index cfg (p_priority (procs s sp) + 1) = Some q1"
    and xs: "ready_queue s q xs" and ys: "ready_queue s q1 ys"
    and nin: "sp \<notin> set ys" and dis: "set ys \<inter> set xs = {}"
  shows "\<exists>s'. sched cfg sp s = Some s' \<and>
           p_priority (procs s' sp) = p_priority (procs s sp) + 1 \<and>
           p_full_quantums (procs s' sp) = QUANTUMS cfg (p_priority (procs s sp) + 1) \<and>
           p_sched_ticks (procs s' sp) = p_quantum_size (procs s sp) \<and>
           ready_queue s' q (filter (\<lambda>x. x \<noteq> sp) xs) \<and>
           ready_queue s' q1 (ys @ [sp]) \<and>
           (\<forall>q' zs. q' \<noteq> q \<and> q' \<noteq> q1 \<and> ready_queue s q' zs \<and> sp \<notin> set zs \<and>
                    set zs \<inter> set xs = {} \<and> set zs \<inter> set ys = {}
                \<longrightarrow> ready_queue s' q' zs) \<and>
           (\<forall>x. x \<noteq> sp \<longrightarrow>
                (procs s' x)\<lparr>p_nextready := None\<rparr> = (procs s x)\<lparr>p_nextready := None\<rparr>) \<and>
           (procs s' sp)\<lparr>p_nextready := None, p_priority := 0, p_full_quantums := 0,
                          p_sched_ticks := 0\<rparr> =
             (procs s sp)\<lparr>p_nextready := None, p_priority := 0, p_full_quantums := 0,
                          p_sched_ticks := 0\<rparr> \<and>
           (\<forall>q'. q' \<noteq> q \<and> q' \<noteq> q1 \<longrightarrow>
                rdy_head s' q' = rdy_head s q' \<and> rdy_tail s' q' = rdy_tail s q') \<and>
           memory s' = memory s \<and> proc_ptr s' = proc_ptr s \<and>
           pick_proc cfg s' = s'"
proof -
  let ?k = "p_priority (procs s sp)" and ?fq = "p_full_quantums (procs s sp)"
  let ?xs' = "filter (\<lambda>x. x \<noteq> sp) xs"
  from q q1 have qq: "q \<noteq> q1"
    by (auto simp add: queue_index_def split: if_splits)
  define s0 where "s0 = upd_proc sp (\<lambda>p. p\<lparr>p_full_quantums := p_full_quantums p - 1\<rparr>) s"
  have p0: "procs s0 x = (if x = sp then (procs s sp)\<lparr>p_full_quantums := ?fq - 1\<rparr> else procs s x)"
    for x
    by (simp add: s0_def procs_upd_proc)
  have h0: "rdy_head s0 = rdy_head s" "rdy_tail s0 = rdy_tail s"
    "memory s0 = memory s" "proc_ptr s0 = proc_ptr s"
    by (simp_all add: s0_def)
  have rq0: "ready_queue s0 q' zs = ready_queue s q' zs" for q' zs
    by (simp add: s0_def ready_queue_upd_proc)
  have g0: "\<not> (iskernelp cfg (procs s0 sp) \<and>
                 s_stack_guard (p_priv (procs s0 sp)) \<noteq> STACK_GUARD cfg)"
    using g by (simp add: p0 iskernelp_def)
  have q0: "queue_index cfg (p_priority (procs s0 sp)) = Some q"
    using q by (simp add: p0)
  from ready_queue_unready[OF g0 q0 xs[folded rq0]]
  obtain s2 where u: "unready cfg sp s0 = Some s2"
    and rq2: "ready_queue s2 q ?xs'"
    and ot2: "\<forall>q' zs. q' \<noteq> q \<and> ready_queue s0 q' zs \<and> set zs \<inter> set xs = {}
                \<longrightarrow> ready_queue s2 q' zs"
    and pr2: "\<forall>x. x \<noteq> sp \<longrightarrow> (procs s2 x)\<lparr>p_nextready := p_nextready (procs s0 x)\<rparr> = procs s0 x"
    and sp2: "procs s2 sp = (procs s0 sp)\<lparr>p_priority := p_max_priority (procs s0 sp),
                  p_full_quantums := QUANTUMS cfg (p_max_priority (procs s0 sp))\<rparr>"
    and hd2: "\<forall>q'. q' \<noteq> q \<longrightarrow> rdy_head s2 q' = rdy_head s0 q' \<and> rdy_tail s2 q' = rdy_tail s0 q'"
    and m2: "memory s2 = memory s0" "proc_ptr s2 = proc_ptr s0"
    by blast
  define s3 where "s3 = upd_proc sp (\<lambda>p. p\<lparr>p_priority := ?k + 1\<rparr>) s2"
  have p3: "procs s3 x = (if x = sp then (procs s2 sp)\<lparr>p_priority := ?k + 1\<rparr> else procs s2 x)"
    for x
    by (simp add: s3_def procs_upd_proc)
  have h3: "rdy_head s3 = rdy_head s2" "rdy_tail s3 = rdy_tail s2"
    "memory s3 = memory s2" "proc_ptr s3 = proc_ptr s2"
    by (simp_all add: s3_def)
  have rq3: "ready_queue s3 q' zs = ready_queue s2 q' zs" for q' zs
    by (simp add: s3_def ready_queue_upd_proc)
  have q3: "queue_index cfg (p_priority (procs s3 sp)) = Some q1"
    using q1 by (simp add: p3)
  have ys3: "ready_queue s3 q1 ys"
    unfolding rq3 using ot2 qq ys dis by (simp add: rq0)
  define L where "L = (if ys = [] then [sp]
                       else if s_flags (p_priv (procs s3 sp)) AND RDY_Q_HEAD cfg \<noteq> 0
                       then sp # ys else ys @ [sp])"
  from ready_queue_ready[OF q3 ys3 nin]
  obtain s4 where r: "ready cfg sp s3 = Some s4"
    and rq4: "ready_queue s4 q1 L"
    and ot4: "\<forall>q' zs. q' \<noteq> q1 \<and> ready_queue s3 q' zs \<and> sp \<notin> set zs \<and> set zs \<inter> set ys = {}
                \<longrightarrow> ready_queue s4 q' zs"
    and pr4: "\<forall>x. (procs s4 x)\<lparr>p_nextready := p_nextready (procs s3 x)\<rparr> = procs s3 x"
    and hd4: "\<forall>q'. q' \<noteq> q1 \<longrightarrow> rdy_head s4 q' = rdy_head s3 q' \<and> rdy_tail s4 q' = rdy_tail s3 q'"
    and m4: "memory s4 = memory s3" "proc_ptr s4 = proc_ptr s3"
    unfolding L_def by blast
  note g4 = proc_upto_nextready[OF pr4[rule_format]]
  define s5 where
    "s5 = upd_proc sp (\<lambda>p. p\<lparr>p_full_quantums := QUANTUMS cfg (p_priority p)\<rparr>) s4"
  have p5: "procs s5 x = (if x = sp then (procs s4 sp)\<lparr>p_full_quantums := QUANTUMS cfg (?k + 1)\<rparr>
                          else procs s4 x)" for x
    by (simp add: s5_def procs_upd_proc g4 p3)
  have h5: "rdy_head s5 = rdy_head s4" "rdy_tail s5 = rdy_tail s4"
    "memory s5 = memory s4" "proc_ptr s5 = proc_ptr s4"
    by (simp_all add: s5_def)
  have rq5: "ready_queue s5 q' zs = ready_queue s4 q' zs" for q' zs
    by (simp add: s5_def ready_queue_upd_proc)
  have dm: "sched_demote cfg sp s0 = Some s5"
    using le lt u r by (simp add: sched_demote_def p0 Let_def s3_def s5_def)
  have q5: "queue_index cfg (p_priority (procs s5 sp)) = Some q1"
    using q1 by (simp add: p5 g4 p3)
  from rotate_if_head[of s5 q1 L sp] rq4
  obtain s6 where ro: "(if rdy_head s5 q1 = Some sp then rotate_queue q1 s5 else Some s5) = Some s6"
    and rq6: "ready_queue s6 q1 (if L \<noteq> [] \<and> hd L = sp then tl L @ [sp] else L)"
    and ot6: "\<forall>q' zs. q' \<noteq> q1 \<and> ready_queue s5 q' zs \<and> set zs \<inter> set L = {}
                \<longrightarrow> ready_queue s6 q' zs"
    and pr6: "\<forall>y. (procs s6 y)\<lparr>p_nextready := p_nextready (procs s5 y)\<rparr> = procs s5 y"
    and hd6: "\<forall>q'. q' \<noteq> q1 \<longrightarrow> rdy_head s6 q' = rdy_head s5 q' \<and> rdy_tail s6 q' = rdy_tail s5 q'"
    and m6: "memory s6 = memory s5" "proc_ptr s6 = proc_ptr s5"
    unfolding rq5 by blast
  note g6 = proc_upto_nextready[OF pr6[rule_format]]
  have L': "(if L \<noteq> [] \<and> hd L = sp then tl L @ [sp] else L) = ys @ [sp]"
    using nin by (cases ys) (auto simp add: L_def)
  have Ls: "set L = insert sp (set ys)"
    by (auto simp add: L_def)
  define s' where "s' = pick_proc cfg (upd_proc sp (\<lambda>p. p\<lparr>p_sched_ticks := p_quantum_size p\<rparr>) s6)"
  have sc: "sched cfg sp s = Some s'"
    using pre dm q5 ro by (simp add: sched_def s'_def s0_def)
  have ps: "procs s' x = (if x = sp then (procs s6 sp)\<lparr>p_sched_ticks := p_quantum_size (procs s6 sp)\<rparr>
                          else procs s6 x)" for x
    by (simp add: s'_def procs_upd_proc)
  have rqs: "ready_queue s' q' zs = ready_queue s6 q' zs" for q' zs
    by (simp add: s'_def ready_queue_upd_proc)
  have 1: "p_priority (procs s' sp) = ?k + 1"
    "p_full_quantums (procs s' sp) = QUANTUMS cfg (?k + 1)"
    "p_sched_ticks (procs s' sp) = p_quantum_size (procs s sp)"
    unfolding ps by (simp_all add: g6 p5 g4 p3 sp2 p0)
  have 2: "ready_queue s' q1 (ys @ [sp])"
    unfolding rqs using rq6 unfolding L' .
  have fx: "sp \<notin> set ?xs'" "set ?xs' \<inter> set ys = {}" "set ?xs' \<inter> set L = {}"
    using dis by (auto simp add: Ls)
  have x4: "ready_queue s4 q ?xs'"
    using ot4[rule_format, of q ?xs'] qq rq2 fx by (simp add: rq3)
  have 3: "ready_queue s' q ?xs'"
    unfolding rqs using ot6[rule_format, of q ?xs'] qq x4 fx by (simp add: rq5)
  have 4: "\<forall>q' zs. q' \<noteq> q \<and> q' \<noteq> q1 \<and> ready_queue s q' zs \<and> sp \<notin> set zs \<and>
                    set zs \<inter> set xs = {} \<and> set zs \<inter> set ys = {}
                \<longrightarrow> ready_queue s' q' zs"
  proof (intro allI impI)
    fix q' zs
    assume a: "q' \<noteq> q \<and> q' \<noteq> q1 \<and> ready_queue s q' zs \<and> sp \<notin> set zs \<and>
                    set zs \<inter> set xs = {} \<and> set zs \<inter> set ys = {}"
    with ot2 have "ready_queue s2 q' zs" by (simp add: rq0)
    with ot4 a have "ready_queue s4 q' zs" by (simp add: rq3)
    with ot6 a have "ready_queue s6 q' zs" by (simp add: rq5 Ls)
    then show "ready_queue s' q' zs" unfolding rqs .
  qed
  have e: "(procs s6 y)\<lparr>p_nextready := None\<rparr> = (procs s5 y)\<lparr>p_nextready := None\<rparr>"
    "(procs s4 y)\<lparr>p_nextready := None\<rparr> = (procs s3 y)\<lparr>p_nextready := None\<rparr>" for y
    by (rule erase_nextready[OF pr6[rule_format]], rule erase_nextready[OF pr4[rule_format]])
  have e2: "(procs s2 y)\<lparr>p_nextready := None\<rparr> = (procs s0 y)\<lparr>p_nextready := None\<rparr>"
    if "y \<noteq> sp" for y
    using pr2[rule_format, OF that] by (rule erase_nextready)
  have 5: "\<forall>x. x \<noteq> sp \<longrightarrow>
                (procs s' x)\<lparr>p_nextready := None\<rparr> = (procs s x)\<lparr>p_nextready := None\<rparr>"
  proof (intro allI impI)
    fix x assume x: "x \<noteq> sp"
    have "(procs s' x)\<lparr>p_nextready := None\<rparr> = (procs s6 x)\<lparr>p_nextready := None\<rparr>"
      using x by (simp add: ps)
    also have "\<dots> = (procs s4 x)\<lparr>p_nextready := None\<rparr>"
      unfolding e(1) using x by (simp add: p5)
    also have "\<dots> = (procs s2 x)\<lparr>p_nextready := None\<rparr>"
      unfolding e(2) using x by (simp add: p3)
    also have "\<dots> = (procs s x)\<lparr>p_nextready := None\<rparr>"
      unfolding e2[OF x] using x by (simp add: p0)
    finally show "(procs s' x)\<lparr>p_nextready := None\<rparr> = (procs s x)\<lparr>p_nextready := None\<rparr>" .
  qed
  have 6: "(procs s' sp)\<lparr>p_nextready := None, p_priority := 0, p_full_quantums := 0,
                          p_sched_ticks := 0\<rparr> =
             (procs s sp)\<lparr>p_nextready := None, p_priority := 0, p_full_quantums := 0,
                          p_sched_ticks := 0\<rparr>"
  proof -
    have "(procs s' sp)\<lparr>p_nextready := None, p_priority := 0, p_full_quantums := 0,
                          p_sched_ticks := 0\<rparr> =
          (procs s6 sp)\<lparr>p_nextready := None, p_priority := 0, p_full_quantums := 0,
                          p_sched_ticks := 0\<rparr>"
      by (simp add: ps)
    also have "\<dots> = (procs s5 sp)\<lparr>p_nextready := None, p_priority := 0, p_full_quantums := 0,
                          p_sched_ticks := 0\<rparr>"
      using e(1)[of sp] by (rule erase_four)
    also have "\<dots> = (procs s4 sp)\<lparr>p_nextready := None, p_priority := 0, p_full_quantums := 0,
                          p_sched_ticks := 0\<rparr>"
      by (simp add: p5)
    also have "\<dots> = (procs s3 sp)\<lparr>p_nextready := None, p_priority := 0, p_full_quantums := 0,
                          p_sched_ticks := 0\<rparr>"
      using e(2)[of sp] by (rule erase_four)
    also have "\<dots> = (procs s sp)\<lparr>p_nextready := None, p_priority := 0, p_full_quantums := 0,
                          p_sched_ticks := 0\<rparr>"
      by (simp add: p3 sp2 p0)
    finally show ?thesis .
  qed
  have 7: "\<forall>q'. q' \<noteq> q \<and> q' \<noteq> q1 \<longrightarrow>
                rdy_head s' q' = rdy_head s q' \<and> rdy_tail s' q' = rdy_tail s q'"
    unfolding s'_def using hd2 hd4 hd6 by (simp add: h0 h3 h5)
  have 8: "memory s' = memory s" "proc_ptr s' = proc_ptr s"
    unfolding s'_def using m2 m4 m6 by (simp_all add: h0 h3 h5)
  have 9: "pick_proc cfg s' = s'"
    unfolding s'_def by (rule pick_proc_idem)
  from sc 1 2 3 4 5 6 7 8 9 show ?thesis
    by (intro exI[of _ s']) (simp only: simp_thms)
qed


text \<open>
  Claim C7. \<open>sched\<close> leaves the state as it is when the process is not
  \<open>PREEMPTIBLE\<close>. For a \<open>PREEMPTIBLE\<close> process \<open>sp\<close> of priority \<open>k\<close> it decrements
  \<open>p_full_quantums\<close>. When the result is \<open>\<le> 0\<close> and \<open>k + 1 < IDLE_Q\<close>, \<open>sp\<close> moves
  to the priority \<open>k + 1\<close>: it is taken from the queue of \<open>k\<close>, whose other slots keep
  their order, and ends as the last slot of the queue of \<open>k + 1\<close> (\<open>ready\<close> puts it
  there, or at the head, from where the rotation brings it to the tail), and
  \<open>p_full_quantums\<close> is the budget \<open>QUANTUMS(k + 1)\<close> of the new level. Otherwise the
  priority stays, \<open>p_full_quantums\<close> is the decremented value, or \<open>QUANTUMS(k)\<close> when
  that is \<open>\<le> 0\<close>, and the queue of \<open>k\<close> is rotated head to tail exactly when \<open>sp\<close> is
  its head. In both cases \<open>p_sched_ticks\<close> is refilled from \<open>p_quantum_size\<close>,
  \<open>pick_proc\<close> has elected the next process (calling it again changes nothing), no
  other field of \<open>sp\<close> and, but for the links of the queues, no other slot is changed.
  The ready queues concerned are well-formed lists, disjoint from each other, the
  priorities name queues, and a kernel task has its stack guard intact.
\<close>

theorem sched_quantum:
  fixes s :: "('v::len, 'b::len) kstate"
  shows
   "(s_flags (p_priv (procs s sp)) AND PREEMPTIBLE cfg = 0 \<longrightarrow> sched cfg sp s = Some s) \<and>
    (s_flags (p_priv (procs s sp)) AND PREEMPTIBLE cfg \<noteq> 0 \<and>
     p_full_quantums (procs s sp) - 1 \<le> 0 \<and> p_priority (procs s sp) + 1 < IDLE_Q cfg \<and>
     \<not> (iskernelp cfg (procs s sp) \<and> s_stack_guard (p_priv (procs s sp)) \<noteq> STACK_GUARD cfg) \<and>
     queue_index cfg (p_priority (procs s sp)) = Some q \<and>
     queue_index cfg (p_priority (procs s sp) + 1) = Some q1 \<and>
     ready_queue s q xs \<and> ready_queue s q1 ys \<and> sp \<notin> set ys \<and> set ys \<inter> set xs = {}
     \<longrightarrow>
       (\<exists>s'. sched cfg sp s = Some s' \<and>
           p_priority (procs s' sp) = p_priority (procs s sp) + 1 \<and>
           p_full_quantums (procs s' sp) = QUANTUMS cfg (p_priority (procs s sp) + 1) \<and>
           p_sched_ticks (procs s' sp) = p_quantum_size (procs s sp) \<and>
           ready_queue s' q (filter (\<lambda>x. x \<noteq> sp) xs) \<and>
           ready_queue s' q1 (ys @ [sp]) \<and>
           (\<forall>q' zs. q' \<noteq> q \<and> q' \<noteq> q1 \<and> ready_queue s q' zs \<and> sp \<notin> set zs \<and>
                    set zs \<inter> set xs = {} \<and> set zs \<inter> set ys = {}
                \<longrightarrow> ready_queue s' q' zs) \<and>
           (\<forall>x. x \<noteq> sp \<longrightarrow>
                (procs s' x)\<lparr>p_nextready := None\<rparr> = (procs s x)\<lparr>p_nextready := None\<rparr>) \<and>
           (procs s' sp)\<lparr>p_nextready := None, p_priority := 0, p_full_quantums := 0,
                          p_sched_ticks := 0\<rparr> =
             (procs s sp)\<lparr>p_nextready := None, p_priority := 0, p_full_quantums := 0,
                          p_sched_ticks := 0\<rparr> \<and>
           (\<forall>q'. q' \<noteq> q \<and> q' \<noteq> q1 \<longrightarrow>
                rdy_head s' q' = rdy_head s q' \<and> rdy_tail s' q' = rdy_tail s q') \<and>
           memory s' = memory s \<and> proc_ptr s' = proc_ptr s \<and>
           pick_proc cfg s' = s')) \<and>
    (s_flags (p_priv (procs s sp)) AND PREEMPTIBLE cfg \<noteq> 0 \<and>
     \<not> (p_full_quantums (procs s sp) - 1 \<le> 0 \<and> p_priority (procs s sp) + 1 < IDLE_Q cfg) \<and>
     queue_index cfg (p_priority (procs s sp)) = Some q \<and> ready_queue s q xs
     \<longrightarrow>
       (\<exists>s'. sched cfg sp s = Some s' \<and>
           p_priority (procs s' sp) = p_priority (procs s sp) \<and>
           p_full_quantums (procs s' sp) =
             (if p_full_quantums (procs s sp) - 1 \<le> 0
              then QUANTUMS cfg (p_priority (procs s sp))
              else p_full_quantums (procs s sp) - 1) \<and>
           p_sched_ticks (procs s' sp) = p_quantum_size (procs s sp) \<and>
           ready_queue s' q (if xs \<noteq> [] \<and> hd xs = sp then tl xs @ [sp] else xs) \<and>
           (\<forall>q' zs. q' \<noteq> q \<and> ready_queue s q' zs \<and> set zs \<inter> set xs = {}
                \<longrightarrow> ready_queue s' q' zs) \<and>
           (\<forall>x. x \<noteq> sp \<longrightarrow>
                (procs s' x)\<lparr>p_nextready := None\<rparr> = (procs s x)\<lparr>p_nextready := None\<rparr>) \<and>
           (procs s' sp)\<lparr>p_nextready := None, p_priority := 0, p_full_quantums := 0,
                          p_sched_ticks := 0\<rparr> =
             (procs s sp)\<lparr>p_nextready := None, p_priority := 0, p_full_quantums := 0,
                          p_sched_ticks := 0\<rparr> \<and>
           (\<forall>q'. q' \<noteq> q \<longrightarrow> rdy_head s' q' = rdy_head s q' \<and> rdy_tail s' q' = rdy_tail s q') \<and>
           memory s' = memory s \<and> proc_ptr s' = proc_ptr s \<and>
           pick_proc cfg s' = s'))"
proof (intro conjI impI)
  assume "s_flags (p_priv (procs s sp)) AND PREEMPTIBLE cfg = 0"
  then show "sched cfg sp s = Some s"
    by (simp add: sched_def)
next
  assume a: "s_flags (p_priv (procs s sp)) AND PREEMPTIBLE cfg \<noteq> 0 \<and>
     p_full_quantums (procs s sp) - 1 \<le> 0 \<and> p_priority (procs s sp) + 1 < IDLE_Q cfg \<and>
     \<not> (iskernelp cfg (procs s sp) \<and> s_stack_guard (p_priv (procs s sp)) \<noteq> STACK_GUARD cfg) \<and>
     queue_index cfg (p_priority (procs s sp)) = Some q \<and>
     queue_index cfg (p_priority (procs s sp) + 1) = Some q1 \<and>
     ready_queue s q xs \<and> ready_queue s q1 ys \<and> sp \<notin> set ys \<and> set ys \<inter> set xs = {}"
  then have h: "s_flags (p_priv (procs s sp)) AND PREEMPTIBLE cfg \<noteq> 0"
    "p_full_quantums (procs s sp) - 1 \<le> 0" "p_priority (procs s sp) + 1 < IDLE_Q cfg"
    "\<not> (iskernelp cfg (procs s sp) \<and> s_stack_guard (p_priv (procs s sp)) \<noteq> STACK_GUARD cfg)"
    "queue_index cfg (p_priority (procs s sp)) = Some q"
    "queue_index cfg (p_priority (procs s sp) + 1) = Some q1"
    "ready_queue s q xs" "ready_queue s q1 ys" "sp \<notin> set ys" "set ys \<inter> set xs = {}"
    by blast+
  show "\<exists>s'. sched cfg sp s = Some s' \<and>
           p_priority (procs s' sp) = p_priority (procs s sp) + 1 \<and>
           p_full_quantums (procs s' sp) = QUANTUMS cfg (p_priority (procs s sp) + 1) \<and>
           p_sched_ticks (procs s' sp) = p_quantum_size (procs s sp) \<and>
           ready_queue s' q (filter (\<lambda>x. x \<noteq> sp) xs) \<and>
           ready_queue s' q1 (ys @ [sp]) \<and>
           (\<forall>q' zs. q' \<noteq> q \<and> q' \<noteq> q1 \<and> ready_queue s q' zs \<and> sp \<notin> set zs \<and>
                    set zs \<inter> set xs = {} \<and> set zs \<inter> set ys = {}
                \<longrightarrow> ready_queue s' q' zs) \<and>
           (\<forall>x. x \<noteq> sp \<longrightarrow>
                (procs s' x)\<lparr>p_nextready := None\<rparr> = (procs s x)\<lparr>p_nextready := None\<rparr>) \<and>
           (procs s' sp)\<lparr>p_nextready := None, p_priority := 0, p_full_quantums := 0,
                          p_sched_ticks := 0\<rparr> =
             (procs s sp)\<lparr>p_nextready := None, p_priority := 0, p_full_quantums := 0,
                          p_sched_ticks := 0\<rparr> \<and>
           (\<forall>q'. q' \<noteq> q \<and> q' \<noteq> q1 \<longrightarrow>
                rdy_head s' q' = rdy_head s q' \<and> rdy_tail s' q' = rdy_tail s q') \<and>
           memory s' = memory s \<and> proc_ptr s' = proc_ptr s \<and>
           pick_proc cfg s' = s'"
    by (rule sched_demotion[OF h])
next
  assume a: "s_flags (p_priv (procs s sp)) AND PREEMPTIBLE cfg \<noteq> 0 \<and>
     \<not> (p_full_quantums (procs s sp) - 1 \<le> 0 \<and> p_priority (procs s sp) + 1 < IDLE_Q cfg) \<and>
     queue_index cfg (p_priority (procs s sp)) = Some q \<and> ready_queue s q xs"
  then have h: "s_flags (p_priv (procs s sp)) AND PREEMPTIBLE cfg \<noteq> 0"
    "\<not> (p_full_quantums (procs s sp) - 1 \<le> 0 \<and> p_priority (procs s sp) + 1 < IDLE_Q cfg)"
    "queue_index cfg (p_priority (procs s sp)) = Some q" "ready_queue s q xs"
    by blast+
  show "\<exists>s'. sched cfg sp s = Some s' \<and>
           p_priority (procs s' sp) = p_priority (procs s sp) \<and>
           p_full_quantums (procs s' sp) =
             (if p_full_quantums (procs s sp) - 1 \<le> 0
              then QUANTUMS cfg (p_priority (procs s sp))
              else p_full_quantums (procs s sp) - 1) \<and>
           p_sched_ticks (procs s' sp) = p_quantum_size (procs s sp) \<and>
           ready_queue s' q (if xs \<noteq> [] \<and> hd xs = sp then tl xs @ [sp] else xs) \<and>
           (\<forall>q' zs. q' \<noteq> q \<and> ready_queue s q' zs \<and> set zs \<inter> set xs = {}
                \<longrightarrow> ready_queue s' q' zs) \<and>
           (\<forall>x. x \<noteq> sp \<longrightarrow>
                (procs s' x)\<lparr>p_nextready := None\<rparr> = (procs s x)\<lparr>p_nextready := None\<rparr>) \<and>
           (procs s' sp)\<lparr>p_nextready := None, p_priority := 0, p_full_quantums := 0,
                          p_sched_ticks := 0\<rparr> =
             (procs s sp)\<lparr>p_nextready := None, p_priority := 0, p_full_quantums := 0,
                          p_sched_ticks := 0\<rparr> \<and>
           (\<forall>q'. q' \<noteq> q \<longrightarrow> rdy_head s' q' = rdy_head s q' \<and> rdy_tail s' q' = rdy_tail s q') \<and>
           memory s' = memory s \<and> proc_ptr s' = proc_ptr s \<and>
           pick_proc cfg s' = s'"
    by (rule sched_no_demotion[OF h])
qed



theorem sched_quantum_witness:
  "sched cfg0 2 st_np = Some st_np \<and>
   (\<exists>s'. sched cfg0 2 st_sched = Some s' \<and>
      p_priority (procs s' 2) = 8 \<and> p_full_quantums (procs s' 2) = 5 \<and>
      p_sched_ticks (procs s' 2) = 8 \<and>
      ready_queue s' 7 [3] \<and> ready_queue s' 8 [5, 2] \<and> pick_proc cfg0 s' = s') \<and>
   (\<exists>s'. sched cfg0 2 st_queue = Some s' \<and>
      p_priority (procs s' 2) = 7 \<and> p_full_quantums (procs s' 2) = 4 \<and>
      p_sched_ticks (procs s' 2) = 8 \<and>
      ready_queue s' 7 [3, 2] \<and> pick_proc cfg0 s' = s')"
proof -
  have np: "s_flags (p_priv (procs st_np 2)) AND PREEMPTIBLE cfg0 = 0"
    by (simp add: st_np_def procs_upd_proc upd_priv_def cfg0_def)
  have 1: "sched cfg0 2 st_np = Some st_np"
    by (rule mp[OF sched_quantum[of st_np 2 cfg0, THEN conjunct1] np])
  have q7: "ready_queue st_queue 7 [2, 3]" "ready_queue st_sched 7 [2, 3]"
    and q8: "ready_queue st_sched 8 [5]"
    by (simp_all add: ready_queue_def nextready_of_def st_sched_def st_queue_def procs_upd_proc
          st0_def proc0_def)
  have v: "s_flags (p_priv (procs st_sched 2)) AND PREEMPTIBLE cfg0 \<noteq> 0"
    "s_flags (p_priv (procs st_queue 2)) AND PREEMPTIBLE cfg0 \<noteq> 0"
    "p_full_quantums (procs st_sched 2) = 1" "p_full_quantums (procs st_queue 2) = 5"
    "p_priority (procs st_sched 2) = 7" "p_priority (procs st_queue 2) = 7"
    "p_quantum_size (procs st_sched 2) = 8" "p_quantum_size (procs st_queue 2) = 8"
    "\<not> iskernelp cfg0 (procs st_sched 2)"
    "queue_index cfg0 7 = Some 7" "queue_index cfg0 8 = Some 8"
    "IDLE_Q cfg0 = 15" "QUANTUMS cfg0 8 = 5"
    by (simp_all add: st_sched_def st_queue_def procs_upd_proc st0_def proc0_def priv0_def
          iskernelp_def queue_index_def cfg0_def)
  have hB: "s_flags (p_priv (procs st_sched 2)) AND PREEMPTIBLE cfg0 \<noteq> 0 \<and>
     p_full_quantums (procs st_sched 2) - 1 \<le> 0 \<and> p_priority (procs st_sched 2) + 1 < IDLE_Q cfg0 \<and>
     \<not> (iskernelp cfg0 (procs st_sched 2) \<and>
        s_stack_guard (p_priv (procs st_sched 2)) \<noteq> STACK_GUARD cfg0) \<and>
     queue_index cfg0 (p_priority (procs st_sched 2)) = Some 7 \<and>
     queue_index cfg0 (p_priority (procs st_sched 2) + 1) = Some 8 \<and>
     ready_queue st_sched 7 [2, 3] \<and> ready_queue st_sched 8 [5] \<and> (2::int) \<notin> set [5] \<and>
     set [5::int] \<inter> set [2, 3] = {}"
    using q7(2) q8 by (simp add: v)
  note B = mp[OF sched_quantum[of st_sched 2 cfg0 7 8 "[2, 3]" "[5]",
                 THEN conjunct2, THEN conjunct1] hB]
  from B have "\<exists>s'. sched cfg0 2 st_sched = Some s' \<and>
      p_priority (procs s' 2) = p_priority (procs st_sched 2) + 1 \<and>
      p_full_quantums (procs s' 2) = QUANTUMS cfg0 (p_priority (procs st_sched 2) + 1) \<and>
      p_sched_ticks (procs s' 2) = p_quantum_size (procs st_sched 2) \<and>
      ready_queue s' 7 (filter (\<lambda>x. x \<noteq> 2) [2, 3]) \<and> ready_queue s' 8 ([5] @ [2]) \<and>
      pick_proc cfg0 s' = s'"
    by (elim exE conjE, intro exI conjI) assumption+
  then have 2: "\<exists>s'. sched cfg0 2 st_sched = Some s' \<and>
      p_priority (procs s' 2) = 8 \<and> p_full_quantums (procs s' 2) = 5 \<and>
      p_sched_ticks (procs s' 2) = 8 \<and>
      ready_queue s' 7 [3] \<and> ready_queue s' 8 [5, 2] \<and> pick_proc cfg0 s' = s'"
    by (simp add: v)
  have hC: "s_flags (p_priv (procs st_queue 2)) AND PREEMPTIBLE cfg0 \<noteq> 0 \<and>
     \<not> (p_full_quantums (procs st_queue 2) - 1 \<le> 0 \<and>
        p_priority (procs st_queue 2) + 1 < IDLE_Q cfg0) \<and>
     queue_index cfg0 (p_priority (procs st_queue 2)) = Some 7 \<and> ready_queue st_queue 7 [2, 3]"
    using q7(1) by (simp add: v)
  note C = mp[OF sched_quantum[of st_queue 2 cfg0 7 7 "[2, 3]" "[]",
                 THEN conjunct2, THEN conjunct2] hC]
  from C have "\<exists>s'. sched cfg0 2 st_queue = Some s' \<and>
      p_priority (procs s' 2) = p_priority (procs st_queue 2) \<and>
      p_full_quantums (procs s' 2) =
         (if p_full_quantums (procs st_queue 2) - 1 \<le> 0
          then QUANTUMS cfg0 (p_priority (procs st_queue 2))
          else p_full_quantums (procs st_queue 2) - 1) \<and>
      p_sched_ticks (procs s' 2) = p_quantum_size (procs st_queue 2) \<and>
      ready_queue s' 7 (if [2, 3 :: int] \<noteq> [] \<and> hd [2, 3 :: int] = (2 :: int)
                        then tl [2, 3] @ [2] else [2, 3]) \<and>
      pick_proc cfg0 s' = s'"
    by (elim exE conjE, intro exI conjI) assumption+
  then have 3: "\<exists>s'. sched cfg0 2 st_queue = Some s' \<and>
      p_priority (procs s' 2) = 7 \<and> p_full_quantums (procs s' 2) = 4 \<and>
      p_sched_ticks (procs s' 2) = 8 \<and>
      ready_queue s' 7 [3, 2] \<and> pick_proc cfg0 s' = s'"
    by (simp add: v)
  from 1 2 3 show ?thesis by (intro conjI)
qed

end
